(* ===== verification/Prelude.thy ===== *)
theory Prelude
  imports Main "HOL-Library.Word" "HOL-Library.Sublist"
begin

text \<open>
  Shared vocabulary of the development: the parts of Rust and of its standard library that
  the sources use everywhere. A Rust \<open>str\<close> is a sequence of UTF-8 bytes, and an Isabelle
  \<open>char\<close> is a byte, so \<open>str\<close> is \<open>string\<close> and \<open>len\<close> is \<open>length\<close>. The theory holds
  \<^item> results \<open>'e + 'a\<close> with the propagation operator \<open>?\<close> as \<open>bind_res\<close>;
  \<^item> byte classes, char boundaries and checked slicing (\<open>&s[a..b]\<close> panics off a boundary);
  \<^item> \<open>trim\<close> and \<open>split_whitespace\<close> over the Unicode white space characters;
  \<^item> decimal printing and parsing with the overflow checks of \<open>FromStr\<close>.
\<close>

section \<open>Results\<close>

named_theorems res_simps \<open>evaluation of results and of their propagation\<close>

definition bind_res :: "'e + 'a \<Rightarrow> ('a \<Rightarrow> 'e + 'b) \<Rightarrow> 'e + 'b" where
  "bind_res m f = (case m of Inl e \<Rightarrow> Inl e | Inr x \<Rightarrow> f x)"

definition map_err :: "('e \<Rightarrow> 'f) \<Rightarrow> 'e + 'a \<Rightarrow> 'f + 'a" where
  "map_err g m = (case m of Inl e \<Rightarrow> Inl (g e) | Inr x \<Rightarrow> Inr x)"

definition is_ok :: "'e + 'a \<Rightarrow> bool" where
  "is_ok m = (case m of Inl _ \<Rightarrow> False | Inr _ \<Rightarrow> True)"

lemma bind_res_Inl [simp, res_simps]: "bind_res (Inl e) f = Inl e"
  by (simp add: bind_res_def)

lemma bind_res_Inr [simp, res_simps]: "bind_res (Inr x) f = f x"
  by (simp add: bind_res_def)

lemma bind_res_eq_Inr: "bind_res m f = Inr y \<longleftrightarrow> (\<exists>x. m = Inr x \<and> f x = Inr y)"
  by (cases m) simp_all

lemma bind_res_eq_Inl: "bind_res m f = Inl e \<longleftrightarrow> m = Inl e \<or> (\<exists>x. m = Inr x \<and> f x = Inl e)"
  by (cases m) simp_all

lemma bind_resE:
  assumes "bind_res m f = Inr y" obtains x where "m = Inr x" "f x = Inr y"
  using assms by (auto simp: bind_res_eq_Inr)

lemma map_err_simps [simp, res_simps]:
  "map_err g (Inl e) = Inl (g e)" "map_err g (Inr x) = Inr x"
  by (simp_all add: map_err_def)

lemma map_err_eq_Inr [simp]: "map_err g m = Inr x \<longleftrightarrow> m = Inr x"
  by (cases m) simp_all

lemma is_ok_simps [simp, res_simps]: "is_ok (Inl e) = False" "is_ok (Inr x) = True"
  by (simp_all add: is_ok_def)

lemma is_ok_iff: "is_ok m \<longleftrightarrow> (\<exists>x. m = Inr x)"
  by (cases m) simp_all

section \<open>Bytes and byte classes\<close>

abbreviation byte :: "char \<Rightarrow> nat" where
  "byte c \<equiv> of_char c"

abbreviation LF :: char where
  "LF \<equiv> CHR 0x0A"

abbreviation DQ :: char where
  "DQ \<equiv> CHR 0x22"

abbreviation BS :: char where
  "BS \<equiv> CHR 0x5C"

text \<open>\<open>u8::is_ascii_whitespace\<close>: space, tab, line feed, form feed, carriage return.\<close>

definition is_ascii_whitespace :: "char \<Rightarrow> bool" where
  "is_ascii_whitespace c \<longleftrightarrow>
     c = CHR 0x20 \<or> c = CHR 0x09 \<or> c = CHR 0x0A \<or> c = CHR 0x0C \<or> c = CHR 0x0D"

definition is_ascii_digit :: "char \<Rightarrow> bool" where
  "is_ascii_digit c \<longleftrightarrow> 48 \<le> byte c \<and> byte c \<le> 57"

definition is_ascii_uppercase :: "char \<Rightarrow> bool" where
  "is_ascii_uppercase c \<longleftrightarrow> 65 \<le> byte c \<and> byte c \<le> 90"

definition is_ascii_lowercase :: "char \<Rightarrow> bool" where
  "is_ascii_lowercase c \<longleftrightarrow> 97 \<le> byte c \<and> byte c \<le> 122"

definition is_ascii_alphabetic :: "char \<Rightarrow> bool" where
  "is_ascii_alphabetic c \<longleftrightarrow> is_ascii_uppercase c \<or> is_ascii_lowercase c"

definition to_ascii_lower :: "char \<Rightarrow> char" where
  "to_ascii_lower c = (if is_ascii_uppercase c then char_of (byte c + 32) else c)"

definition to_ascii_lowercase :: "string \<Rightarrow> string" where
  "to_ascii_lowercase s = map to_ascii_lower s"

definition eq_ignore_ascii_case :: "string \<Rightarrow> string \<Rightarrow> bool" where
  "eq_ignore_ascii_case s t \<longleftrightarrow> to_ascii_lowercase s = to_ascii_lowercase t"

section \<open>Char boundaries, slices and UTF-8\<close>

text \<open>A UTF-8 continuation byte is \<open>10xxxxxx\<close>.\<close>

definition is_cont :: "char \<Rightarrow> bool" where
  "is_cont c \<longleftrightarrow> 128 \<le> byte c \<and> byte c < 192"

text \<open>\<open>str::is_char_boundary\<close>.\<close>

definition is_char_boundary :: "string \<Rightarrow> nat \<Rightarrow> bool" where
  "is_char_boundary s i \<longleftrightarrow> i = length s \<or> (i < length s \<and> \<not> is_cont (s ! i)) \<or> i = 0"

text \<open>\<open>&s[a..b]\<close>: \<open>None\<close> stands for the panic.\<close>

definition str_slice :: "string \<Rightarrow> nat \<Rightarrow> nat \<Rightarrow> string option" where
  "str_slice s a b =
     (if a \<le> b \<and> b \<le> length s \<and> is_char_boundary s a \<and> is_char_boundary s b
      then Some (take (b - a) (drop a s)) else None)"

text \<open>\<open>core::str::from_utf8\<close> accepts exactly the well-formed UTF-8 byte sequences
  (Unicode table 3-7).\<close>

fun utf8_valid :: "string \<Rightarrow> bool" where
  "utf8_valid [] = True"
| "utf8_valid (a # s) =
     (if byte a < 128 then utf8_valid s
      else if 194 \<le> byte a \<and> byte a \<le> 223 then
        (case s of b # s2 \<Rightarrow> is_cont b \<and> utf8_valid s2 | _ \<Rightarrow> False)
      else if 224 \<le> byte a \<and> byte a \<le> 239 then
        (case s of b # c # s3 \<Rightarrow>
           is_cont b \<and> is_cont c \<and> (byte a = 224 \<longrightarrow> 160 \<le> byte b) \<and>
           (byte a = 237 \<longrightarrow> byte b \<le> 159) \<and> utf8_valid s3
         | _ \<Rightarrow> False)
      else if 240 \<le> byte a \<and> byte a \<le> 244 then
        (case s of b # c # d # s4 \<Rightarrow>
           is_cont b \<and> is_cont c \<and> is_cont d \<and> (byte a = 240 \<longrightarrow> 144 \<le> byte b) \<and>
           (byte a = 244 \<longrightarrow> byte b \<le> 143) \<and> utf8_valid s4
         | _ \<Rightarrow> False)
      else False)"

text \<open>What slicing needs of UTF-8: no continuation byte stands first or after an ASCII
  byte. The flag says whether the previous byte is ASCII (or the start of the text).\<close>

fun no_orphan :: "bool \<Rightarrow> string \<Rightarrow> bool" where
  "no_orphan prev [] = True"
| "no_orphan prev (c # s) = ((prev \<longrightarrow> \<not> is_cont c) \<and> no_orphan (byte c < 128) s)"

lemma is_cont_ascii [simp]: "byte c < 128 \<Longrightarrow> \<not> is_cont c"
  by (simp add: is_cont_def)

lemma no_orphan_weaken: "no_orphan True s \<Longrightarrow> no_orphan prev s"
  by (cases s) auto

lemma utf8_valid_no_orphan: "utf8_valid s \<Longrightarrow> no_orphan True s"
proof (induction s rule: utf8_valid.induct)
  case (2 a s)
  then show ?case
    by (auto simp: is_cont_def intro: no_orphan_weaken split: if_splits list.splits)
qed simp

section \<open>White space\<close>

text \<open>The length in bytes of the white space character (Unicode \<open>White_Space\<close>) a text starts
  with, \<open>0\<close> if it starts with none: U+0009..U+000D, U+0020, U+0085, U+00A0, U+1680,
  U+2000..U+200A, U+2028, U+2029, U+202F, U+205F, U+3000.\<close>

definition ws_len :: "string \<Rightarrow> nat" where
  "ws_len s =
     (case s of [] \<Rightarrow> 0
      | a # r \<Rightarrow>
          if (9 \<le> byte a \<and> byte a \<le> 13) \<or> byte a = 32 then 1
          else (case r of [] \<Rightarrow> 0
                | b # r2 \<Rightarrow>
                    if byte a = 0xC2 \<and> (byte b = 0x85 \<or> byte b = 0xA0) then 2
                    else (case r2 of [] \<Rightarrow> 0
                          | c # _ \<Rightarrow>
                              if (byte a = 0xE1 \<and> byte b = 0x9A \<and> byte c = 0x80)
                               \<or> (byte a = 0xE2 \<and> byte b = 0x80 \<and>
                                  ((0x80 \<le> byte c \<and> byte c \<le> 0x8A) \<or> byte c = 0xA8 \<or>
                                   byte c = 0xA9 \<or> byte c = 0xAF))
                               \<or> (byte a = 0xE2 \<and> byte b = 0x81 \<and> byte c = 0x9F)
                               \<or> (byte a = 0xE3 \<and> byte b = 0x80 \<and> byte c = 0x80)
                              then 3 else 0)))"

lemma ws_len_le: "ws_len s \<le> length s"
  by (auto simp: ws_len_def split: list.splits)

lemma ws_len_Nil [simp]: "ws_len [] = 0"
  by (simp add: ws_len_def)

text \<open>The same for the character a text ends with.\<close>

definition ws_tail :: "string \<Rightarrow> nat" where
  "ws_tail s =
     (let n = length s in
      if 1 \<le> n \<and> ws_len (drop (n - 1) s) = 1 then 1
      else if 2 \<le> n \<and> ws_len (drop (n - 2) s) = 2 then 2
      else if 3 \<le> n \<and> ws_len (drop (n - 3) s) = 3 then 3 else 0)"

lemma ws_tail_le: "ws_tail s \<le> length s"
  by (auto simp: ws_tail_def Let_def)

lemma ws_tail_Nil [simp]: "ws_tail [] = 0"
  by (simp add: ws_tail_def)

function trim_start :: "string \<Rightarrow> string" where
  "trim_start s = (if ws_len s = 0 then s else trim_start (drop (ws_len s) s))"
  by pat_completeness auto
termination
  by (relation "measure length") (auto simp: ws_len_def split: list.splits if_splits)

function trim_end :: "string \<Rightarrow> string" where
  "trim_end s = (if ws_tail s = 0 then s else trim_end (take (length s - ws_tail s) s))"
  by pat_completeness auto
termination
  by (relation "measure length") (auto simp: ws_tail_def Let_def split: if_splits)

declare trim_start.simps [simp del] trim_end.simps [simp del]

definition trim :: "string \<Rightarrow> string" where
  "trim s = trim_end (trim_start s)"

text \<open>\<open>split_whitespace\<close>: the maximal non-empty runs without white space.\<close>

function split_ws :: "string \<Rightarrow> string \<Rightarrow> string list" where
  "split_ws cur s =
     (case s of
        [] \<Rightarrow> (if cur = [] then [] else [cur])
      | c # r \<Rightarrow>
          if ws_len s = 0 then split_ws (cur @ [c]) r
          else (if cur = [] then [] else [cur]) @ split_ws [] (drop (ws_len s) s))"
  by pat_completeness auto
termination
  by (relation "measure (\<lambda>(cur, s). length s)") auto

declare split_ws.simps [simp del]

definition split_whitespace :: "string \<Rightarrow> string list" where
  "split_whitespace s = split_ws [] s"

lemma trim_start_id: "ws_len s = 0 \<Longrightarrow> trim_start s = s"
  by (simp add: trim_start.simps)

lemma trim_end_id: "ws_tail s = 0 \<Longrightarrow> trim_end s = s"
  by (simp add: trim_end.simps)

lemma trim_start_suffix: "suffix (trim_start s) s"
proof (induction s rule: trim_start.induct)
  case (1 s)
  show ?case
  proof (cases "ws_len s = 0")
    case True
    then show ?thesis by (simp add: trim_start_id)
  next
    case False
    have "suffix (trim_start (drop (ws_len s) s)) s"
      using 1 [OF False] suffix_drop by (rule suffix_order.trans)
    then show ?thesis
      using False by (simp add: trim_start.simps [of s])
  qed
qed

lemma trim_end_prefix: "prefix (trim_end s) s"
proof (induction s rule: trim_end.induct)
  case (1 s)
  show ?case
  proof (cases "ws_tail s = 0")
    case True
    then show ?thesis by (simp add: trim_end_id)
  next
    case False
    have "prefix (trim_end (take (length s - ws_tail s) s)) s"
      using 1 [OF False] take_is_prefix by (rule prefix_order.trans)
    then show ?thesis
      using False by (simp add: trim_end.simps [of s])
  qed
qed

lemma length_trim: "length (trim s) \<le> length s"
  using trim_start_suffix [of s] trim_end_prefix [of "trim_start s"]
  by (fastforce simp: trim_def dest: suffix_length_le prefix_length_le)

text \<open>A text without white space at its ends is trimmed to itself.\<close>

definition visible :: "char \<Rightarrow> bool" where
  "visible c \<longleftrightarrow> 33 \<le> byte c \<and> byte c \<le> 126"

lemma ws_len_visible: "s = c # r \<Longrightarrow> visible c \<Longrightarrow> ws_len s = 0"
  by (auto simp: ws_len_def visible_def split: list.split)

lemma ws_len_le_visible:
  assumes "s \<noteq> []" "visible (last s)" "length s \<le> 3" shows "ws_len s \<noteq> length s"
proof -
  obtain a where "s = [a] \<or> (\<exists>b. s = [b, a]) \<or> (\<exists>b c. s = [c, b, a])" "visible a"
    using assms by (cases s; cases "tl s"; cases "tl (tl s)") (auto split: if_splits)
  then show ?thesis by (auto simp: ws_len_def visible_def split: if_splits)
qed

lemma ws_tail_visible:
  assumes "s \<noteq> []" "visible (last s)" shows "ws_tail s = 0"
proof -
  have "ws_len (drop (length s - k) s) \<noteq> k" if "1 \<le> k" "k \<le> length s" "k \<le> 3" for k
    using ws_len_le_visible [of "drop (length s - k) s"] assms that by (simp add: last_drop)
  then show ?thesis
    by (simp add: ws_tail_def Let_def)
qed

lemma trim_visible: "s \<noteq> [] \<Longrightarrow> visible (hd s) \<Longrightarrow> visible (last s) \<Longrightarrow> trim s = s"
  by (cases s) (simp_all add: trim_def trim_start_id ws_len_visible trim_end_id ws_tail_visible)

text \<open>Words with a space between, as the \<open>Display\<close> loops with \<open>peek\<close> write them.\<close>

fun join_sp :: "string list \<Rightarrow> string" where
  "join_sp [] = []"
| "join_sp [w] = w"
| "join_sp (w # ws) = w @ CHR '' '' # join_sp ws"

section \<open>Decimal numbers\<close>

definition digit_char :: "nat \<Rightarrow> char" where
  "digit_char d = char_of (48 + d)"

definition digit_val :: "char \<Rightarrow> nat" where
  "digit_val c = byte c - 48"

lemma digit_char_props [simp]:
  assumes "d < 10"
  shows "is_ascii_digit (digit_char d)" "digit_val (digit_char d) = d"
    "byte (digit_char d) = 48 + d"
  using assms by (simp_all add: is_ascii_digit_def digit_char_def digit_val_def)

text \<open>\<open>{}\<close> on an unsigned number.\<close>

fun show_nat :: "nat \<Rightarrow> string" where
  "show_nat n = (if n < 10 then [digit_char n] else show_nat (n div 10) @ [digit_char (n mod 10)])"

declare show_nat.simps [simp del]

definition show_int :: "int \<Rightarrow> string" where
  "show_int i = (if i < 0 then CHR ''-'' # show_nat (nat (- i)) else show_nat (nat i))"

definition digits_val :: "string \<Rightarrow> nat" where
  "digits_val s = foldl (\<lambda>acc c. acc * 10 + digit_val c) 0 s"

text \<open>Non-empty and all digits.\<close>

definition all_digits :: "string \<Rightarrow> bool" where
  "all_digits s \<longleftrightarrow> s \<noteq> [] \<and> list_all is_ascii_digit s"

text \<open>\<open>uN::from_str\<close> with largest value \<open>hi\<close>: an optional \<open>+\<close>, then digits, no overflow.\<close>

definition parse_unsigned :: "nat \<Rightarrow> string \<Rightarrow> nat option" where
  "parse_unsigned hi s =
     (let ds = (case s of [] \<Rightarrow> [] | c # r \<Rightarrow> if c = CHR ''+'' then r else s) in
      if all_digits ds \<and> digits_val ds \<le> hi then Some (digits_val ds) else None)"

abbreviation i64_min :: int where
  "i64_min \<equiv> - 9223372036854775808"

abbreviation i64_max :: int where
  "i64_max \<equiv> 9223372036854775807"

text \<open>\<open>i64::from_str\<close>.\<close>

definition parse_i64 :: "string \<Rightarrow> int option" where
  "parse_i64 s =
     (let (neg, ds) =
        (case s of [] \<Rightarrow> (False, [])
         | c # r \<Rightarrow> if c = CHR ''-'' then (True, r) else if c = CHR ''+'' then (False, r)
                    else (False, s));
        v = (if neg then - int (digits_val ds) else int (digits_val ds)) in
      if all_digits ds \<and> i64_min \<le> v \<and> v \<le> i64_max then Some v else None)"

lemma digits_val_append_digit: "digits_val (s @ [c]) = digits_val s * 10 + digit_val c"
  by (simp add: digits_val_def)

lemma show_nat_digits: "all_digits (show_nat n)"
proof (induction n rule: show_nat.induct)
  case (1 n)
  then show ?case
    by (subst show_nat.simps) (simp add: all_digits_def)
qed

lemma digits_val_show_nat [simp]: "digits_val (show_nat n) = n"
proof (induction n rule: show_nat.induct)
  case (1 n)
  show ?case
  proof (cases "n < 10")
    case True
    then show ?thesis by (simp add: show_nat.simps digits_val_def)
  next
    case False
    then show ?thesis
      using 1 by (subst show_nat.simps) (simp add: digits_val_append_digit)
  qed
qed

lemma show_nat_hd_digit: "\<exists>c r. show_nat n = c # r \<and> is_ascii_digit c"
  using show_nat_digits [of n] by (cases "show_nat n") (auto simp: all_digits_def)

lemma digit_not_sign: "is_ascii_digit c \<Longrightarrow> c \<noteq> CHR ''+'' \<and> c \<noteq> CHR ''-''"
  by (auto simp: is_ascii_digit_def)

lemma parse_unsigned_digit_head:
  assumes "is_ascii_digit c"
  shows "parse_unsigned hi (c # r) =
    (if all_digits (c # r) \<and> digits_val (c # r) \<le> hi then Some (digits_val (c # r)) else None)"
  using digit_not_sign [OF assms] by (simp add: parse_unsigned_def Let_def)

lemma parse_unsigned_show_nat: "n \<le> hi \<Longrightarrow> parse_unsigned hi (show_nat n) = Some n"
  using show_nat_hd_digit [of n] parse_unsigned_digit_head show_nat_digits [of n]
  by (metis digits_val_show_nat)

lemma parse_unsigned_bound: "parse_unsigned hi s = Some n \<Longrightarrow> n \<le> hi"
  by (auto simp: parse_unsigned_def Let_def split: if_splits)

lemma parse_i64_range: "parse_i64 s = Some v \<Longrightarrow> i64_min \<le> v \<and> v \<le> i64_max"
  by (auto simp: parse_i64_def Let_def split: if_splits prod.splits)

lemma parse_i64_digit_head:
  assumes "is_ascii_digit c"
  shows "parse_i64 (c # r) =
    (if all_digits (c # r) \<and> int (digits_val (c # r)) \<le> i64_max
     then Some (int (digits_val (c # r))) else None)"
  using digit_not_sign [OF assms] by (simp add: parse_i64_def Let_def)

lemma parse_i64_show_int:
  assumes "i64_min \<le> i" "i \<le> i64_max"
  shows "parse_i64 (show_int i) = Some i"
proof (cases "i < 0")
  case True
  then show ?thesis
    using assms show_nat_digits by (simp add: show_int_def parse_i64_def)
next
  case False
  obtain c r where cr: "show_nat (nat i) = c # r" "is_ascii_digit c"
    using show_nat_hd_digit by blast
  then show ?thesis
    using False assms parse_i64_digit_head [of c r] show_nat_digits [of "nat i"]
      digits_val_show_nat [of "nat i"]
    by (simp add: show_int_def)
qed

text \<open>Printed numbers have no leading zero.\<close>

lemma show_nat_leading:
  "\<exists>c r. show_nat n = c # r \<and> list_all is_ascii_digit (c # r) \<and> (c = CHR ''0'' \<longrightarrow> r = [])"
proof (induction n rule: show_nat.induct)
  case (1 n)
  show ?case
  proof (cases "n < 10")
    case True
    then show ?thesis by (simp add: show_nat.simps)
  next
    case False
    then obtain c r where cr: "show_nat (n div 10) = c # r" "list_all is_ascii_digit (c # r)"
      "c = CHR ''0'' \<longrightarrow> r = []"
      using 1 by blast
    have "c \<noteq> CHR ''0''"
    proof
      assume "c = CHR ''0''"
      then have "show_nat (n div 10) = ''0''" using cr by simp
      then have "n div 10 = 0" using digits_val_show_nat [of "n div 10"] by (simp add: digits_val_def digit_val_def)
      then show False using False by simp
    qed
    then show ?thesis
      using cr False show_nat.simps [of n] by simp
  qed
qed

end
