(* ===== verification/Errors.thy ===== *)
theory Errors
  imports Prelude
begin

text \<open>
  The error types of \<open>nut_webgui_upsmc/src/error.rs\<close> and the source position of
  \<open>internal/lexer.rs\<close>. A Rust panic is not an error value of the source, so the model adds it:
  a fallible function of the client library returns \<open>fault + 'a\<close>, where a \<open>fault\<close> is either
  the crate's \<open>Error\<close> or the panic of the thread.
\<close>

datatype cmd_parse_error = CmdEmpty | CmdInvalidName

datatype var_name_parse_error = VarNameEmpty | VarNameInvalidName

datatype ups_name_parse_error = UpsNameEmpty | UpsNameInvalidName

datatype var_type_parse_error = VarTypeEmpty | InvalidType

datatype number_parse_error = NumberParseError

datatype parse_error =
    PE_CmdName cmd_parse_error
  | ExpectedDoubleQuote
  | InvalidToken
  | InvalidIpAddr
  | ExpectedTextToken
  | ExpectedUpsToken
  | ExpectedVarToken
  | ExpectedCmdToken
  | ExpectedDoubleQuotedTextToken
  | InvalidNumber
  | PE_UpsName ups_name_parse_error
  | PE_VarName var_name_parse_error
  | PE_VarType var_type_parse_error

datatype protocol_error =
    Unknown string
  | AccessDenied
  | AlreadyAttached
  | AlreadySetPassword
  | AlreadySetUsername
  | CmdNotSupported
  | DateStale
  | DriverNotConnected
  | FeatureNotConfigured
  | FeatureNotSupported
  | InstcmdFailed
  | InvalidArgument
  | InvalidPassword
  | InvalidUsername
  | InvalidValue
  | PasswordRequired
  | Readonly
  | SetFailed
  | TlsAlreadyEnabled
  | TlsNotEnabled
  | TooLong
  | UnknownCommand
  | UnknownUps
  | UsernameRequired
  | VarNotSupported

text \<open>\<open>Position\<close> of the lexer: line and column.\<close>

record position =
  pos_line :: nat
  pos_col :: nat

text \<open>\<open>std::io::ErrorKind\<close> is kept as its description.\<close>

datatype error_kind =
    IOError string
  | ParseError parse_error position
  | ProtocolError protocol_error
  | ConnectionPoolClosed
  | EmptyResponse
  | RequestTimeout

datatype fault = Err error_kind | Panic

fun protocol_error_as_str :: "protocol_error \<Rightarrow> string" where
  "protocol_error_as_str (Unknown v) = v"
| "protocol_error_as_str AccessDenied = ''ACCESS-DENIED''"
| "protocol_error_as_str AlreadyAttached = ''ALREADY-ATTACHED''"
| "protocol_error_as_str AlreadySetPassword = ''ALREADY-SET-PASSWORD''"
| "protocol_error_as_str AlreadySetUsername = ''ALREADY-SET-USERNAME''"
| "protocol_error_as_str CmdNotSupported = ''CMD-NOT-SUPPORTED''"
| "protocol_error_as_str DateStale = ''DATA-STALE''"
| "protocol_error_as_str DriverNotConnected = ''DRIVER-NOT-CONNECTED''"
| "protocol_error_as_str FeatureNotConfigured = ''FEATURE-NOT-CONFIGURED''"
| "protocol_error_as_str FeatureNotSupported = ''FEATURE-NOT-SUPPORTED''"
| "protocol_error_as_str InstcmdFailed = ''INSTCMD-FAILED''"
| "protocol_error_as_str InvalidArgument = ''INVALID-ARGUMENT''"
| "protocol_error_as_str InvalidPassword = ''INVALID-PASSWORD''"
| "protocol_error_as_str InvalidUsername = ''INVALID-USERNAME''"
| "protocol_error_as_str InvalidValue = ''INVALID-VALUE''"
| "protocol_error_as_str PasswordRequired = ''PASSWORD-REQUIRED''"
| "protocol_error_as_str Readonly = ''READONLY''"
| "protocol_error_as_str SetFailed = ''SET-FAILED''"
| "protocol_error_as_str TlsAlreadyEnabled = ''TLS-ALREADY-ENABLED''"
| "protocol_error_as_str TlsNotEnabled = ''TLS-NOT-ENABLED''"
| "protocol_error_as_str TooLong = ''TOO-LONG''"
| "protocol_error_as_str UnknownCommand = ''UNKNOWN-COMMAND''"
| "protocol_error_as_str UnknownUps = ''UNKNOWN-UPS''"
| "protocol_error_as_str UsernameRequired = ''USERNAME-REQUIRED''"
| "protocol_error_as_str VarNotSupported = ''VAR-NOT-SUPPORTED''"

definition protocol_error_from :: "string \<Rightarrow> protocol_error" where
  "protocol_error_from v =
     (if v = ''ACCESS-DENIED'' then AccessDenied
      else if v = ''ALREADY-ATTACHED'' then AlreadyAttached
      else if v = ''ALREADY-SET-PASSWORD'' then AlreadySetPassword
      else if v = ''ALREADY-SET-USERNAME'' then AlreadySetUsername
      else if v = ''CMD-NOT-SUPPORTED'' then CmdNotSupported
      else if v = ''DATA-STALE'' then DateStale
      else if v = ''DRIVER-NOT-CONNECTED'' then DriverNotConnected
      else if v = ''FEATURE-NOT-CONFIGURED'' then FeatureNotConfigured
      else if v = ''FEATURE-NOT-SUPPORTED'' then FeatureNotSupported
      else if v = ''INSTCMD-FAILED'' then InstcmdFailed
      else if v = ''INVALID-ARGUMENT'' then InvalidArgument
      else if v = ''INVALID-PASSWORD'' then InvalidPassword
      else if v = ''INVALID-USERNAME'' then InvalidUsername
      else if v = ''INVALID-VALUE'' then InvalidValue
      else if v = ''PASSWORD-REQUIRED'' then PasswordRequired
      else if v = ''READONLY'' then Readonly
      else if v = ''SET-FAILED'' then SetFailed
      else if v = ''TLS-ALREADY-ENABLED'' then TlsAlreadyEnabled
      else if v = ''TLS-NOT-ENABLED'' then TlsNotEnabled
      else if v = ''TOO-LONG'' then TooLong
      else if v = ''UNKNOWN-COMMAND'' then UnknownCommand
      else if v = ''UNKNOWN-UPS'' then UnknownUps
      else if v = ''USERNAME-REQUIRED'' then UsernameRequired
      else if v = ''VAR-NOT-SUPPORTED'' then VarNotSupported
      else Unknown v)"

fun cmd_parse_error_fmt :: "cmd_parse_error \<Rightarrow> string" where
  "cmd_parse_error_fmt CmdEmpty = ''empty string received''"
| "cmd_parse_error_fmt CmdInvalidName = ''invalid command name''"

fun var_name_parse_error_fmt :: "var_name_parse_error \<Rightarrow> string" where
  "var_name_parse_error_fmt VarNameEmpty = ''empty string received''"
| "var_name_parse_error_fmt VarNameInvalidName = ''invalid variable name''"

fun ups_name_parse_error_fmt :: "ups_name_parse_error \<Rightarrow> string" where
  "ups_name_parse_error_fmt UpsNameEmpty = ''empty string received''"
| "ups_name_parse_error_fmt UpsNameInvalidName = ''invalid UPS name''"

fun var_type_parse_error_fmt :: "var_type_parse_error \<Rightarrow> string" where
  "var_type_parse_error_fmt VarTypeEmpty = ''empty string received''"
| "var_type_parse_error_fmt InvalidType = ''invalid type''"

fun parse_error_fmt :: "parse_error \<Rightarrow> string" where
  "parse_error_fmt (PE_CmdName e) = cmd_parse_error_fmt e"
| "parse_error_fmt ExpectedCmdToken = ''expected command token''"
| "parse_error_fmt ExpectedDoubleQuote = ''expected double quote character''"
| "parse_error_fmt ExpectedDoubleQuotedTextToken = ''expected double quoted text token''"
| "parse_error_fmt ExpectedTextToken = ''expected text token''"
| "parse_error_fmt ExpectedUpsToken = ''expected ups token''"
| "parse_error_fmt ExpectedVarToken = ''expected var token''"
| "parse_error_fmt InvalidIpAddr = ''invalid ipv4 or ipv6 text''"
| "parse_error_fmt InvalidToken = ''invalid token''"
| "parse_error_fmt InvalidNumber = ''invalid number value token''"
| "parse_error_fmt (PE_UpsName e) = ups_name_parse_error_fmt e"
| "parse_error_fmt (PE_VarName e) = var_name_parse_error_fmt e"
| "parse_error_fmt (PE_VarType e) = var_type_parse_error_fmt e"

fun error_fmt :: "error_kind \<Rightarrow> string" where
  "error_fmt RequestTimeout = ''request timeout''"
| "error_fmt EmptyResponse = ''empty response received''"
| "error_fmt ConnectionPoolClosed =
     ''new connection request received but connection pool is already closed''"
| "error_fmt (IOError kind) = ''io error occured. kind='' @ kind"
| "error_fmt (ParseError inner p) =
     parse_error_fmt inner @ '' at '' @ show_nat (pos_line p) @ '':'' @ show_nat (pos_col p)"
| "error_fmt (ProtocolError inner) =
     ''nut server responded with an error message. error='' @ protocol_error_as_str inner"

section \<open>Protocol error words\<close>

lemma protocol_error_as_str_from: "protocol_error_as_str (protocol_error_from v) = v"
  by (simp add: protocol_error_from_def)

lemma protocol_error_from_as_str:
  "(\<And>v. e \<noteq> Unknown v) \<Longrightarrow> protocol_error_from (protocol_error_as_str e) = e"
  by (cases e) (simp_all add: protocol_error_from_def)

end
