(* ===== verification/Escape.thy ===== *)
theory Escape
  imports Prelude
begin

text \<open>
  \<open>internal/escape.rs\<close>: \<open>escape_nut_str\<close> copies the text in slices and puts a backslash before
  every double quote and backslash. The model keeps the loop with its two cursors; a slice off a
  char boundary would panic, and \<open>None\<close> stands for that. The reference is \<open>escape_ref\<close>, one byte
  at a time.
\<close>

text \<open>\<open>Cow<'_, str>\<close>.\<close>

datatype cow = Borrowed string | Owned string

fun cow_str :: "cow \<Rightarrow> string" where
  "cow_str (Borrowed s) = s"
| "cow_str (Owned s) = s"

definition needs_escape :: "char \<Rightarrow> bool" where
  "needs_escape c \<longleftrightarrow> c = DQ \<or> c = BS"

text \<open>\<open>if a < b { acc.push_str(&text[a..b]) }\<close>\<close>

definition push_slice :: "string \<Rightarrow> string \<Rightarrow> nat \<Rightarrow> nat \<Rightarrow> string option" where
  "push_slice acc text a b =
     (if a < b then map_option (\<lambda>t. acc @ t) (str_slice text a b) else Some acc)"

fun escape_loop :: "string \<Rightarrow> nat \<Rightarrow> string \<Rightarrow> string \<Rightarrow> nat \<Rightarrow> (string \<times> nat) option" where
  "escape_loop text idx [] escaped slice_start = Some (escaped, slice_start)"
| "escape_loop text idx (char_byte # rest) escaped slice_start =
     (if needs_escape char_byte then
        (case push_slice escaped text slice_start idx of
           None \<Rightarrow> None
         | Some acc \<Rightarrow> escape_loop text (Suc idx) rest (acc @ [BS, char_byte]) (Suc idx))
      else escape_loop text (Suc idx) rest escaped slice_start)"

definition escape_nut_str :: "string \<Rightarrow> cow option" where
  "escape_nut_str text =
     (case escape_loop text 0 text [] 0 of
        None \<Rightarrow> None
      | Some (escaped, slice_start) \<Rightarrow>
          if escaped = [] then Some (Borrowed text)
          else map_option Owned (push_slice escaped text slice_start (length text)))"

definition escape_ref :: "string \<Rightarrow> string" where
  "escape_ref s = concat (map (\<lambda>c. if needs_escape c then [BS, c] else [c]) s)"

section \<open>Boundaries\<close>

lemma escape_ref_Nil [simp]: "escape_ref [] = []"
  by (simp add: escape_ref_def)

lemma escape_ref_Cons [simp]:
  "escape_ref (c # s) = (if needs_escape c then [BS, c] else [c]) @ escape_ref s"
  by (simp add: escape_ref_def)

lemma escape_ref_append [simp]: "escape_ref (s @ t) = escape_ref s @ escape_ref t"
  by (simp add: escape_ref_def)

lemma escape_ref_id: "\<not> list_ex needs_escape s \<Longrightarrow> escape_ref s = s"
  by (induction s) auto

lemma needs_escape_ascii: "needs_escape c \<Longrightarrow> byte c < 128"
  by (auto simp: needs_escape_def)

lemma boundary_0 [simp]: "is_char_boundary s 0"
  by (simp add: is_char_boundary_def)

lemma boundary_length [simp]: "is_char_boundary s (length s)"
  by (simp add: is_char_boundary_def)

lemma boundary_ascii: "byte c < 128 \<Longrightarrow> is_char_boundary (a @ c # b) (length a)"
  by (simp add: is_char_boundary_def)

lemma no_orphan_after_ascii: "no_orphan p (a @ c # d # b) \<Longrightarrow> byte c < 128 \<Longrightarrow> \<not> is_cont d"
  by (induction a arbitrary: p) auto

lemma boundary_after_ascii:
  assumes "no_orphan p (a @ c # b)" and "byte c < 128"
  shows "is_char_boundary (a @ c # b) (Suc (length a))"
  using assms no_orphan_after_ascii [of p a c]
  by (cases b) (auto simp: is_char_boundary_def nth_append)

lemma push_slice_ok:
  assumes "is_char_boundary text a" "is_char_boundary text b" "a \<le> b" "b \<le> length text"
  shows "push_slice acc text a b = Some (acc @ drop a (take b text))"
  using assms by (auto simp: push_slice_def str_slice_def drop_take)

section \<open>The loop computes the reference\<close>

lemma escape_loop_ok:
  assumes "no_orphan True (pre @ rest)" and "slice_start \<le> length pre"
    and "is_char_boundary (pre @ rest) slice_start"
    and "escaped @ drop slice_start pre = escape_ref pre"
  shows "\<exists>escaped' slice_start'.
     escape_loop (pre @ rest) (length pre) rest escaped slice_start = Some (escaped', slice_start')
     \<and> slice_start' \<le> length (pre @ rest) \<and> is_char_boundary (pre @ rest) slice_start'
     \<and> escaped' @ drop slice_start' (pre @ rest) = escape_ref (pre @ rest)
     \<and> (escaped' = [] \<longleftrightarrow> escaped = [] \<and> \<not> list_ex needs_escape rest)"
  using assms
proof (induction rest arbitrary: pre escaped slice_start)
  case Nil
  then show ?case by simp
next
  case (Cons c rest)
  let ?text = "pre @ c # rest"
  show ?case
  proof (cases "needs_escape c")
    case True
    have ps: "push_slice escaped ?text slice_start (length pre) = Some (escape_ref pre)"
      using push_slice_ok [OF Cons.prems(3) boundary_ascii [OF needs_escape_ascii [OF True]]]
        Cons.prems(2,4) by simp
    have bd: "is_char_boundary ?text (Suc (length pre))"
      using Cons.prems(1) needs_escape_ascii [OF True] by (rule boundary_after_ascii)
    show ?thesis
      using Cons.IH [of "pre @ [c]" "Suc (length pre)" "escape_ref pre @ [BS, c]"] Cons.prems(1) True ps bd
      by auto
  next
    case False
    then have "escaped @ drop slice_start (pre @ [c]) = escape_ref (pre @ [c])"
      using Cons.prems(2,4) by simp
    then show ?thesis
      using Cons.IH [of "pre @ [c]" slice_start escaped] Cons.prems(1,2,3) False by simp
  qed
qed

lemma escape_nut_str_eq:
  assumes "utf8_valid text"
  shows "escape_nut_str text =
    Some (if list_ex needs_escape text then Owned (escape_ref text) else Borrowed text)"
proof -
  obtain escaped slice_start where e:
    "escape_loop text 0 text [] 0 = Some (escaped, slice_start)"
    "slice_start \<le> length text" "is_char_boundary text slice_start"
    "escaped @ drop slice_start text = escape_ref text"
    "escaped = [] \<longleftrightarrow> \<not> list_ex needs_escape text"
    using escape_loop_ok [of "[]" "text" 0 "[]"] utf8_valid_no_orphan [OF assms] by auto
  have "push_slice escaped text slice_start (length text) = Some (escape_ref text)"
    using push_slice_ok [OF e(3) boundary_length e(2) order.refl] e(4) by simp
  then show ?thesis
    using e by (auto simp: escape_nut_str_def)
qed

lemma escape_nut_str_valid:
  "utf8_valid text \<Longrightarrow> map_option cow_str (escape_nut_str text) = Some (escape_ref text)"
  by (simp add: escape_nut_str_eq escape_ref_id)

text \<open>C40: The escaping loop never panics on a Rust string and computes the reference: the text
  itself, borrowed, when nothing needs a backslash, and otherwise an owned text in which every
  double quote and backslash is preceded by a backslash.\<close>

theorem escape_nut_str_correct:
  assumes "utf8_valid text"
  shows "escape_nut_str text =
    Some (if list_ex needs_escape text then Owned (escape_ref text) else Borrowed text)"
  using assms by (rule escape_nut_str_eq)

theorem escape_nut_str_correct_witness:
  "escape_nut_str ''a'' = Some (Borrowed ''a'') \<and>
   escape_nut_str [DQ, CHR ''x'', BS] = Some (Owned [BS, DQ, CHR ''x'', BS, BS])"
  using escape_nut_str_correct [of "''a''"] escape_nut_str_correct [of "[DQ, CHR ''x'', BS]"]
  by (simp add: needs_escape_def)

lemma set_escape_ref: "c \<in> set (escape_ref s) \<Longrightarrow> c = BS \<or> c \<in> set s"
  by (induction s) (auto split: if_splits)

lemma escape_ref_Nil_iff [simp]: "escape_ref s = [] \<longleftrightarrow> s = []"
  by (cases s) auto

end
