(* ===== verification/Lexer.thy ===== *)
theory Lexer
  imports Errors Escape
begin

text \<open>
  \<open>internal/lexer.rs\<close>: the tokenizer of upsd responses. The state is the buffer with a read head
  and a position; every operation passes it explicitly. Where the source slices the buffer past
  its end or off a char boundary it panics, and the model returns \<open>Panic\<close>. A failed operation
  does not return the mutated lexer: every caller in the crate propagates the error and drops
  the lexer, and \<open>peek\<close> works on a copy.

  The cursors are \<open>usize\<close> in the source, advanced by \<open>saturating_add_signed\<close>; they are \<open>nat\<close>
  here, and \<open>next_token_bounds\<close> below shows they stay within the buffer, so the saturation is
  never reached.
\<close>

section \<open>State and tokens\<close>

datatype token = Tok_QuotedText nat nat | Tok_LF | Tok_Text nat nat

datatype token_kind = K_QuotedText | K_LF | K_Text

fun token_kind_of :: "token \<Rightarrow> token_kind" where
  "token_kind_of (Tok_QuotedText _ _) = K_QuotedText"
| "token_kind_of Tok_LF = K_LF"
| "token_kind_of (Tok_Text _ _) = K_Text"

fun token_kind_as_str :: "token_kind \<Rightarrow> string" where
  "token_kind_as_str K_QuotedText = ''double-quoted text node''"
| "token_kind_as_str K_LF = ''line feed node''"
| "token_kind_as_str K_Text = ''text node''"

record lexer =
  lx_buffer :: string
  read_head :: nat
  lx_pos :: position

definition lexer_new :: "string \<Rightarrow> lexer" where
  "lexer_new buffer =
     \<lparr>lx_buffer = buffer, read_head = 0, lx_pos = \<lparr>pos_line = 1, pos_col = 1\<rparr>\<rparr>"

definition move_read_head :: "nat \<Rightarrow> lexer \<Rightarrow> lexer" where
  "move_read_head by_n lx =
     lx\<lparr>read_head := read_head lx + by_n,
        lx_pos := (lx_pos lx)\<lparr>pos_col := pos_col (lx_pos lx) + by_n\<rparr>\<rparr>"

text \<open>\<open>&self.buffer.as_bytes()[self.state.read_head..]\<close>\<close>

definition bytes_from :: "lexer \<Rightarrow> fault + string" where
  "bytes_from lx =
     (if read_head lx \<le> length (lx_buffer lx) then Inr (drop (read_head lx) (lx_buffer lx))
      else Inl Panic)"

definition slice_or_panic :: "string \<Rightarrow> nat \<Rightarrow> nat \<Rightarrow> fault + string" where
  "slice_or_panic s a b = (case str_slice s a b of Some t \<Rightarrow> Inr t | None \<Rightarrow> Inl Panic)"

section \<open>Reading tokens\<close>

fun read_text_loop :: "string \<Rightarrow> lexer \<Rightarrow> nat \<Rightarrow> nat \<times> lexer" where
  "read_text_loop [] lx end_ix = (end_ix, lx)"
| "read_text_loop (char_byte # rest) lx end_ix =
     (if is_ascii_whitespace char_byte then (end_ix, lx)
      else (let lx' = move_read_head 1 lx in read_text_loop rest lx' (read_head lx')))"

definition read_text :: "lexer \<Rightarrow> fault + ((nat \<times> nat) \<times> lexer)" where
  "read_text lx =
     bind_res (bytes_from lx) (\<lambda>buffer.
       let start = read_head lx; (end_ix, lx') = read_text_loop buffer lx start
       in Inr ((start, end_ix), lx'))"

function read_quoted_loop :: "string \<Rightarrow> lexer \<Rightarrow> fault + (nat \<times> lexer)" where
  "read_quoted_loop buffer lx =
     (case buffer of
        [] \<Rightarrow> Inl (Err (ParseError ExpectedDoubleQuote (lx_pos lx)))
      | c # rest \<Rightarrow>
          if c = BS then read_quoted_loop (drop 1 rest) (move_read_head 2 lx)
          else if c = DQ then Inr (read_head lx, lx)
          else read_quoted_loop rest (move_read_head 1 lx))"
  by pat_completeness auto
termination
  by (relation "measure (\<lambda>(buffer, lx). length buffer)") auto

declare read_quoted_loop.simps [simp del]

definition read_quoted_text :: "lexer \<Rightarrow> fault + ((nat \<times> nat) \<times> lexer)" where
  "read_quoted_text lx =
     bind_res (bytes_from lx) (\<lambda>buffer.
       bind_res (read_quoted_loop buffer lx) (\<lambda>(end_ix, lx').
         Inr ((read_head lx, end_ix), lx')))"

fun skip_whitespaces_loop :: "string \<Rightarrow> lexer \<Rightarrow> lexer" where
  "skip_whitespaces_loop [] lx = lx"
| "skip_whitespaces_loop (char_byte # rest) lx =
     (if char_byte = LF then
        skip_whitespaces_loop rest
          (lx\<lparr>read_head := read_head lx + 1,
              lx_pos := \<lparr>pos_line = pos_line (lx_pos lx) + 1, pos_col = 1\<rparr>\<rparr>)
      else if is_ascii_whitespace char_byte then skip_whitespaces_loop rest (move_read_head 1 lx)
      else lx)"

definition skip_whitespaces :: "lexer \<Rightarrow> fault + lexer" where
  "skip_whitespaces lx =
     bind_res (bytes_from lx) (\<lambda>buffer. Inr (skip_whitespaces_loop buffer lx))"

fun next_token_loop :: "string \<Rightarrow> lexer \<Rightarrow> fault + (token option \<times> lexer)" where
  "next_token_loop [] lx = Inr (None, lx)"
| "next_token_loop (char_byte # rest) lx =
     (if char_byte = LF then
        Inr (Some Tok_LF,
             lx\<lparr>read_head := read_head lx + 1,
                lx_pos := \<lparr>pos_line = pos_line (lx_pos lx) + 1, pos_col = 0\<rparr>\<rparr>)
      else if is_ascii_whitespace char_byte then next_token_loop rest (move_read_head 1 lx)
      else if char_byte = DQ then
        bind_res (read_quoted_text (move_read_head 1 lx)) (\<lambda>((start, end_ix), lx').
          Inr (Some (Tok_QuotedText start end_ix), move_read_head 1 lx'))
      else
        bind_res (read_text lx) (\<lambda>((start, end_ix), lx').
          Inr (Some (Tok_Text start end_ix), lx')))"

definition next_token :: "lexer \<Rightarrow> fault + (token option \<times> lexer)" where
  "next_token lx = bind_res (bytes_from lx) (\<lambda>buffer. next_token_loop buffer lx)"

section \<open>Token texts\<close>

text \<open>\<open>String::push(char::from(b))\<close>: the code point of the byte, encoded in UTF-8.\<close>

definition push_char_from :: "char \<Rightarrow> string" where
  "push_char_from c =
     (if byte c < 128 then [c] else [char_of (192 + byte c div 64), char_of (128 + byte c mod 64)])"

function unescape_loop :: "string \<Rightarrow> nat \<Rightarrow> string \<Rightarrow> string \<Rightarrow> nat \<Rightarrow> (string \<times> nat) option" where
  "unescape_loop text idx rest escaped slice_start =
     (case rest of
        [] \<Rightarrow> Some (escaped, slice_start)
      | character # rest' \<Rightarrow>
          if character = BS then
            (case push_slice escaped text slice_start idx of
               None \<Rightarrow> None
             | Some acc \<Rightarrow>
                 (case rest' of
                    [] \<Rightarrow> Some (acc, slice_start)
                  | c # rest'' \<Rightarrow>
                      unescape_loop text (idx + 2) rest'' (acc @ push_char_from c) (idx + 2)))
          else unescape_loop text (idx + 1) rest' escaped slice_start)"
  by pat_completeness auto
termination
  by (relation "measure (\<lambda>(t, i, rest, e, s). length rest)") auto

declare unescape_loop.simps [simp del]

definition unescape :: "string \<Rightarrow> string option" where
  "unescape text =
     (case unescape_loop text 0 text [] 0 of
        None \<Rightarrow> None
      | Some (escaped, slice_start) \<Rightarrow>
          if escaped = [] then Some text
          else push_slice escaped text slice_start (length text))"

fun extract_from_token :: "lexer \<Rightarrow> token \<Rightarrow> fault + string" where
  "extract_from_token lx Tok_LF = Inr [LF]"
| "extract_from_token lx (Tok_Text start end_ix) = slice_or_panic (lx_buffer lx) start end_ix"
| "extract_from_token lx (Tok_QuotedText start end_ix) =
     bind_res (slice_or_panic (lx_buffer lx) start end_ix) (\<lambda>text.
       case unescape text of Some t \<Rightarrow> Inr t | None \<Rightarrow> Inl Panic)"

section \<open>Looking ahead\<close>

text \<open>\<open>next_token().unwrap_or_default()\<close> on a copy: an error reads as \<open>None\<close>.\<close>

definition peek :: "lexer \<Rightarrow> fault + token option" where
  "peek lx =
     (case next_token lx of
        Inr (t, _) \<Rightarrow> Inr t
      | Inl (Err _) \<Rightarrow> Inr None
      | Inl Panic \<Rightarrow> Inl Panic)"

definition peek_as_str :: "lexer \<Rightarrow> fault + string option" where
  "peek_as_str lx =
     bind_res (peek lx) (\<lambda>t.
       case t of
         Some Tok_LF \<Rightarrow> Inr (Some [LF])
       | Some (Tok_Text start end_ix) \<Rightarrow>
           bind_res (slice_or_panic (lx_buffer lx) start end_ix) (\<lambda>s. Inr (Some s))
       | Some (Tok_QuotedText start end_ix) \<Rightarrow>
           bind_res (slice_or_panic (lx_buffer lx) start end_ix) (\<lambda>s. Inr (Some s))
       | None \<Rightarrow> Inr None)"

definition is_finished :: "lexer \<Rightarrow> fault + bool" where
  "is_finished lx = bind_res (peek lx) (\<lambda>t. Inr (t = None))"

section \<open>Bounds: reading advances the head and stays in the buffer\<close>

lemma move_read_head_simps [simp]:
  "lx_buffer (move_read_head n lx) = lx_buffer lx"
  "read_head (move_read_head n lx) = read_head lx + n"
  by (simp_all add: move_read_head_def)

lemma move_read_head_add [simp]: "move_read_head m (move_read_head n lx) = move_read_head (n + m) lx"
  by (simp add: move_read_head_def)

lemma bytes_from_Inr:
  "bytes_from lx = Inr bs \<longleftrightarrow> read_head lx \<le> length (lx_buffer lx) \<and> bs = drop (read_head lx) (lx_buffer lx)"
  by (auto simp: bytes_from_def)

lemma read_text_loop_eq:
  "read_text_loop bs lx (read_head lx) =
     (read_head lx + length (takeWhile (\<lambda>c. \<not> is_ascii_whitespace c) bs),
      move_read_head (length (takeWhile (\<lambda>c. \<not> is_ascii_whitespace c) bs)) lx)"
proof (induction bs arbitrary: lx)
  case (Cons c bs)
  show ?case
    using Cons.IH [of "move_read_head 1 lx"] by (simp add: Let_def move_read_head_def)
qed (simp add: move_read_head_def)

lemma read_quoted_loop_simps [simp]:
  "read_quoted_loop [] lx = Inl (Err (ParseError ExpectedDoubleQuote (lx_pos lx)))"
  "read_quoted_loop (BS # rest) lx = read_quoted_loop (drop 1 rest) (move_read_head 2 lx)"
  "read_quoted_loop (DQ # rest) lx = Inr (read_head lx, lx)"
  "c \<noteq> BS \<Longrightarrow> c \<noteq> DQ \<Longrightarrow> read_quoted_loop (c # rest) lx = read_quoted_loop rest (move_read_head 1 lx)"
  by (subst read_quoted_loop.simps, simp)+

lemma read_quoted_loop_bounds:
  "read_quoted_loop bs lx = Inr (e, lx') \<Longrightarrow>
     lx_buffer lx' = lx_buffer lx \<and> read_head lx' = e \<and> read_head lx \<le> e \<and> e < read_head lx + length bs"
proof (induction "length bs" arbitrary: bs lx rule: less_induct)
  case less
  show ?case
  proof (cases bs)
    case Nil
    then show ?thesis using less.prems by simp
  next
    case (Cons c rest)
    consider "c = BS" | "c = DQ" | "c \<noteq> BS" "c \<noteq> DQ" by blast
    then show ?thesis
    proof cases
      case 1
      then have "read_quoted_loop (drop 1 rest) (move_read_head 2 lx) = Inr (e, lx')"
        using less.prems Cons by simp
      from less.hyps [OF _ this] Cons show ?thesis by fastforce
    next
      case 2
      then show ?thesis using less.prems Cons by auto
    next
      case 3
      then have "read_quoted_loop rest (move_read_head 1 lx) = Inr (e, lx')"
        using less.prems Cons by simp
      from less.hyps [OF _ this] Cons show ?thesis by fastforce
    qed
  qed
qed

text \<open>The bytes from the head on, after moving past some of them.\<close>

lemma bytes_from_append:
  assumes "bytes_from lx = Inr (a @ r)" and "lx_buffer lx' = lx_buffer lx"
    and "read_head lx' = read_head lx + length a"
  shows "bytes_from lx' = Inr r"
proof -
  have d: "drop (read_head lx) (lx_buffer lx) = a @ r" "read_head lx \<le> length (lx_buffer lx)"
    using assms(1) by (auto simp: bytes_from_Inr)
  then have "length (lx_buffer lx) - read_head lx = length a + length r"
    by (metis length_append length_drop)
  moreover have "drop (length a) (drop (read_head lx) (lx_buffer lx)) = r"
    using d by simp
  ultimately show ?thesis
    using assms(2,3) d(2) by (simp add: bytes_from_Inr add.commute)
qed

lemma bytes_from_move: "bytes_from lx = Inr (a @ r) \<Longrightarrow> bytes_from (move_read_head (length a) lx) = Inr r"
  by (rule bytes_from_append) simp_all

lemma bytes_from_move1: "bytes_from lx = Inr (c # r) \<Longrightarrow> bytes_from (move_read_head 1 lx) = Inr r"
  using bytes_from_move [of lx "[c]" r] by simp

lemma bytes_from_length:
  "bytes_from lx = Inr bs \<Longrightarrow> read_head lx + length bs = length (lx_buffer lx)"
  by (auto simp: bytes_from_Inr)

text \<open>What a token says about the bytes read: its range, and the head after it.\<close>

fun token_range :: "nat \<Rightarrow> nat \<Rightarrow> token option \<Rightarrow> bool" where
  "token_range h h' None = (h \<le> h')"
| "token_range h h' (Some Tok_LF) = (h < h')"
| "token_range h h' (Some (Tok_Text s e)) = (h \<le> s \<and> s < e \<and> e = h')"
| "token_range h h' (Some (Tok_QuotedText s e)) = (h < s \<and> s \<le> e \<and> h' = e + 1)"

lemma token_range_weaken: "token_range (Suc h) h' t \<Longrightarrow> token_range h h' t"
  by (cases "(h, h', t)" rule: token_range.cases) auto

lemma next_token_loop_bounds:
  "next_token_loop bs lx = Inr (t, lx') \<Longrightarrow> bytes_from lx = Inr bs \<Longrightarrow>
     lx_buffer lx' = lx_buffer lx \<and> read_head lx' \<le> length (lx_buffer lx) \<and>
     token_range (read_head lx) (read_head lx') t"
proof (induction bs lx rule: next_token_loop.induct)
  case (1 lx)
  then show ?case by (auto simp: bytes_from_Inr)
next
  case (2 c rest lx)
  note len = bytes_from_length [OF "2.prems"(2)] and rest = bytes_from_move1 [OF "2.prems"(2)]
  consider (feed) "c = LF" | (ws) "c \<noteq> LF" "is_ascii_whitespace c"
    | (dq) "c = DQ" "\<not> is_ascii_whitespace c" | (word) "\<not> is_ascii_whitespace c" "c \<noteq> DQ"
    by blast
  then show ?case
  proof cases
    case feed
    then show ?thesis using "2.prems"(1) len by auto
  next
    case ws
    then show ?thesis
      using "2.IH" [OF ws _ rest] "2.prems"(1) token_range_weaken by simp
  next
    case dq
    then have "c \<noteq> LF" by (auto simp: is_ascii_whitespace_def)
    then obtain e lx2 where "read_quoted_loop rest (move_read_head 1 lx) = Inr (e, lx2)"
      "t = Some (Tok_QuotedText (read_head lx + 1) e)" "lx' = move_read_head 1 lx2"
      using "2.prems"(1) dq rest by (auto simp: read_quoted_text_def bind_res_eq_Inr)
    then show ?thesis
      using read_quoted_loop_bounds [of rest "move_read_head 1 lx" e lx2] len by auto
  next
    case word
    then have "c \<noteq> LF" by (auto simp: is_ascii_whitespace_def)
    then show ?thesis
      using "2.prems" word len length_takeWhile_le [of "\<lambda>c. \<not> is_ascii_whitespace c" rest]
      by (auto simp: read_text_def read_text_loop_eq Let_def)
  qed
qed

lemma next_token_bounds:
  "next_token lx = Inr (t, lx') \<Longrightarrow>
     lx_buffer lx' = lx_buffer lx \<and> read_head lx' \<le> length (lx_buffer lx) \<and>
     token_range (read_head lx) (read_head lx') t"
  by (auto simp: next_token_def bind_res_eq_Inr dest: next_token_loop_bounds)

section \<open>Which token a text starts with\<close>

lemma ws_not_LF_DQ: "is_ascii_whitespace c \<Longrightarrow> c \<noteq> DQ"
  by (auto simp: is_ascii_whitespace_def)

lemma next_token_Nil: "bytes_from lx = Inr [] \<Longrightarrow> next_token lx = Inr (None, lx)"
  by (simp add: next_token_def)

lemma next_token_LF:
  "bytes_from lx = Inr (LF # r) \<Longrightarrow> next_token lx = Inr (Some Tok_LF,
     lx\<lparr>read_head := read_head lx + 1,
        lx_pos := \<lparr>pos_line = pos_line (lx_pos lx) + 1, pos_col = 0\<rparr>\<rparr>)"
  by (simp add: next_token_def)

lemma next_token_ws:
  assumes "bytes_from lx = Inr (c # r)" "is_ascii_whitespace c" "c \<noteq> LF"
  shows "next_token lx = next_token (move_read_head 1 lx)"
  using assms bytes_from_move1 [OF assms(1)] by (simp add: next_token_def)

text \<open>A word: not empty, no white space, not starting with a quote or a continuation byte.\<close>

definition is_word :: "string \<Rightarrow> bool" where
  "is_word w \<longleftrightarrow> w \<noteq> [] \<and> \<not> list_ex is_ascii_whitespace w \<and> hd w \<noteq> DQ \<and> \<not> is_cont (hd w)"

text \<open>What may follow a word.\<close>

definition at_break :: "string \<Rightarrow> bool" where
  "at_break r \<longleftrightarrow> r = [] \<or> is_ascii_whitespace (hd r)"

lemma takeWhile_word:
  "\<not> list_ex is_ascii_whitespace w \<Longrightarrow> at_break r \<Longrightarrow>
   takeWhile (\<lambda>c. \<not> is_ascii_whitespace c) (w @ r) = w"
  by (induction w) (cases r, auto simp: at_break_def)

lemma next_token_word:
  assumes "bytes_from lx = Inr (w @ r)" "is_word w" "at_break r"
  shows "next_token lx =
    Inr (Some (Tok_Text (read_head lx) (read_head lx + length w)), move_read_head (length w) lx)"
proof -
  obtain c w' where w: "w = c # w'" "\<not> is_ascii_whitespace c" "c \<noteq> DQ" "c \<noteq> LF"
    using assms(2) by (cases w) (auto simp: is_word_def is_ascii_whitespace_def)
  have tw: "takeWhile (\<lambda>c. \<not> is_ascii_whitespace c) (w @ r) = w"
    using assms(2,3) by (intro takeWhile_word) (auto simp: is_word_def)
  have "read_text lx = Inr ((read_head lx, read_head lx + length w), move_read_head (length w) lx)"
    using assms(1) tw by (simp add: read_text_def read_text_loop_eq Let_def)
  then show ?thesis
    using assms(1) w by (simp add: next_token_def)
qed

text \<open>The bodies of quoted texts: every quote is escaped and no backslash is last.\<close>

function quoted_body :: "string \<Rightarrow> bool" where
  "quoted_body [] = True"
| "quoted_body (c # q) =
     (if c = BS then (case q of [] \<Rightarrow> False | _ # q' \<Rightarrow> quoted_body q')
      else c \<noteq> DQ \<and> quoted_body q)"
  by pat_completeness auto
termination
  by (relation "measure length") auto

lemma read_quoted_body:
  "quoted_body q \<Longrightarrow> read_quoted_loop (q @ DQ # r) lx =
     Inr (read_head lx + length q, move_read_head (length q) lx)"
proof (induction q arbitrary: lx rule: quoted_body.induct)
  case 1
  then show ?case by (simp add: move_read_head_def)
next
  case (2 c q)
  show ?case
  proof (cases "c = BS")
    case True
    then obtain d q' where q: "q = d # q'" "quoted_body q'"
      using "2.prems" by (auto split: list.splits)
    then show ?thesis
      using "2.IH"(1) [OF True q, of "move_read_head 2 lx"] True by simp
  next
    case False
    then have "c \<noteq> DQ" "quoted_body q" using "2.prems" by auto
    then show ?thesis
      using "2.IH"(2) [OF False, of "move_read_head 1 lx"] False by simp
  qed
qed

lemma next_token_quoted:
  assumes "bytes_from lx = Inr (DQ # q @ DQ # r)" "quoted_body q"
  shows "next_token lx =
    Inr (Some (Tok_QuotedText (read_head lx + 1) (read_head lx + 1 + length q)),
         move_read_head (length q + 2) lx)"
proof -
  have "bytes_from (move_read_head 1 lx) = Inr (q @ DQ # r)"
    using bytes_from_move1 [OF assms(1)] .
  then show ?thesis
    using assms read_quoted_body [OF assms(2), of r "move_read_head 1 lx"]
    by (simp add: next_token_def read_quoted_text_def is_ascii_whitespace_def)
qed

section \<open>The text of a token\<close>

lemma slice_of_bytes:
  assumes "bytes_from lx = Inr (a @ r)" and "a = [] \<or> \<not> is_cont (hd a)" and "r = [] \<or> \<not> is_cont (hd r)"
  shows "slice_or_panic (lx_buffer lx) (read_head lx) (read_head lx + length a) = Inr a"
proof -
  let ?b = "lx_buffer lx" and ?h = "read_head lx"
  have d: "drop ?h ?b = a @ r" and len: "?h + length (a @ r) = length ?b"
    using assms(1) bytes_from_length by (auto simp: bytes_from_Inr)
  have b1: "is_char_boundary ?b ?h" if "a @ r \<noteq> []"
  proof -
    have "?b ! ?h = hd (a @ r)"
      using that d by (metis hd_drop_conv_nth drop_eq_Nil linorder_not_le)
    then show ?thesis
      using that assms(2,3) len by (cases a) (auto simp: is_char_boundary_def)
  qed
  have b2: "is_char_boundary ?b (?h + length a)" if "r \<noteq> []"
  proof -
    have "drop (?h + length a) ?b = r"
      using d by (metis add.commute append_eq_conv_conj drop_drop)
    then have "?b ! (?h + length a) = hd r"
      using that by (metis hd_drop_conv_nth drop_eq_Nil linorder_not_le)
    then show ?thesis
      using that assms(3) len by (cases r) (auto simp: is_char_boundary_def)
  qed
  have "is_char_boundary ?b ?h" "is_char_boundary ?b (?h + length a)"
    using b1 b2 len by (cases "a @ r = []"; cases "r = []"; auto simp: is_char_boundary_def)+
  then show ?thesis
    using d len by (simp add: slice_or_panic_def str_slice_def)
qed

lemma extract_word:
  assumes "bytes_from lx = Inr (w @ r)" "is_word w" "at_break r" "lx_buffer lx' = lx_buffer lx"
  shows "extract_from_token lx' (Tok_Text (read_head lx) (read_head lx + length w)) = Inr w"
  using slice_of_bytes [OF assms(1)] assms(2,3,4)
  by (auto simp: is_word_def at_break_def is_ascii_whitespace_def is_cont_def)

text \<open>The reference: drop each escaping backslash and keep the byte after it.\<close>

function unescape_ref :: "string \<Rightarrow> string" where
  "unescape_ref [] = []"
| "unescape_ref (c # q) =
     (if c = BS then (case q of [] \<Rightarrow> [] | d # q' \<Rightarrow> push_char_from d @ unescape_ref q')
      else c # unescape_ref q)"
  by pat_completeness auto
termination
  by (relation "measure length") auto

text \<open>Every escaped byte is ASCII.\<close>

function escapes_ascii :: "string \<Rightarrow> bool" where
  "escapes_ascii [] = True"
| "escapes_ascii (c # q) =
     (if c = BS then (case q of [] \<Rightarrow> True | d # q' \<Rightarrow> byte d < 128 \<and> escapes_ascii q')
      else escapes_ascii q)"
  by pat_completeness auto
termination
  by (relation "measure length") auto

lemma unescape_loop_simps [simp]:
  "unescape_loop text idx [] escaped ss = Some (escaped, ss)"
  "unescape_loop text idx (BS # c # rest) escaped ss =
     (case push_slice escaped text ss idx of None \<Rightarrow> None
      | Some acc \<Rightarrow> unescape_loop text (idx + 2) rest (acc @ push_char_from c) (idx + 2))"
  "c \<noteq> BS \<Longrightarrow> unescape_loop text idx (c # rest) escaped ss = unescape_loop text (idx + 1) rest escaped ss"
  by (subst unescape_loop.simps, simp cong: option.case_cong)+

lemma unescape_loop_ok:
  assumes "quoted_body rest" "escapes_ascii rest" "no_orphan True (pre @ rest)"
    and "ss \<le> length pre" "is_char_boundary (pre @ rest) ss"
  shows "\<exists>escaped' ss'. unescape_loop (pre @ rest) (length pre) rest escaped ss = Some (escaped', ss')
     \<and> ss' \<le> length (pre @ rest) \<and> is_char_boundary (pre @ rest) ss'
     \<and> escaped' @ drop ss' (pre @ rest) = escaped @ drop ss pre @ unescape_ref rest
     \<and> (escaped' = [] \<longleftrightarrow> escaped = [] \<and> BS \<notin> set rest)"
  using assms
proof (induction rest arbitrary: pre escaped ss rule: quoted_body.induct)
  case 1
  then show ?case by simp
next
  case (2 c rest)
  show ?case
  proof (cases "c = BS")
    case True
    then obtain d rest' where rest: "rest = d # rest'" and d: "byte d < 128" "quoted_body rest'"
      "escapes_ascii rest'"
      using "2.prems"(1,2) by (auto split: list.splits)
    let ?text = "pre @ c # rest"
    have ps: "push_slice escaped ?text ss (length pre) = Some (escaped @ drop ss pre)"
      using push_slice_ok [OF "2.prems"(5), of "length pre" escaped] True "2.prems"(4)
        boundary_ascii [of BS pre rest] by simp
    have bd: "is_char_boundary ?text (length pre + 2)"
      using boundary_after_ascii [of True "pre @ [c]" d rest'] "2.prems"(3) d(1) rest by simp
    show ?thesis
      using "2.IH"(1) [OF True rest d(2,3), of "pre @ [c, d]" "length pre + 2"
          "escaped @ drop ss pre @ push_char_from d"] "2.prems"(3) ps bd True rest d(1)
      by (simp add: push_char_from_def)
  next
    case False
    then show ?thesis
      using "2.IH"(2) [OF False, of "pre @ [c]" ss escaped] "2.prems" by simp
  qed
qed

lemma unescape_ref_id: "BS \<notin> set q \<Longrightarrow> unescape_ref q = q"
  by (induction q) auto

lemma unescape_eq:
  assumes "quoted_body q" "escapes_ascii q" "no_orphan True q"
  shows "unescape q = Some (unescape_ref q)"
proof -
  obtain e ss where u: "unescape_loop q 0 q [] 0 = Some (e, ss)" "ss \<le> length q"
    "is_char_boundary q ss" "e @ drop ss q = unescape_ref q" "e = [] \<longleftrightarrow> BS \<notin> set q"
    using unescape_loop_ok [OF assms(1,2), of "[]" 0 "[]"] assms(3) by auto
  show ?thesis
  proof (cases "e = []")
    case True
    then show ?thesis using u by (simp add: unescape_def unescape_ref_id)
  next
    case False
    then show ?thesis
      using u push_slice_ok [OF u(3) boundary_length u(2) order.refl] by (simp add: unescape_def)
  qed
qed

lemma escape_ref_body: "quoted_body (escape_ref s)"
  by (induction s) (auto simp: needs_escape_def)

lemma escape_ref_escapes_ascii: "escapes_ascii (escape_ref s)"
  by (induction s) (auto simp: needs_escape_def)

lemma escape_ref_no_orphan: "no_orphan p s \<Longrightarrow> no_orphan p (escape_ref s)"
  by (induction s arbitrary: p) (auto simp: needs_escape_def intro: no_orphan_weaken)

lemma unescape_escape_ref: "unescape_ref (escape_ref s) = s"
  by (induction s) (auto simp: needs_escape_def push_char_from_def)

lemma extract_quoted:
  assumes "bytes_from lx = Inr (DQ # q @ DQ # r)" "quoted_body q" "escapes_ascii q" "no_orphan True q"
    and "lx_buffer lx' = lx_buffer lx"
  shows "extract_from_token lx' (Tok_QuotedText (read_head lx + 1) (read_head lx + 1 + length q)) =
     Inr (unescape_ref q)"
proof -
  have "bytes_from (move_read_head 1 lx) = Inr (q @ DQ # r)"
    using bytes_from_move1 [OF assms(1)] .
  moreover have "q = [] \<or> \<not> is_cont (hd q)"
    using assms(4) by (cases q) auto
  ultimately have "slice_or_panic (lx_buffer lx) (read_head lx + 1) (read_head lx + 1 + length q) = Inr q"
    using slice_of_bytes [of "move_read_head 1 lx" q "DQ # r"] by simp
  then show ?thesis
    using unescape_eq [OF assms(2-4)] assms(5) by simp
qed

lemma extract_escaped:
  assumes "bytes_from lx = Inr (DQ # escape_ref s @ DQ # r)" "no_orphan True s" "lx_buffer lx' = lx_buffer lx"
  shows "extract_from_token lx'
     (Tok_QuotedText (read_head lx + 1) (read_head lx + 1 + length (escape_ref s))) = Inr s"
  using extract_quoted [OF assms(1) escape_ref_body escape_ref_escapes_ascii
      escape_ref_no_orphan [OF assms(2)] assms(3)] by (simp add: unescape_escape_ref)

section \<open>Properties\<close>

lemma bytes_from_new [simp]: "bytes_from (lexer_new b) = Inr b"
  by (simp add: bytes_from_def lexer_new_def)

text \<open>C35: Quoting is safe: any Rust string, escaped by \<open>escape_nut_str\<close> and put between double
  quotes, is read back by the lexer as exactly one quoted token whose text is the original
  string, and the lexer stops right behind the closing quote whatever follows.\<close>

theorem quoted_text_roundtrip:
  assumes "utf8_valid s"
  shows "\<exists>e tok lx'. map_option cow_str (escape_nut_str s) = Some e
     \<and> next_token (lexer_new (DQ # e @ DQ # r)) = Inr (Some tok, lx')
     \<and> token_kind_of tok = K_QuotedText
     \<and> extract_from_token lx' tok = Inr s \<and> bytes_from lx' = Inr r"
proof -
  let ?e = "escape_ref s" and ?lx = "lexer_new (DQ # escape_ref s @ DQ # r)"
  have n: "next_token ?lx = Inr (Some (Tok_QuotedText (read_head ?lx + 1) (read_head ?lx + 1 + length ?e)),
      move_read_head (length ?e + 2) ?lx)"
    by (rule next_token_quoted) (simp_all add: escape_ref_body)
  have x: "extract_from_token (move_read_head (length ?e + 2) ?lx)
     (Tok_QuotedText (read_head ?lx + 1) (read_head ?lx + 1 + length ?e)) = Inr s"
    using utf8_valid_no_orphan [OF assms] by (intro extract_escaped) simp_all
  have b: "bytes_from (move_read_head (length ?e + 2) ?lx) = Inr r"
    using bytes_from_move [of ?lx "DQ # ?e @ [DQ]" r] by simp
  show ?thesis
    using escape_nut_str_valid [OF assms] n x b by (metis token_kind_of.simps(1))
qed

theorem quoted_text_roundtrip_witness:
  "\<exists>e tok lx'. map_option cow_str (escape_nut_str [CHR ''a'', DQ]) = Some e
     \<and> next_token (lexer_new (DQ # e @ DQ # [LF])) = Inr (Some tok, lx')
     \<and> token_kind_of tok = K_QuotedText
     \<and> extract_from_token lx' tok = Inr [CHR ''a'', DQ] \<and> bytes_from lx' = Inr [LF]"
  by (rule quoted_text_roundtrip) simp

text \<open>Reading a token keeps the buffer, never moves the head past its end, and makes
  progress: a text token covers a non-empty range that ends at the new head, a quoted token ends
  one byte before it, and every token moves the head forward. So a loop that reads tokens ends,
  and the saturating cursor arithmetic never saturates.\<close>

theorem next_token_progress:
  assumes "next_token lx = Inr (t, lx')"
  shows "lx_buffer lx' = lx_buffer lx \<and> read_head lx' \<le> length (lx_buffer lx)
     \<and> token_range (read_head lx) (read_head lx') t
     \<and> (t \<noteq> None \<longrightarrow> read_head lx < read_head lx')"
proof -
  have "token_range (read_head lx) (read_head lx') t \<Longrightarrow> t \<noteq> None \<Longrightarrow> read_head lx < read_head lx'"
    by (cases "(read_head lx, read_head lx', t)" rule: token_range.cases) auto
  then show ?thesis
    using next_token_bounds [OF assms] by blast
qed

lemma next_token_OK: "next_token (lexer_new ''OK'') =
    Inr (Some (Tok_Text 0 2), move_read_head 2 (lexer_new ''OK''))"
  using next_token_word [of "lexer_new ''OK''" "''OK''" "[]"]
  by (simp add: is_word_def at_break_def is_ascii_whitespace_def is_cont_def lexer_new_def bytes_from_def
      numeral_2_eq_2)

theorem next_token_progress_witness:
  "token_range 0 2 (Some (Tok_Text 0 2)) \<and> 0 < read_head (move_read_head 2 (lexer_new ''OK''))"
  using next_token_progress [OF next_token_OK] by (simp add: lexer_new_def)

text \<open>A backslash before a character of more than one byte makes the client panic: the bytes
  are pushed as two code points and the rest is sliced in the middle of the character. The
  concrete response text is a quoted backslash followed by U+00E9.\<close>

theorem escaped_multibyte_panics:
  "let lx = lexer_new [DQ, BS, CHR 0xC3, CHR 0xA9, DQ] in
   utf8_valid (lx_buffer lx) \<and>
   (case next_token lx of
      Inr (Some tok, lx') \<Rightarrow> tok = Tok_QuotedText 1 4 \<and> extract_from_token lx' tok = Inl Panic
    | _ \<Rightarrow> False)"
  by code_simp

text \<open>\<open>is_finished\<close> cannot tell the end of the response from a remainder it cannot read: a
  lexer that stands before an unterminated quoted text, where \<open>next_token\<close> fails, reports that
  it is finished.\<close>

theorem is_finished_on_lex_error:
  assumes "bytes_from lx = Inr (DQ # q)" and "BS \<notin> set q" and "DQ \<notin> set q"
  shows "is_finished lx = Inr True
     \<and> (\<exists>p. next_token lx = Inl (Err (ParseError ExpectedDoubleQuote p)))"
proof -
  have loop: "\<exists>p. read_quoted_loop q l = Inl (Err (ParseError ExpectedDoubleQuote p))" for l
    using assms(2,3) by (induction q arbitrary: l) auto
  obtain p where p: "read_quoted_loop q (move_read_head 1 lx) = Inl (Err (ParseError ExpectedDoubleQuote p))"
    using loop by blast
  then have n: "\<exists>p. next_token lx = Inl (Err (ParseError ExpectedDoubleQuote p))"
    using assms(1) bytes_from_move1 [OF assms(1)]
    by (simp add: next_token_def read_quoted_text_def is_ascii_whitespace_def)
  then show ?thesis
    by (auto simp: is_finished_def peek_def)
qed

theorem is_finished_on_lex_error_witness:
  "is_finished (lexer_new (DQ # ''abc'')) = Inr True"
  using is_finished_on_lex_error [of "lexer_new (DQ # ''abc'')" "''abc''"] by simp

end
