(* ===== verification/Standard_Names.thy ===== *)
theory Standard_Names
  imports Prelude
begin

text \<open>
  The table of standard variable names of \<open>var_name.rs\<close> (the arguments of the macro
  \<open>impl_standard_names!\<close>). The macro turns row \<open>i\<close> of the table into the \<open>i\<close>-th variant of
  the enum \<open>StandardName\<close>; the model keeps the variant as the row number and the text of the
  row as its \<open>as_str\<close>. The file ends with what makes the two \<open>match\<close> expressions the macro
  generates inverse to each other: the rows are pairwise different.
\<close>

definition standard_names_1 :: "string list" where
  "standard_names_1 =
  [''ambient.humidity'',
   ''ambient.humidity.alarm.maximum'',
   ''ambient.humidity.alarm.minimum'',
   ''ambient.humidity.high'',
   ''ambient.humidity.high.critical'',
   ''ambient.humidity.high.warning'',
   ''ambient.humidity.low'',
   ''ambient.humidity.low.critical'',
   ''ambient.humidity.low.warning'',
   ''ambient.humidity.status'',
   ''ambient.present'',
   ''ambient.temperature'',
   ''ambient.temperature.alarm.maximum'',
   ''ambient.temperature.alarm.minimum'',
   ''ambient.temperature.high'',
   ''ambient.temperature.high.critical'',
   ''ambient.temperature.high.warning'',
   ''ambient.temperature.low'',
   ''ambient.temperature.low.critical'',
   ''ambient.temperature.low.warning'',
   ''ambient.temperature.status'',
   ''battery.alarm.threshold'',
   ''battery.capacity'',
   ''battery.capacity.nominal'',
   ''battery.charge'',
   ''battery.charge.low'',
   ''battery.charge.restart'',
   ''battery.charger.status'',
   ''battery.charge.warning'',
   ''battery.chemistry'',
   ''battery.current'',
   ''battery.current.maximum'',
   ''battery.current.minimum'',
   ''battery.current.total'',
   ''battery.date'',
   ''battery.date.maintenance'',
   ''battery.energysave'',
   ''battery.energysave.delay'',
   ''battery.energysave.load'',
   ''battery.lowbatt'',
   ''battery.mfr.date'',
   ''battery.packs'',
   ''battery.packs.bad'',
   ''battery.protection'',
   ''battery.runtime'',
   ''battery.runtime.elapsed'',
   ''battery.runtime.low'',
   ''battery.temperature'',
   ''battery.test.status'',
   ''battery.type'',
   ''battery.voltage'',
   ''battery.voltage.high'',
   ''battery.voltage.low'',
   ''battery.voltage.maximum'',
   ''battery.voltage.minimum'',
   ''battery.voltage.nominal'',
   ''device.contact'',
   ''device.description'',
   ''device.location'',
   ''device.macaddr'',
   ''device.mfr'',
   ''device.model'',
   ''device.part'',
   ''device.revision'',
   ''device.serial'',
   ''device.type'',
   ''driver.flag.allow_killpower'',
   ''driver.flag.ignorelb'',
   ''driver.flag.ignoreoff'',
   ''driver.flag.maxreport'',
   ''driver.flag.nolock'',
   ''driver.flag.norating'',
   ''driver.flag.noscanlangid'',
   ''driver.flag.novendor'',
   ''driver.flag.pollonly'',
   ''driver.name'',
   ''driver.parameter.alarm_control'',
   ''driver.parameter.battvoltmult'',
   ''driver.parameter.battvolts'',
   ''driver.parameter.baud_rate'',
   ''driver.parameter.baudrate'',
   ''driver.parameter.bus'',
   ''driver.parameter.bypass_forbidding'',
   ''driver.parameter.cable'',
   ''driver.parameter.cablepower'',
   ''driver.parameter.chargetime'',
   ''driver.parameter.default.battery.voltage'',
   ''driver.parameter.default.battery.voltage.high'',
   ''driver.parameter.default.battery.voltage.low'',
   ''driver.parameter.default.battery.voltage.nominal'',
   ''driver.parameter.default.input.voltage'',
   ''driver.parameter.default.input.voltage.nominal'',
   ''driver.parameter.device'',
   ''driver.parameter.frequency'',
   ''driver.parameter.idleload'',
   ''driver.parameter.langid_fix'',
   ''driver.parameter.limited_runtime_on_battery'',
   ''driver.parameter.linevoltage'',
   ''driver.parameter.lowbatt'',
   ''driver.parameter.lowbatt_pct'',
   ''driver.parameter.lowbattvolt'',
   ''driver.parameter.manufacturer'',
   ''driver.parameter.mfr'',
   ''driver.parameter.mibs'',
   ''driver.parameter.model'',
   ''driver.parameter.modelname'',
   ''driver.parameter.notification'',
   ''driver.parameter.offdelay'',
   ''driver.parameter.ondelay'',
   ''driver.parameter.override.battery.charge.low'',
   ''driver.parameter.override.battery.charge.warning'',
   ''driver.parameter.override.battery.voltage.nominal'',
   ''driver.parameter.pollfreq'',
   ''driver.parameter.pollinterval'',
   ''driver.parameter.port'',
   ''driver.parameter.product'',
   ''driver.parameter.productid'',
   ''driver.parameter.protocol'',
   ''driver.parameter.runtimecal'',
   ''driver.parameter.sdtype'',
   ''driver.parameter.serial'',
   ''driver.parameter.serialnumber'',
   ''driver.parameter.shutdown_delay'',
   ''driver.parameter.snmp_retries'',
   ''driver.parameter.snmp_timeout'',
   ''driver.parameter.snmp_version'',
   ''driver.parameter.subdriver'',
   ''driver.parameter.synchronous'',
   ''driver.parameter.type'',
   ''driver.parameter.upstype'',
   ''driver.parameter.vendor'',
   ''driver.parameter.vendorid'',
   ''driver.parameter.voltage'',
   ''driver.state'',
   ''driver.version'',
   ''driver.version.data'',
   ''driver.version.internal'',
   ''driver.version.usb'',
   ''input.bypass.current'',
   ''input.bypass.frequency'']"

definition standard_names_2 :: "string list" where
  "standard_names_2 =
  [''input.bypass.frequency.nominal'',
   ''input.bypass.phases'',
   ''input.bypass.voltage'',
   ''input.count'',
   ''input.current'',
   ''input.current.high.critical'',
   ''input.current.high.warning'',
   ''input.current.low.warning'',
   ''input.current.nominal'',
   ''input.current.status'',
   ''input.frequency'',
   ''input.frequency.extended'',
   ''input.frequency.high'',
   ''input.frequency.low'',
   ''input.frequency.nominal'',
   ''input.frequency.status'',
   ''input.load'',
   ''input.phases'',
   ''input.power'',
   ''input.powerfactor'',
   ''input.quality'',
   ''input.realpower'',
   ''input.sensitivity'',
   ''input.source'',
   ''input.source.preferred'',
   ''input.transfer.boost.high'',
   ''input.transfer.boost.low'',
   ''input.transfer.delay'',
   ''input.transfer.high'',
   ''input.transfer.high.max'',
   ''input.transfer.high.min'',
   ''input.transfer.low'',
   ''input.transfer.low.max'',
   ''input.transfer.low.min'',
   ''input.transfer.reason'',
   ''input.transfer.trim.high'',
   ''input.transfer.trim.low'',
   ''input.voltage'',
   ''input.voltage.extended'',
   ''input.voltage.fault'',
   ''input.voltage.high.critical'',
   ''input.voltage.high.warning'',
   ''input.voltage.low.critical'',
   ''input.voltage.low.warning'',
   ''input.voltage.maximum'',
   ''input.voltage.minimum'',
   ''input.voltage.nominal'',
   ''input.voltage.status'',
   ''outlet.count'',
   ''outlet.current'',
   ''outlet.desc'',
   ''outlet.frequency'',
   ''outlet.group.count'',
   ''outlet.id'',
   ''outlet.power'',
   ''outlet.powerfactor'',
   ''outlet.realpower'',
   ''outlet.switchable'',
   ''outlet.voltage'',
   ''output.current'',
   ''output.current.maximum'',
   ''output.current.nominal'',
   ''output.frequency'',
   ''output.frequency.maximum'',
   ''output.frequency.minimum'',
   ''output.frequency.nominal'',
   ''output.phases'',
   ''output.power'',
   ''output.powerfactor'',
   ''output.power.maximum.percent'',
   ''output.power.minimum.percent'',
   ''output.power.nominal'',
   ''output.power.percent'',
   ''output.realpower'',
   ''output.realpower.nominal'',
   ''output.voltage'',
   ''output.voltage.high'',
   ''output.voltage.low'',
   ''output.voltage.maximum'',
   ''output.voltage.minimum'',
   ''output.voltage.nominal'',
   ''output.voltage.target.battery'',
   ''output.voltage.target.line'',
   ''ups.alarm'',
   ''ups.beeper.enable'',
   ''ups.beeper.status'',
   ''ups.contacts'',
   ''ups.date'',
   ''ups.delay.reboot'',
   ''ups.delay.restart'',
   ''ups.delay.shutdown'',
   ''ups.delay.start'',
   ''ups.description'',
   ''ups.devicechemistry'',
   ''ups.efficiency'',
   ''ups.firmware'',
   ''ups.firmware.aux'',
   ''ups.id'',
   ''ups.input.frequency'',
   ''ups.input.voltage'',
   ''ups.load'',
   ''ups.load.high'',
   ''ups.load.nominal'',
   ''ups.macaddr'',
   ''ups.mfg'',
   ''ups.mfr'',
   ''ups.mfr.date'',
   ''ups.model'',
   ''ups.model.aux'',
   ''ups.model.type'',
   ''ups.output.percentload'',
   ''ups.output.voltage'',
   ''ups.power'',
   ''ups.power.nominal'',
   ''ups.product'',
   ''ups.productid'',
   ''ups.realpower'',
   ''ups.realpower.nominal'',
   ''ups.runtime'',
   ''ups.serial'',
   ''ups.serial.internal'',
   ''ups.shutdown'',
   ''ups.start.auto'',
   ''ups.start.battery'',
   ''ups.start.reboot'',
   ''ups.status'',
   ''ups.temperature'',
   ''ups.temperature.high'',
   ''ups.temperature.low'',
   ''ups.test.date'',
   ''ups.test.interval'',
   ''ups.test.result'',
   ''ups.time'',
   ''ups.timer.reboot'',
   ''ups.timer.restart'',
   ''ups.timer.shutdown'',
   ''ups.timer.start'',
   ''ups.type'',
   ''ups.vendor'',
   ''ups.vendorid'',
   ''ups.voltage.nominal'']"

definition standard_names :: "string list" where
  "standard_names = standard_names_1 @ standard_names_2"

lemma length_standard_names: "length standard_names = 281"
  by (simp add: standard_names_def standard_names_1_def standard_names_2_def)

text \<open>Pairwise difference is checked along the byte-wise order: but for a few adjacent
  exchanges the table is strictly increasing, so a linear pass suffices.\<close>

fun str_less :: "string \<Rightarrow> string \<Rightarrow> bool" where
  "str_less [] [] = False"
| "str_less [] (y # ys) = True"
| "str_less (x # xs) [] = False"
| "str_less (x # xs) (y # ys) = (if x = y then str_less xs ys else byte x < byte y)"

fun str_increasing :: "string list \<Rightarrow> bool" where
  "str_increasing [] = True"
| "str_increasing [x] = True"
| "str_increasing (x # y # zs) = (str_less x y \<and> str_increasing (y # zs))"

lemma str_less_irrefl: "\<not> str_less x x"
  by (induction x) auto

lemma str_less_trans: "str_less x y \<Longrightarrow> str_less y z \<Longrightarrow> str_less x z"
proof (induction x y arbitrary: z rule: str_less.induct)
  case (2 y ys)
  then show ?case by (cases z) auto
next
  case (4 x xs y ys)
  then show ?case by (cases z) (auto split: if_splits)
qed auto

lemma str_increasing_Cons: "str_increasing (x # zs) \<Longrightarrow> z \<in> set zs \<Longrightarrow> str_less x z"
  by (induction zs arbitrary: x) (auto intro: str_less_trans)

lemma str_increasing_distinct: "str_increasing zs \<Longrightarrow> distinct zs"
proof (induction zs rule: str_increasing.induct)
  case (3 x y zs)
  then show ?case
    using str_increasing_Cons [of x "y # zs"] str_less_irrefl by auto
qed auto

definition swap_next :: "nat \<Rightarrow> 'a list \<Rightarrow> 'a list" where
  "swap_next i zs = zs[i := zs ! Suc i, Suc i := zs ! i]"

lemma distinct_swap_next: "Suc i < length zs \<Longrightarrow> distinct (swap_next i zs) = distinct zs"
  by (simp add: swap_next_def)

lemma length_swap_next [simp]: "length (swap_next i zs) = length zs"
  by (simp add: swap_next_def)

lemma standard_names_increasing:
  "str_increasing (swap_next 211 (swap_next 210 (swap_next 209 (swap_next 208 (swap_next 27 standard_names)))))"
  by code_simp

lemma distinct_standard_names: "distinct standard_names"
  using str_increasing_distinct [OF standard_names_increasing]
  by (simp add: distinct_swap_next length_standard_names)

end
