(* ===== verification/Names.thy ===== *)
theory Names
  imports Errors Standard_Names
begin

text \<open>
  The names of the NUT protocol: \<open>internal/ascii_rules.rs\<close>, \<open>ups_name.rs\<close>, \<open>cmd_name.rs\<close>,
  \<open>var_name.rs\<close> and \<open>var_type.rs\<close>. All constructors of a name (\<open>new\<close>, \<open>FromStr\<close>, the three
  \<open>TryFrom\<close> and the serde visitors) run the same check and are one function here. The locale
  \<open>text_name\<close> states what the parser and the command writer rely on: a name is its text, and the
  text is one non-empty word.
\<close>

section \<open>The character table of RFC 9271\<close>

definition ascii_ups_class :: "nat \<Rightarrow> bool" where
  "ascii_ups_class i \<longleftrightarrow>
     i = byte (CHR ''-'') \<or> i = byte (CHR ''.'') \<or>
     (byte (CHR ''0'') \<le> i \<and> i \<le> byte (CHR ''9'')) \<or>
     (byte (CHR ''A'') \<le> i \<and> i \<le> byte (CHR ''Z'')) \<or>
     i = byte (CHR ''_'') \<or>
     (byte (CHR ''a'') \<le> i \<and> i \<le> byte (CHR ''z''))"

definition LOOKUP_ASCII_UPS :: "bool list" where
  "LOOKUP_ASCII_UPS = map ascii_ups_class [0..<128]"

text \<open>\<open>slice::get\<close>.\<close>

definition list_get :: "'a list \<Rightarrow> nat \<Rightarrow> 'a option" where
  "list_get xs i = (if i < length xs then Some (xs ! i) else None)"

definition is_ascii_rfc9271 :: "char \<Rightarrow> bool" where
  "is_ascii_rfc9271 c = (list_get LOOKUP_ASCII_UPS (byte c) = Some True)"

section \<open>UPS names\<close>

datatype ups_name = UpsName (ups_str: string)

definition is_ups_name :: "string \<Rightarrow> ups_name_parse_error + unit" where
  "is_ups_name name =
     (if name = [] then Inl UpsNameEmpty
      else if list_ex is_ascii_whitespace name then Inl UpsNameInvalidName
      else Inr ())"

definition ups_name_new :: "string \<Rightarrow> ups_name_parse_error + ups_name" where
  "ups_name_new name = bind_res (is_ups_name name) (\<lambda>_. Inr (UpsName name))"

definition ups_name_new_unchecked :: "string \<Rightarrow> ups_name" where
  "ups_name_new_unchecked name = UpsName name"

section \<open>Command names\<close>

datatype cmd_name = CmdName (cmd_str: string)

definition is_cmd_name :: "string \<Rightarrow> cmd_parse_error + unit" where
  "is_cmd_name name =
     (case name of
        [] \<Rightarrow> Inl CmdEmpty
      | first # _ \<Rightarrow>
          if \<not> is_ascii_alphabetic first then Inl CmdInvalidName
          else if list_ex (\<lambda>b. \<not> is_ascii_rfc9271 b) name then Inl CmdInvalidName
          else Inr ())"

definition cmd_name_new :: "string \<Rightarrow> cmd_parse_error + cmd_name" where
  "cmd_name_new name = bind_res (is_cmd_name name) (\<lambda>_. Inr (CmdName name))"

definition cmd_is_valid_name :: "string \<Rightarrow> bool" where
  "cmd_is_valid_name name = is_ok (is_cmd_name name)"

section \<open>Variable names\<close>

text \<open>\<open>Repr<StandardName, Box<str>>\<close>: a row of the table of standard names, or a text.\<close>

datatype var_name = Standard nat | Custom string

fun index_of :: "string list \<Rightarrow> string \<Rightarrow> nat option" where
  "index_of [] v = None"
| "index_of (x # xs) v = (if v = x then Some 0 else map_option Suc (index_of xs v))"

text \<open>\<open>TryFrom<&str> for StandardName\<close> and \<open>StandardName::as_str\<close>, as the macro expands.\<close>

definition standard_try_from :: "string \<Rightarrow> nat option" where
  "standard_try_from value = index_of standard_names value"

definition standard_as_str :: "nat \<Rightarrow> string" where
  "standard_as_str i = standard_names ! i"

definition is_var_name :: "string \<Rightarrow> var_name_parse_error + unit" where
  "is_var_name name =
     (case name of
        [] \<Rightarrow> Inl VarNameEmpty
      | first # _ \<Rightarrow>
          if \<not> is_ascii_alphabetic first then Inl VarNameInvalidName
          else if list_ex (\<lambda>b. \<not> is_ascii_rfc9271 b) name then Inl VarNameInvalidName
          else Inr ())"

definition var_name_new :: "string \<Rightarrow> var_name_parse_error + var_name" where
  "var_name_new name =
     (case standard_try_from name of
        Some i \<Rightarrow> Inr (Standard i)
      | None \<Rightarrow> bind_res (is_var_name name) (\<lambda>_. Inr (Custom name)))"

definition var_name_new_unchecked :: "string \<Rightarrow> var_name" where
  "var_name_new_unchecked name =
     (case standard_try_from name of Some i \<Rightarrow> Standard i | None \<Rightarrow> Custom name)"

definition var_is_valid_name :: "string \<Rightarrow> bool" where
  "var_is_valid_name name = is_ok (is_var_name name)"

fun var_as_str :: "var_name \<Rightarrow> string" where
  "var_as_str (Standard i) = standard_as_str i"
| "var_as_str (Custom s) = s"

fun var_name_eq :: "var_name \<Rightarrow> var_name \<Rightarrow> bool" where
  "var_name_eq (Standard i) (Standard j) = (i = j)"
| "var_name_eq a b = (var_as_str a = var_as_str b)"

text \<open>The names every constructor produces: a valid row, or a text that is no row.\<close>

fun var_canonical :: "var_name \<Rightarrow> bool" where
  "var_canonical (Standard i) = (i < length standard_names)"
| "var_canonical (Custom s) = (standard_try_from s = None)"

abbreviation UPS_STATUS :: var_name where
  "UPS_STATUS \<equiv> Standard 265"

section \<open>Variable types\<close>

datatype var_type = ReadWrite | Enum | Range | VT_String nat | Number

abbreviation usize_max :: nat where
  "usize_max \<equiv> 18446744073709551615"

text \<open>The byte before index 7 of a text that starts with \<open>STRING:\<close> is ASCII, so the slice
  \<open>text[7..]\<close> starts at a char boundary and is a \<open>drop\<close>.\<close>

definition var_type_from_str :: "string \<Rightarrow> var_type_parse_error + var_type" where
  "var_type_from_str s =
     (if s = [] then Inl VarTypeEmpty
      else if s = ''RW'' then Inr ReadWrite
      else if s = ''ENUM'' then Inr Enum
      else if s = ''RANGE'' then Inr Range
      else if s = ''NUMBER'' then Inr Number
      else if length s > 7 \<and> take 7 s = ''STRING:'' then
        (case parse_unsigned usize_max (drop 7 s) of
           Some v \<Rightarrow> Inr (VT_String v)
         | None \<Rightarrow> Inl InvalidType)
      else Inl InvalidType)"

fun var_type_fmt :: "var_type \<Rightarrow> string" where
  "var_type_fmt ReadWrite = ''RW''"
| "var_type_fmt Enum = ''RW''"
| "var_type_fmt Range = ''RANGE''"
| "var_type_fmt (VT_String n) = ''STRING:'' @ show_nat n"
| "var_type_fmt Number = ''NUMBER''"

section \<open>The contract of a name\<close>

locale text_name =
  fixes new :: "string \<Rightarrow> 'e + 'n" and as_str :: "'n \<Rightarrow> string"
  assumes as_str_new: "new s = Inr n \<Longrightarrow> as_str n = s"
    and new_nonempty: "new s = Inr n \<Longrightarrow> s \<noteq> []"
    and new_no_ws: "new s = Inr n \<Longrightarrow> c \<in> set s \<Longrightarrow> \<not> is_ascii_whitespace c"
begin

lemma new_as_str: "new s = Inr n \<Longrightarrow> new (as_str n) = Inr n"
  by (simp add: as_str_new)

lemma new_inj: "new s = Inr n \<Longrightarrow> new t = Inr n \<Longrightarrow> s = t"
  using as_str_new by metis

lemma text_no_LF: "new s = Inr n \<Longrightarrow> LF \<notin> set (as_str n)"
  using as_str_new [of s n] new_no_ws [of s n LF] by (auto simp: is_ascii_whitespace_def)

lemma text_word: "new s = Inr n \<Longrightarrow> as_str n \<noteq> [] \<and> \<not> list_ex is_ascii_whitespace (as_str n)"
  using as_str_new [of s n] new_no_ws [of s n] new_nonempty [of s n] by (auto simp: list_ex_iff)

end

section \<open>The table is the character class\<close>

lemma is_ascii_rfc9271_iff:
  "is_ascii_rfc9271 c \<longleftrightarrow>
     is_ascii_alphabetic c \<or> is_ascii_digit c \<or> c = CHR ''-'' \<or> c = CHR ''.'' \<or> c = CHR ''_''"
proof -
  have "is_ascii_rfc9271 c \<longleftrightarrow> byte c < 128 \<and> ascii_ups_class (byte c)"
    by (auto simp: is_ascii_rfc9271_def list_get_def LOOKUP_ASCII_UPS_def)
  moreover have "ascii_ups_class (byte c) \<Longrightarrow> byte c < 128"
    by (auto simp: ascii_ups_class_def)
  ultimately have "is_ascii_rfc9271 c \<longleftrightarrow> ascii_ups_class (byte c)"
    by blast
  also have "\<dots> \<longleftrightarrow> is_ascii_alphabetic c \<or> is_ascii_digit c \<or> c = CHR ''-'' \<or> c = CHR ''.'' \<or> c = CHR ''_''"
    unfolding ascii_ups_class_def of_char_eq_iff is_ascii_alphabetic_def is_ascii_uppercase_def
      is_ascii_lowercase_def is_ascii_digit_def
    by simp blast
  finally show ?thesis .
qed

lemma ws_not_rfc9271: "is_ascii_whitespace c \<Longrightarrow> \<not> is_ascii_rfc9271 c"
  by (auto simp: is_ascii_rfc9271_iff is_ascii_whitespace_def is_ascii_alphabetic_def
      is_ascii_uppercase_def is_ascii_lowercase_def is_ascii_digit_def)

section \<open>The standard names are valid, and the two matches are inverse\<close>

lemma index_of_Some: "index_of xs v = Some i \<Longrightarrow> i < length xs \<and> xs ! i = v"
  by (induction xs arbitrary: i) (auto split: if_splits)

lemma index_of_nth: "distinct xs \<Longrightarrow> i < length xs \<Longrightarrow> index_of xs (xs ! i) = Some i"
proof (induction xs arbitrary: i)
  case (Cons x xs)
  then show ?case by (cases i) auto
qed simp

lemma standard_try_from_as_str [simp]:
  "i < length standard_names \<Longrightarrow> standard_try_from (standard_as_str i) = Some i"
  by (simp add: standard_try_from_def standard_as_str_def index_of_nth distinct_standard_names)

lemma standard_try_from_Some:
  "standard_try_from s = Some i \<Longrightarrow> i < length standard_names \<and> standard_as_str i = s"
  by (simp add: standard_try_from_def standard_as_str_def index_of_Some)

lemma rfc9271_name_chars:
  "list_all is_ascii_rfc9271 ''abcdefghijklmnopqrstuvwxyz0123456789._''"
  "list_all is_ascii_alphabetic ''abcdefghijklmnopqrstuvwxyz''"
  by (simp_all add: is_ascii_rfc9271_iff is_ascii_alphabetic_def is_ascii_uppercase_def
      is_ascii_lowercase_def is_ascii_digit_def)

lemma standard_names_rfc9271: "list_all (list_all is_ascii_rfc9271) standard_names"
  using rfc9271_name_chars(1)
  by (simp add: standard_names_def standard_names_1_def standard_names_2_def)

lemma standard_names_alphabetic:
  "list_all (\<lambda>s. s \<noteq> [] \<and> is_ascii_alphabetic (hd s)) standard_names"
  using rfc9271_name_chars(2)
  by (simp add: standard_names_def standard_names_1_def standard_names_2_def)

lemma is_var_name_ok:
  "is_var_name s = Inr () \<longleftrightarrow>
     s \<noteq> [] \<and> is_ascii_alphabetic (hd s) \<and> list_all is_ascii_rfc9271 s"
  by (auto simp: is_var_name_def list_ex_iff list_all_iff split: list.splits)

lemma is_cmd_name_ok:
  "is_cmd_name s = Inr () \<longleftrightarrow>
     s \<noteq> [] \<and> is_ascii_alphabetic (hd s) \<and> list_all is_ascii_rfc9271 s"
  by (auto simp: is_cmd_name_def list_ex_iff list_all_iff split: list.splits)

lemma is_ups_name_ok:
  "is_ups_name s = Inr () \<longleftrightarrow> s \<noteq> [] \<and> \<not> list_ex is_ascii_whitespace s"
  by (auto simp: is_ups_name_def)

lemma standard_name_ok: "i < length standard_names \<Longrightarrow> is_var_name (standard_as_str i) = Inr ()"
  using standard_names_rfc9271 standard_names_alphabetic
  by (simp add: list_all_length standard_as_str_def is_var_name_ok)

lemma var_name_new_ok: "var_name_new s = Inr n \<Longrightarrow> var_canonical n \<and> var_as_str n = s \<and> is_var_name s = Inr ()"
  using standard_name_ok standard_try_from_Some
  by (fastforce simp: var_name_new_def bind_res_eq_Inr split: option.splits)

lemma var_name_new_iff: "is_ok (var_name_new s) \<longleftrightarrow> is_var_name s = Inr ()"
  using standard_name_ok standard_try_from_Some
  by (cases "is_var_name s") (fastforce simp: var_name_new_def split: option.splits)+

lemma var_name_new_as_str:
  "var_canonical n \<Longrightarrow> is_var_name (var_as_str n) = Inr () \<Longrightarrow> var_name_new (var_as_str n) = Inr n"
  by (cases n) (simp_all add: var_name_new_def)

section \<open>The three names meet the contract\<close>

interpretation ups: text_name ups_name_new ups_str
  by unfold_locales
    (auto simp: ups_name_new_def bind_res_eq_Inr is_ups_name_ok list_ex_iff)

interpretation cmd: text_name cmd_name_new cmd_str
  by unfold_locales
    (auto simp: cmd_name_new_def bind_res_eq_Inr is_cmd_name_ok list_all_iff dest: ws_not_rfc9271)

interpretation var: text_name var_name_new var_as_str
  by unfold_locales
    (auto dest!: var_name_new_ok simp: is_var_name_ok list_all_iff dest: ws_not_rfc9271)

section \<open>Properties\<close>

text \<open>Equality of variable names is sound for hashing. Every name a constructor returns is
  canonical (a row of the table of standard names, or a text that is no row), and on canonical
  names the hand-written \<open>PartialEq\<close>, which compares texts when the representations differ, is
  equality of the representations, which is what the derived \<open>Hash\<close> hashes.\<close>

theorem var_name_eq_is_structural:
  assumes "var_name_new s = Inr a" and "var_name_new t = Inr b"
  shows "var_name_eq a b = (a = b) \<and> var_name_eq a b = (s = t) \<and> var_name_new_unchecked s = a"
proof -
  have a: "var_canonical a" "var_as_str a = s" and b: "var_canonical b" "var_as_str b = t"
    using assms var_name_new_ok by blast+
  have eq: "var_name_eq a b = (a = b)"
    using a(1) b(1) by (cases a; cases b) auto
  moreover have "a = b \<longleftrightarrow> s = t"
    using assms a(2) b(2) by (metis sum.inject(2))
  moreover have "var_name_new_unchecked s = a"
    using assms(1)
    by (auto simp: var_name_new_unchecked_def var_name_new_def bind_res_eq_Inr split: option.splits)
  ultimately show ?thesis
    by simp
qed

lemma var_new_ups_status: "var_name_new ''ups.status'' = Inr UPS_STATUS"
proof -
  have "standard_as_str 265 = ''ups.status''"
    by (simp add: standard_as_str_def standard_names_def standard_names_1_def standard_names_2_def)
  then have "standard_try_from ''ups.status'' = Some 265"
    using standard_try_from_as_str [of 265] by (simp add: length_standard_names)
  then show ?thesis by (simp add: var_name_new_def)
qed

theorem var_name_eq_is_structural_witness:
  "var_name_eq UPS_STATUS UPS_STATUS \<and> var_name_new_unchecked ''ups.status'' = UPS_STATUS"
  using var_name_eq_is_structural [OF var_new_ups_status var_new_ups_status] by simp

text \<open>Round trip of a variable type, with its one exception. Reading back what \<open>Display\<close>
  prints gives the type, except for \<open>Enum\<close>, which prints as \<open>RW\<close> and reads back as
  \<open>ReadWrite\<close>.\<close>

theorem var_type_display_roundtrip:
  "(case t of VT_String n \<Rightarrow> n \<le> usize_max | _ \<Rightarrow> True) \<Longrightarrow>
   var_type_from_str (var_type_fmt t) = Inr (if t = Enum then ReadWrite else t)"
  using show_nat_hd_digit
  by (cases t) (auto simp: var_type_from_str_def parse_unsigned_show_nat, metis list.discI)

theorem var_type_display_roundtrip_witness:
  "var_type_from_str (var_type_fmt Enum) = Inr ReadWrite
   \<and> var_type_from_str (var_type_fmt (VT_String 64)) = Inr (VT_String 64)"
  using var_type_display_roundtrip [of Enum] var_type_display_roundtrip [of "VT_String 64"] by simp

end
