(* ===== verification/Float64.thy ===== *)
theory Float64
  imports Prelude "HOL-Library.Log_Nat" Complex_Main
begin

text \<open>
  The part of Rust's \<open>f64\<close> the program uses, defined exactly: IEEE 754 binary64 values as a
  signed rational magnitude, rounding to nearest with ties to even, \<open>str::parse::<f64>\<close> (the
  grammar of \<open>core\<close>, correctly rounded), the \<open>{:.2}\<close> formatting (exact decimal expansion, ties to
  even), comparison, and the saturating casts between \<open>f64\<close> and \<open>i64\<close>.
\<close>

datatype f64 = NaN | Inf bool | Fin bool rat

section \<open>Rounding\<close>

text \<open>The integer nearest to a rational, the even one of two.\<close>

definition round_even :: "rat \<Rightarrow> int" where
  "round_even q =
     (let n = \<lfloor>q\<rfloor>; r = q - of_int n in
      if r < 1 / 2 then n else if r > 1 / 2 then n + 1 else if even n then n else n + 1)"

text \<open>The exponent of the leading bit of a positive rational.\<close>

definition lead_exp :: "rat \<Rightarrow> int" where
  "lead_exp q =
     (case quotient_of q of (a, b) \<Rightarrow>
        let e = int (floorlog 2 (nat a)) - int (floorlog 2 (nat b)) in
        if 0 \<le> e then (if 2 ^ nat e \<le> q then e else e - 1)
        else (if 1 \<le> q * 2 ^ nat (- e) then e else e - 1))"

definition pow2 :: "int \<Rightarrow> rat" where
  "pow2 e = (if 0 \<le> e then 2 ^ nat e else 1 / 2 ^ nat (- e))"

definition f64_round :: "bool \<Rightarrow> rat \<Rightarrow> f64" where
  "f64_round neg q =
     (if q = 0 then Fin neg 0
      else let ulp = pow2 (max (lead_exp q) (- 1022) - 52);
               m = of_int (round_even (q / ulp)) * ulp
           in if pow2 1024 \<le> m then Inf neg else Fin neg m)"

section \<open>Parsing and printing\<close>

definition pow10 :: "int \<Rightarrow> rat" where
  "pow10 e = (if 0 \<le> e then 10 ^ nat e else 1 / 10 ^ nat (- e))"

text \<open>A decimal number without its sign: digits, an optional point with digits, an optional
  exponent; at least one digit of mantissa, and at least one of exponent.\<close>

definition parse_exponent :: "string \<Rightarrow> int option" where
  "parse_exponent s =
     (case s of
        [] \<Rightarrow> None
      | c # ds \<Rightarrow>
          if c = CHR ''-'' then (if ds \<noteq> [] \<and> all_digits ds then Some (- int (digits_val ds)) else None)
          else if c = CHR ''+'' then (if ds \<noteq> [] \<and> all_digits ds then Some (int (digits_val ds)) else None)
          else if all_digits s then Some (int (digits_val s)) else None)"

definition parse_decimal :: "string \<Rightarrow> rat option" where
  "parse_decimal s =
     (let ip = takeWhile is_ascii_digit s; r = dropWhile is_ascii_digit s;
          fp = (case r of [] \<Rightarrow> [] | c # r' \<Rightarrow> if c = CHR ''.'' then takeWhile is_ascii_digit r' else []);
          r2 = (case r of [] \<Rightarrow> [] | c # r' \<Rightarrow> if c = CHR ''.'' then dropWhile is_ascii_digit r' else r);
          m = of_nat (digits_val (ip @ fp)) * pow10 (- int (length fp)) in
      if ip = [] \<and> fp = [] then None
      else (case r2 of
              [] \<Rightarrow> Some m
            | c # e \<Rightarrow>
                if c = CHR ''e'' \<or> c = CHR ''E'' then map_option (\<lambda>x. m * pow10 x) (parse_exponent e)
                else None))"

definition parse_f64_unsigned :: "bool \<Rightarrow> string \<Rightarrow> f64 option" where
  "parse_f64_unsigned neg s =
     (if eq_ignore_ascii_case s ''inf'' \<or> eq_ignore_ascii_case s ''infinity'' then Some (Inf neg)
      else if eq_ignore_ascii_case s ''nan'' then Some NaN
      else map_option (f64_round neg) (parse_decimal s))"

definition parse_f64 :: "string \<Rightarrow> f64 option" where
  "parse_f64 s =
     (case s of
        [] \<Rightarrow> None
      | c # r \<Rightarrow>
          if c = CHR ''-'' then parse_f64_unsigned True r
          else if c = CHR ''+'' then parse_f64_unsigned False r
          else parse_f64_unsigned False s)"

text \<open>\<open>format!("{:.2}", x)\<close>\<close>

definition two_digits :: "nat \<Rightarrow> string" where
  "two_digits n = [digit_char (n div 10), digit_char (n mod 10)]"

fun show_f64_2 :: "f64 \<Rightarrow> string" where
  "show_f64_2 NaN = ''NaN''"
| "show_f64_2 (Inf neg) = (if neg then ''-inf'' else ''inf'')"
| "show_f64_2 (Fin neg q) =
     (let n = nat (round_even (q * 100)) in
      (if neg then ''-'' else []) @ show_nat (n div 100) @ CHR ''.'' # two_digits (n mod 100))"

section \<open>Casts, comparison, arithmetic\<close>

fun f64_val :: "f64 \<Rightarrow> rat" where
  "f64_val (Fin neg q) = (if neg then - q else q)"
| "f64_val _ = 0"

definition f64_of :: "rat \<Rightarrow> f64" where
  "f64_of q = f64_round (q < 0) \<bar>q\<bar>"

definition f64_of_int :: "int \<Rightarrow> f64" where
  "f64_of_int i = f64_of (of_int i)"

text \<open>\<open>x as i64\<close>: truncation, saturating at the ends, 0 for NaN.\<close>

fun f64_to_i64 :: "f64 \<Rightarrow> int" where
  "f64_to_i64 NaN = 0"
| "f64_to_i64 (Inf neg) = (if neg then i64_min else i64_max)"
| "f64_to_i64 (Fin neg q) =
     (let t = (if neg then - \<lfloor>q\<rfloor> else \<lfloor>q\<rfloor>) in max i64_min (min i64_max t))"

fun f64_lt :: "f64 \<Rightarrow> f64 \<Rightarrow> bool" where
  "f64_lt NaN _ = False"
| "f64_lt _ NaN = False"
| "f64_lt (Inf a) (Inf b) = (a \<and> \<not> b)"
| "f64_lt (Inf a) (Fin _ _) = a"
| "f64_lt (Fin _ _) (Inf b) = (\<not> b)"
| "f64_lt (Fin a p) (Fin b q) = (f64_val (Fin a p) < f64_val (Fin b q))"

fun f64_eq :: "f64 \<Rightarrow> f64 \<Rightarrow> bool" where
  "f64_eq (Inf a) (Inf b) = (a = b)"
| "f64_eq (Fin a p) (Fin b q) = (f64_val (Fin a p) = f64_val (Fin b q))"
| "f64_eq _ _ = False"

definition f64_le :: "f64 \<Rightarrow> f64 \<Rightarrow> bool" where
  "f64_le x y \<longleftrightarrow> f64_lt x y \<or> f64_eq x y"

fun f64_is_nan :: "f64 \<Rightarrow> bool" where
  "f64_is_nan NaN = True"
| "f64_is_nan _ = False"

section \<open>Lemmas\<close>

lemma floor_lt_iff_rat: "\<lfloor>q :: rat\<rfloor> < n \<longleftrightarrow> q < of_int n"
  by (rule floor_less_iff)

lemma round_even_of_int [simp]: "round_even (of_int n) = n"
  by (simp add: round_even_def)

lemma round_even_0 [simp]: "round_even 0 = 0"
  using round_even_of_int [of 0] by simp

lemma round_even_nonneg: "0 \<le> q \<Longrightarrow> 0 \<le> round_even q"
  by (auto simp: round_even_def Let_def)

text \<open>Rounding moves a rational by at most one half.\<close>

lemma round_even_near: "\<bar>of_int (round_even q) - q\<bar> \<le> 1 / 2"
proof -
  have "of_int \<lfloor>q\<rfloor> \<le> q" "q < of_int \<lfloor>q\<rfloor> + 1"
    using floor_correct [of q] by simp_all
  then show ?thesis by (auto simp: round_even_def Let_def)
qed

lemma f64_to_i64_range: "i64_min \<le> f64_to_i64 x \<and> f64_to_i64 x \<le> i64_max"
  by (cases x) (auto simp: Let_def)

text \<open>Comparison is a strict order, and trichotomous away from NaN.\<close>

lemma f64_lt_trans: "f64_lt x y \<Longrightarrow> f64_lt y z \<Longrightarrow> f64_lt x z"
  by (cases x; cases y; cases z) (auto split: if_splits)

lemma f64_trichotomy: "\<not> f64_is_nan x \<Longrightarrow> \<not> f64_is_nan y \<Longrightarrow> f64_lt x y \<or> f64_eq x y \<or> f64_lt y x"
  by (cases x; cases y) auto

lemma f64_nan_incomparable: "f64_is_nan x \<Longrightarrow> \<not> f64_le x y \<and> \<not> f64_le y x"
  by (cases x; cases y) (auto simp: f64_le_def)

text \<open>What \<open>{:.2}\<close> prints for a finite value: digits, a point, two digits, behind a sign.\<close>

lemma all_digits_append: "ds \<noteq> [] \<Longrightarrow> all_digits ds \<Longrightarrow> all_digits (ds @ es) \<longleftrightarrow> list_all is_ascii_digit es"
  by (auto simp: all_digits_def)

lemma two_digits_digits: "n < 100 \<Longrightarrow> list_all is_ascii_digit (two_digits n)"
  by (simp add: two_digits_def)

lemma takeWhile_digits:
  "list_all is_ascii_digit ds \<Longrightarrow> r = [] \<or> \<not> is_ascii_digit (hd r) \<Longrightarrow>
   takeWhile is_ascii_digit (ds @ r) = ds \<and> dropWhile is_ascii_digit (ds @ r) = r"
  by (induction ds) (cases r, auto)

lemma parse_decimal_plain:
  assumes "list_all is_ascii_digit a" "list_all is_ascii_digit b" "a \<noteq> []"
  shows "parse_decimal (a @ CHR ''.'' # b) = Some (of_nat (digits_val (a @ b)) * pow10 (- int (length b)))"
proof -
  have "\<not> is_ascii_digit (CHR ''.'')"
    by (simp add: is_ascii_digit_def)
  then have a: "takeWhile is_ascii_digit (a @ CHR ''.'' # b) = a"
    "dropWhile is_ascii_digit (a @ CHR ''.'' # b) = CHR ''.'' # b"
    using takeWhile_digits [OF assms(1), of "CHR ''.'' # b"] by simp_all
  have b: "takeWhile is_ascii_digit b = b" "dropWhile is_ascii_digit b = []"
    using assms(2) by (auto simp: list_all_iff)
  show ?thesis
    using assms(3) by (simp add: parse_decimal_def a b)
qed

end
