(* ===== verification/Value.thy ===== *)
theory Value
  imports Errors Escape Float64 "HOL-Library.Word"
begin

text \<open>
  \<open>value.rs\<close>: the values of UPS variables and their inference from text. \<open>Int\<close> carries an \<open>i64\<close>;
  the model keeps it as an \<open>int\<close>, and every constructor of the crate yields one in range
  (\<open>infer_from_valid\<close>, \<open>infer_number_from_valid\<close>). The conversions into \<open>Value\<close> from the integer
  types narrower than \<open>i64\<close> are inclusions; the one from \<open>u64\<close> wraps.
\<close>

section \<open>Values\<close>

datatype nut_value = V_Float f64 | V_Int int | V_String string

datatype inferred_type = I_Int | I_Float | I_String

fun is_numeric :: "nut_value \<Rightarrow> bool" where
  "is_numeric (V_Float _) = True"
| "is_numeric (V_Int _) = True"
| "is_numeric (V_String _) = False"

fun is_text :: "nut_value \<Rightarrow> bool" where
  "is_text (V_String _) = True"
| "is_text _ = False"

fun as_escaped_str :: "nut_value \<Rightarrow> cow option" where
  "as_escaped_str (V_Float num) = Some (Owned (show_f64_2 num))"
| "as_escaped_str (V_Int num) = Some (Owned (show_int num))"
| "as_escaped_str (V_String text) = escape_nut_str text"

fun as_str :: "nut_value \<Rightarrow> cow" where
  "as_str (V_Float num) = Owned (show_f64_2 num)"
| "as_str (V_Int num) = Owned (show_int num)"
| "as_str (V_String text) = Borrowed text"

fun as_lossly_i64 :: "nut_value \<Rightarrow> int option" where
  "as_lossly_i64 (V_Float num) = Some (f64_to_i64 num)"
| "as_lossly_i64 (V_Int num) = Some num"
| "as_lossly_i64 (V_String _) = None"

fun as_lossly_f64 :: "nut_value \<Rightarrow> f64 option" where
  "as_lossly_f64 (V_Float num) = Some num"
| "as_lossly_f64 (V_Int num) = Some (f64_of_int num)"
| "as_lossly_f64 (V_String _) = None"

text \<open>The derived \<open>PartialEq\<close>: floats compare as \<open>f64\<close>, so NaN differs from itself.\<close>

fun value_eq :: "nut_value \<Rightarrow> nut_value \<Rightarrow> bool" where
  "value_eq (V_Float a) (V_Float b) = f64_eq a b"
| "value_eq (V_Int a) (V_Int b) = (a = b)"
| "value_eq (V_String a) (V_String b) = (a = b)"
| "value_eq _ _ = False"

text \<open>\<open>Value::from(v: u64)\<close>, that is \<open>v as i64\<close>.\<close>

definition value_from_u64 :: "64 word \<Rightarrow> nut_value" where
  "value_from_u64 v = V_Int (sint v)"

section \<open>Inference\<close>

fun infer_rest :: "inferred_type \<Rightarrow> string \<Rightarrow> inferred_type" where
  "infer_rest inferred [] = inferred"
| "infer_rest inferred (b # rest) =
     (if b = CHR ''.'' \<and> inferred = I_Int then infer_rest I_Float rest
      else if is_ascii_digit b then infer_rest inferred rest
      else I_String)"

definition infer_type :: "string \<Rightarrow> inferred_type" where
  "infer_type input =
     (case input of
        [] \<Rightarrow> I_String
      | c # rest \<Rightarrow>
          if c = CHR ''-'' then infer_rest I_Int rest
          else if c = CHR ''0'' then
            (case rest of
               [] \<Rightarrow> I_Int
             | d # rest' \<Rightarrow> if d = CHR ''.'' then infer_rest I_Float rest' else I_String)
          else if is_ascii_digit c then infer_rest I_Int rest
          else I_String)"

definition infer_from :: "string \<Rightarrow> nut_value" where
  "infer_from s =
     (case infer_type s of
        I_Int \<Rightarrow> (case parse_i64 s of None \<Rightarrow> V_String s | Some v \<Rightarrow> V_Int v)
      | I_Float \<Rightarrow> (case parse_f64 s of None \<Rightarrow> V_String s | Some v \<Rightarrow> V_Float v)
      | I_String \<Rightarrow> V_String s)"

definition infer_number_from :: "string \<Rightarrow> number_parse_error + nut_value" where
  "infer_number_from s =
     (if CHR ''.'' \<in> set s then
        (case parse_f64 s of Some v \<Rightarrow> Inr (V_Float v) | None \<Rightarrow> Inl NumberParseError)
      else
        (case parse_i64 s of Some v \<Rightarrow> Inr (V_Int v) | None \<Rightarrow> Inl NumberParseError))"

section \<open>Lemmas\<close>

text \<open>Well-formed values: the integer fits \<open>i64\<close>.\<close>

fun value_ok :: "nut_value \<Rightarrow> bool" where
  "value_ok (V_Int i) = (i64_min \<le> i \<and> i \<le> i64_max)"
| "value_ok _ = True"

lemma infer_from_valid: "value_ok (infer_from s)"
  using parse_i64_range [of s]
  by (auto simp: infer_from_def split: inferred_type.splits option.splits)

lemma infer_number_from_valid: "infer_number_from s = Inr v \<Longrightarrow> value_ok v \<and> is_numeric v"
  using parse_i64_range [of s] by (auto simp: infer_number_from_def split: if_splits option.splits)

lemma infer_rest_digits: "list_all is_ascii_digit ds \<Longrightarrow> infer_rest t (ds @ r) = infer_rest t r"
proof (induction ds)
  case (Cons c ds)
  then have "c \<noteq> CHR ''.''" by (auto simp: is_ascii_digit_def)
  then show ?case using Cons by simp
qed simp

lemma infer_rest_all_digits: "list_all is_ascii_digit ds \<Longrightarrow> infer_rest t ds = t"
  using infer_rest_digits [of ds t "[]"] by simp

lemma infer_rest_decimal:
  "list_all is_ascii_digit a \<Longrightarrow> list_all is_ascii_digit b \<Longrightarrow> infer_rest I_Int (a @ CHR ''.'' # b) = I_Float"
  by (simp add: infer_rest_digits infer_rest_all_digits)

lemma infer_type_show_int: "infer_type (show_int i) = I_Int"
proof (cases "i < 0")
  case True
  have "list_all is_ascii_digit (show_nat (nat (- i)))"
    using show_nat_digits by (simp add: all_digits_def)
  then show ?thesis
    using True infer_rest_all_digits by (simp add: show_int_def infer_type_def)
next
  case False
  obtain c r where "show_nat (nat i) = c # r" "list_all is_ascii_digit (c # r)" "c = CHR ''0'' \<longrightarrow> r = []"
    using show_nat_leading by blast
  then show ?thesis
    using False infer_rest_all_digits [of r] by (auto simp: show_int_def infer_type_def is_ascii_digit_def)
qed

lemma infer_type_decimal:
  assumes "list_all is_ascii_digit b"
  shows "infer_type (show_nat n @ CHR ''.'' # b) = I_Float"
    and "infer_type (CHR ''-'' # show_nat n @ CHR ''.'' # b) = I_Float"
proof -
  obtain c r where cr: "show_nat n = c # r" "list_all is_ascii_digit (c # r)" "c = CHR ''0'' \<longrightarrow> r = []"
    using show_nat_leading by blast
  then show "infer_type (show_nat n @ CHR ''.'' # b) = I_Float"
    using infer_rest_decimal [of r b] infer_rest_all_digits [OF assms] assms
    by (auto simp: infer_type_def is_ascii_digit_def)
  show "infer_type (CHR ''-'' # show_nat n @ CHR ''.'' # b) = I_Float"
    using cr infer_rest_decimal [of "c # r" b] assms by (simp add: infer_type_def)
qed

text \<open>The value of a two-decimal text: the number of hundredths.\<close>

lemma digits_val_two: "n < 100 \<Longrightarrow> digits_val (ds @ two_digits n) = digits_val ds * 100 + n"
  by (simp add: two_digits_def digits_val_def)

lemma not_special:
  assumes "is_ascii_digit c"
  shows "\<not> eq_ignore_ascii_case (c # r) ''inf''" "\<not> eq_ignore_ascii_case (c # r) ''infinity''"
    "\<not> eq_ignore_ascii_case (c # r) ''nan''"
proof -
  have "to_ascii_lower c = c" using assms by (simp add: to_ascii_lower_def is_ascii_digit_def is_ascii_uppercase_def)
  moreover have "c \<noteq> CHR ''i''" "c \<noteq> CHR ''n''" using assms by (auto simp: is_ascii_digit_def)
  ultimately show "\<not> eq_ignore_ascii_case (c # r) ''inf''" "\<not> eq_ignore_ascii_case (c # r) ''infinity''"
    "\<not> eq_ignore_ascii_case (c # r) ''nan''"
    by (simp_all add: eq_ignore_ascii_case_def to_ascii_lowercase_def to_ascii_lower_def is_ascii_uppercase_def)
qed

lemma parse_f64_unsigned_two:
  assumes "n < 100"
  shows "parse_f64_unsigned neg (show_nat m @ CHR ''.'' # two_digits n) =
    Some (f64_round neg (of_nat (m * 100 + n) / 100))"
proof -
  obtain c r where cr: "show_nat m = c # r" "list_all is_ascii_digit (c # r)"
    using show_nat_leading by blast
  have "digits_val (show_nat m @ two_digits n) = m * 100 + n"
    using digits_val_two [OF assms, of "show_nat m"] by simp
  moreover have "length (two_digits n) = 2" "show_nat m \<noteq> []" "list_all is_ascii_digit (show_nat m)"
    using cr by (simp_all add: two_digits_def)
  ultimately have "parse_decimal (show_nat m @ CHR ''.'' # two_digits n) =
      Some (of_nat (m * 100 + n) * pow10 (- 2))"
    using parse_decimal_plain [of "show_nat m" "two_digits n"] two_digits_digits [OF assms] by simp
  then show ?thesis
    using cr not_special [of c] by (simp add: parse_f64_unsigned_def pow10_def)
qed

lemma parse_f64_two:
  assumes "n < 100"
  shows "parse_f64 (show_nat m @ CHR ''.'' # two_digits n) = Some (f64_round False (of_nat (m * 100 + n) / 100))"
    and "parse_f64 (CHR ''-'' # show_nat m @ CHR ''.'' # two_digits n) = Some (f64_round True (of_nat (m * 100 + n) / 100))"
proof -
  obtain c r where cr: "show_nat m = c # r" "c \<noteq> CHR ''+''" "c \<noteq> CHR ''-''"
    using show_nat_hd_digit [of m] digit_not_sign by blast
  show "parse_f64 (show_nat m @ CHR ''.'' # two_digits n) = Some (f64_round False (of_nat (m * 100 + n) / 100))"
    using parse_f64_unsigned_two [OF assms, of False m] cr by (simp add: parse_f64_def)
  show "parse_f64 (CHR ''-'' # show_nat m @ CHR ''.'' # two_digits n) = Some (f64_round True (of_nat (m * 100 + n) / 100))"
    using parse_f64_unsigned_two [OF assms, of True m] by (simp add: parse_f64_def)
qed

lemma infer_from_show_f64:
  "0 \<le> q \<Longrightarrow> infer_from (show_f64_2 (Fin neg q)) = V_Float (f64_round neg (of_int (round_even (q * 100)) / 100))"
proof -
  assume q: "0 \<le> q"
  let ?n = "nat (round_even (q * 100))"
  have n: "0 \<le> round_even (q * 100)" using q by (simp add: round_even_nonneg)
  have "of_nat (?n div 100 * 100 + ?n mod 100) = (of_int (round_even (q * 100)) :: rat)"
    using n by (simp only: div_mult_mod_eq of_nat_nat)
  then show ?thesis
    using infer_type_decimal [OF two_digits_digits, of "?n mod 100" "?n div 100"]
      parse_f64_two [of "?n mod 100" "?n div 100"]
    by (cases neg) (simp_all add: infer_from_def Let_def)
qed

section \<open>Properties\<close>

text \<open>Printing a value and inferring it again. An integer comes back unchanged over the whole
  \<open>i64\<close> range; a finite float stays a float, equal to the nearest double of the value rounded to
  hundredths, ties to even; a text that does not look like a number stays that text. So a value
  that goes to the server and comes back keeps its kind.\<close>

theorem value_print_infer:
  assumes "value_ok v" and "case v of V_Float (Fin _ q) \<Rightarrow> 0 \<le> q | V_Float _ \<Rightarrow> False | V_String t \<Rightarrow> infer_type t = I_String | V_Int _ \<Rightarrow> True"
  shows "infer_from (cow_str (as_str v)) =
    (case v of
       V_Float (Fin neg q) \<Rightarrow> V_Float (f64_round neg (of_int (round_even (q * 100)) / 100))
     | _ \<Rightarrow> v)"
proof (cases v)
  case (V_Float x)
  then obtain neg q where "x = Fin neg q" "0 \<le> q" using assms(2) by (cases x) auto
  then show ?thesis using V_Float infer_from_show_f64 [of q neg] by simp
next
  case (V_Int i)
  then show ?thesis
    using assms(1) parse_i64_show_int [of i] infer_type_show_int [of i] by (simp add: infer_from_def)
next
  case (V_String t)
  then show ?thesis using assms(2) by (simp add: infer_from_def)
qed

theorem value_print_infer_witness:
  "infer_from (cow_str (as_str (V_Int (- 42)))) = V_Int (- 42)
   \<and> infer_from (cow_str (as_str (V_String ''enabled''))) = V_String ''enabled''"
proof -
  have "infer_type ''enabled'' = I_String" by code_simp
  then show ?thesis
    using value_print_infer [of "V_Int (- 42)"] value_print_infer [of "V_String ''enabled''"] by simp
qed

end
