(* ===== verification/Parser.thy ===== *)
theory Parser
  imports Lexer Names Value
begin

text \<open>
  \<open>internal/parser_utils.rs\<close>: the extractors on top of the lexer and the \<open>parse_line!\<close> macro. The
  macro unfolds a list of syntax items into a chain of extractor calls that stops at the first
  error; here the syntax items are a datatype and the macro is the function \<open>parse_line\<close>, which
  returns the captures in order (the source's tuple). The list responses share the loop
  \<open>while let Some(keyword) = lexer.peek_as_str()\<close>, the function \<open>parse_list_loop\<close>.
\<close>

section \<open>Extractors\<close>

definition parse_err :: "parse_error \<Rightarrow> lexer \<Rightarrow> fault + 'a" where
  "parse_err inner lx = Inl (Err (ParseError inner (lx_pos lx)))"

definition extract_text :: "lexer \<Rightarrow> fault + (string \<times> lexer)" where
  "extract_text lexer =
     bind_res (next_token lexer) (\<lambda>(t, lx).
       case t of
         Some (Tok_Text s e) \<Rightarrow> bind_res (extract_from_token lx (Tok_Text s e)) (\<lambda>x. Inr (x, lx))
       | Some _ \<Rightarrow> parse_err InvalidToken lx
       | None \<Rightarrow> parse_err ExpectedTextToken lx)"

definition extract_quoted_text :: "lexer \<Rightarrow> fault + (string \<times> lexer)" where
  "extract_quoted_text lexer =
     bind_res (next_token lexer) (\<lambda>(t, lx).
       case t of
         Some (Tok_QuotedText s e) \<Rightarrow>
           bind_res (extract_from_token lx (Tok_QuotedText s e)) (\<lambda>x. Inr (x, lx))
       | Some _ \<Rightarrow> parse_err InvalidToken lx
       | None \<Rightarrow> parse_err ExpectedDoubleQuotedTextToken lx)"

definition extract_value :: "lexer \<Rightarrow> fault + (nut_value \<times> lexer)" where
  "extract_value lexer =
     bind_res (extract_quoted_text lexer) (\<lambda>(x, lx). Inr (infer_from x, lx))"

definition extract_numeric_value :: "lexer \<Rightarrow> fault + (nut_value \<times> lexer)" where
  "extract_numeric_value lexer =
     bind_res (extract_quoted_text lexer) (\<lambda>(x, lx).
       case infer_number_from x of
         Inr v \<Rightarrow> Inr (v, lx)
       | Inl _ \<Rightarrow> parse_err InvalidNumber lx)"

text \<open>The three name extractors differ in the constructor, in the error they wrap its failure
  in and in the error at the end of input.\<close>

definition extract_name ::
    "(string \<Rightarrow> 'e + 'n) \<Rightarrow> ('e \<Rightarrow> parse_error) \<Rightarrow> parse_error \<Rightarrow> lexer \<Rightarrow> fault + ('n \<times> lexer)" where
  "extract_name try_from wrap at_end lexer =
     bind_res (next_token lexer) (\<lambda>(t, lx).
       case t of
         Some (Tok_Text s e) \<Rightarrow>
           bind_res (extract_from_token lx (Tok_Text s e)) (\<lambda>name.
             case try_from name of
               Inr n \<Rightarrow> Inr (n, lx)
             | Inl err \<Rightarrow> parse_err (wrap err) lx)
       | Some _ \<Rightarrow> parse_err InvalidToken lx
       | None \<Rightarrow> parse_err at_end lx)"

definition extract_ups_name :: "lexer \<Rightarrow> fault + (ups_name \<times> lexer)" where
  "extract_ups_name = extract_name ups_name_new PE_UpsName ExpectedDoubleQuotedTextToken"

definition extract_cmd_name :: "lexer \<Rightarrow> fault + (cmd_name \<times> lexer)" where
  "extract_cmd_name = extract_name cmd_name_new PE_CmdName ExpectedTextToken"

definition extract_var_name :: "lexer \<Rightarrow> fault + (var_name \<times> lexer)" where
  "extract_var_name = extract_name var_name_new PE_VarName ExpectedTextToken"

definition cmp_literal :: "string \<Rightarrow> lexer \<Rightarrow> fault + lexer" where
  "cmp_literal cmp lexer =
     bind_res (next_token lexer) (\<lambda>(t, lx).
       case t of
         Some (Tok_Text s e) \<Rightarrow>
           bind_res (extract_from_token lx (Tok_Text s e)) (\<lambda>name.
             if cmp = name then Inr lx else parse_err InvalidToken lx)
       | Some _ \<Rightarrow> parse_err InvalidToken lx
       | None \<Rightarrow> parse_err ExpectedTextToken lx)"

definition end_parser :: "lexer \<Rightarrow> fault + lexer" where
  "end_parser lexer =
     bind_res (next_token lexer) (\<lambda>(t, lx).
       case t of
         Some Tok_LF \<Rightarrow> skip_whitespaces lx
       | Some _ \<Rightarrow> parse_err InvalidToken lx
       | None \<Rightarrow> Inr lx)"

section \<open>Lines\<close>

datatype rule =
    Lit string | Ups | Cmd | Var | Text_Cmp string | Text | Text_Cap | Quoted | Quoted_Cap
  | Value | Num_Value

datatype capture = Cap_Ups ups_name | Cap_Cmd cmd_name | Cap_Var var_name | Cap_Text string | Cap_Value nut_value

fun parse_rule :: "rule \<Rightarrow> lexer \<Rightarrow> fault + (capture list \<times> lexer)" where
  "parse_rule (Lit w) lx = bind_res (cmp_literal w lx) (\<lambda>lx. Inr ([], lx))"
| "parse_rule (Text_Cmp w) lx = bind_res (cmp_literal w lx) (\<lambda>lx. Inr ([], lx))"
| "parse_rule Ups lx = bind_res (extract_ups_name lx) (\<lambda>(n, lx). Inr ([Cap_Ups n], lx))"
| "parse_rule Cmd lx = bind_res (extract_cmd_name lx) (\<lambda>(n, lx). Inr ([Cap_Cmd n], lx))"
| "parse_rule Var lx = bind_res (extract_var_name lx) (\<lambda>(n, lx). Inr ([Cap_Var n], lx))"
| "parse_rule Text lx = bind_res (extract_text lx) (\<lambda>(x, lx). Inr ([], lx))"
| "parse_rule Text_Cap lx = bind_res (extract_text lx) (\<lambda>(x, lx). Inr ([Cap_Text x], lx))"
| "parse_rule Quoted lx = bind_res (extract_quoted_text lx) (\<lambda>(x, lx). Inr ([], lx))"
| "parse_rule Quoted_Cap lx = bind_res (extract_quoted_text lx) (\<lambda>(x, lx). Inr ([Cap_Text x], lx))"
| "parse_rule Value lx = bind_res (extract_value lx) (\<lambda>(v, lx). Inr ([Cap_Value v], lx))"
| "parse_rule Num_Value lx = bind_res (extract_numeric_value lx) (\<lambda>(v, lx). Inr ([Cap_Value v], lx))"

fun parse_line :: "rule list \<Rightarrow> lexer \<Rightarrow> fault + (capture list \<times> lexer)" where
  "parse_line [] lx = bind_res (end_parser lx) (\<lambda>lx. Inr ([], lx))"
| "parse_line (r # rs) lx =
     bind_res (parse_rule r lx) (\<lambda>(cs, lx).
       bind_res (parse_line rs lx) (\<lambda>(ds, lx). Inr (cs @ ds, lx)))"

section \<open>Progress\<close>

text \<open>An operation that keeps the buffer and never moves the head back; a strict one moves it
  forward.\<close>

definition forward :: "lexer \<Rightarrow> lexer \<Rightarrow> bool" where
  "forward lx lx' \<longleftrightarrow> lx_buffer lx' = lx_buffer lx \<and> read_head lx \<le> read_head lx'
     \<and> read_head lx' \<le> length (lx_buffer lx)"

definition strictly_forward :: "lexer \<Rightarrow> lexer \<Rightarrow> bool" where
  "strictly_forward lx lx' \<longleftrightarrow> forward lx lx' \<and> read_head lx < read_head lx'"

lemma forward_trans: "forward a b \<Longrightarrow> forward b c \<Longrightarrow> forward a c"
  by (auto simp: forward_def)

lemma strictly_forward_trans: "strictly_forward a b \<Longrightarrow> forward b c \<Longrightarrow> strictly_forward a c"
  by (auto simp: strictly_forward_def forward_def)

lemma next_token_forward: "next_token lx = Inr (t, lx') \<Longrightarrow> forward lx lx'"
  using next_token_bounds [of lx t lx']
  by (cases "(read_head lx, read_head lx', t)" rule: token_range.cases) (auto simp: forward_def)

lemma next_token_strict: "next_token lx = Inr (Some tok, lx') \<Longrightarrow> strictly_forward lx lx'"
  using next_token_bounds [of lx "Some tok" lx']
  by (cases tok) (auto simp: forward_def strictly_forward_def)

lemma skip_whitespaces_loop_forward:
  "lx_buffer (skip_whitespaces_loop bs lx) = lx_buffer lx
   \<and> read_head (skip_whitespaces_loop bs lx) = read_head lx + length (takeWhile is_ascii_whitespace bs)"
  by (induction bs lx rule: skip_whitespaces_loop.induct) (auto simp: is_ascii_whitespace_def)

lemma skip_whitespaces_forward: "skip_whitespaces lx = Inr lx' \<Longrightarrow> forward lx lx'"
  using skip_whitespaces_loop_forward [of "drop (read_head lx) (lx_buffer lx)" lx]
    length_takeWhile_le [of is_ascii_whitespace "drop (read_head lx) (lx_buffer lx)"]
  by (auto simp: skip_whitespaces_def bind_res_eq_Inr bytes_from_Inr forward_def)

named_theorems extractor_defs

lemmas [extractor_defs] = extract_text_def extract_quoted_text_def extract_value_def
  extract_numeric_value_def extract_name_def extract_ups_name_def extract_cmd_name_def
  extract_var_name_def cmp_literal_def parse_err_def

lemma parse_rule_strict: "parse_rule r lx = Inr (cs, lx') \<Longrightarrow> strictly_forward lx lx'"
  by (cases r; auto simp: extractor_defs elim!: bind_resE
      split: option.split_asm token.split_asm sum.split_asm if_split_asm; erule next_token_strict)

lemma end_parser_forward: "end_parser lx = Inr lx' \<Longrightarrow> forward lx lx'"
  by (auto simp: end_parser_def parse_err_def split: option.split_asm token.split_asm
      elim!: bind_resE dest!: skip_whitespaces_forward next_token_forward intro: forward_trans)

lemma parse_line_forward: "parse_line rs lx = Inr (cs, lx') \<Longrightarrow> forward lx lx'"
proof (induction rs arbitrary: lx cs)
  case Nil
  then show ?case by (auto simp: bind_res_eq_Inr end_parser_forward)
next
  case (Cons r rs)
  then obtain cs1 lx1 ds where p: "parse_rule r lx = Inr (cs1, lx1)" "parse_line rs lx1 = Inr (ds, lx')"
    by (auto simp: bind_res_eq_Inr)
  then show ?case
    using Cons.IH [OF p(2)] parse_rule_strict [OF p(1)] forward_trans strictly_forward_def by blast
qed

lemma parse_line_strict: "parse_line (r # rs) lx = Inr (cs, lx') \<Longrightarrow> strictly_forward lx lx'"
  by (auto simp: bind_res_eq_Inr dest!: parse_rule_strict parse_line_forward intro: strictly_forward_trans)

lemma parse_line_decreases:
  "parse_line (r # rs) lx = Inr (cs, lx') \<Longrightarrow>
   length (lx_buffer lx') - read_head lx' < length (lx_buffer lx) - read_head lx"
  using parse_line_strict [of r rs lx cs lx'] by (auto simp: strictly_forward_def forward_def)

section \<open>The list loop\<close>

text \<open>\<open>while let Some(keyword) = lexer.peek_as_str() { parse_line!(lexer, keyword rules); .. }\<close>. The
  rules of a line follow the keyword. \<open>step\<close> turns the captures into an element and may fail.
  The source has no explicit bound; the loop ends because a line that parses moves the head.\<close>

function parse_list_loop ::
    "string \<Rightarrow> rule list \<Rightarrow> (capture list \<Rightarrow> lexer \<Rightarrow> fault + 'a) \<Rightarrow> lexer \<Rightarrow> fault + ('a list \<times> lexer)" where
  "parse_list_loop keyword rules step lx =
     bind_res (peek_as_str lx) (\<lambda>p.
       if p = Some keyword then
         (case parse_line (Lit keyword # rules) lx of
            Inl e \<Rightarrow> Inl e
          | Inr (cs, lx') \<Rightarrow>
              bind_res (step cs lx') (\<lambda>x.
                bind_res (parse_list_loop keyword rules step lx') (\<lambda>(xs, lx'').
                  Inr (x # xs, lx''))))
       else Inr ([], lx))"
  by pat_completeness auto
termination
  by (relation "measure (\<lambda>(k, rs, st, lx). length (lx_buffer lx) - read_head lx)")
    (simp, clarsimp simp del: parse_line.simps, erule parse_line_decreases)

declare parse_list_loop.simps [simp del]

section \<open>Accepted lines\<close>

text \<open>A line as the server writes it: words and quoted texts with one space between.\<close>

datatype piece = Word string | Quote string

fun piece_text :: "piece \<Rightarrow> string" where
  "piece_text (Word w) = w"
| "piece_text (Quote s) = DQ # escape_ref s @ [DQ]"

fun piece_ok :: "piece \<Rightarrow> bool" where
  "piece_ok (Word w) = is_word w"
| "piece_ok (Quote s) = no_orphan True s"

fun line_text :: "bool \<Rightarrow> piece list \<Rightarrow> string" where
  "line_text _ [] = []"
| "line_text sp (p # ps) = (if sp then '' '' else []) @ piece_text p @ line_text True ps"

text \<open>What a syntax item captures from a piece.\<close>

fun accepts :: "rule \<Rightarrow> piece \<Rightarrow> capture list option" where
  "accepts (Lit l) (Word w) = (if l = w then Some [] else None)"
| "accepts (Text_Cmp l) (Word w) = (if l = w then Some [] else None)"
| "accepts Ups (Word w) = (case ups_name_new w of Inr n \<Rightarrow> Some [Cap_Ups n] | Inl _ \<Rightarrow> None)"
| "accepts Cmd (Word w) = (case cmd_name_new w of Inr n \<Rightarrow> Some [Cap_Cmd n] | Inl _ \<Rightarrow> None)"
| "accepts Var (Word w) = (case var_name_new w of Inr n \<Rightarrow> Some [Cap_Var n] | Inl _ \<Rightarrow> None)"
| "accepts Text (Word w) = Some []"
| "accepts Text_Cap (Word w) = Some [Cap_Text w]"
| "accepts Quoted (Quote s) = Some []"
| "accepts Quoted_Cap (Quote s) = Some [Cap_Text s]"
| "accepts Value (Quote s) = Some [Cap_Value (infer_from s)]"
| "accepts Num_Value (Quote s) =
     (case infer_number_from s of Inr v \<Rightarrow> Some [Cap_Value v] | Inl _ \<Rightarrow> None)"
| "accepts _ _ = None"

fun accepts_line :: "rule list \<Rightarrow> piece list \<Rightarrow> capture list option" where
  "accepts_line [] [] = Some []"
| "accepts_line (r # rs) (p # ps) =
     (case accepts r p of
        None \<Rightarrow> None
      | Some cs \<Rightarrow> map_option (\<lambda>ds. cs @ ds) (accepts_line rs ps))"
| "accepts_line _ _ = None"

lemma next_token_space: "bytes_from lx = Inr (CHR '' '' # r) \<Longrightarrow> next_token lx = next_token (move_read_head 1 lx)"
  by (erule next_token_ws) (simp_all add: is_ascii_whitespace_def)

lemma line_text_at_break: "at_break (line_text True ps @ LF # rest)"
  by (cases ps) (simp_all add: at_break_def is_ascii_whitespace_def)

text \<open>The token that stands for a piece, with the text it extracts to.\<close>

lemma next_token_piece:
  assumes "bytes_from lx = Inr (piece_text p @ r)" "piece_ok p" "at_break r"
  shows "\<exists>tok lx'. next_token lx = Inr (Some tok, lx') \<and> bytes_from lx' = Inr r
    \<and> lx_buffer lx' = lx_buffer lx
    \<and> (case p of Word w \<Rightarrow> \<exists>s e. tok = Tok_Text s e \<and> slice_or_panic (lx_buffer lx) s e = Inr w
              | Quote s \<Rightarrow> (\<exists>a b. tok = Tok_QuotedText a b) \<and> extract_from_token lx' tok = Inr s)"
proof (cases p)
  case (Word w)
  then have b: "bytes_from lx = Inr (w @ r)" and w: "is_word w" using assms(1,2) by simp_all
  show ?thesis
    using next_token_word [OF b w assms(3)] extract_word [OF b w assms(3), of lx] bytes_from_move [OF b] Word
    by simp
next
  case (Quote s)
  then have b: "bytes_from lx = Inr (DQ # escape_ref s @ DQ # r)" and s: "no_orphan True s"
    using assms(1,2) by simp_all
  have "bytes_from (move_read_head (length (escape_ref s) + 2) lx) = Inr r"
    using bytes_from_move [of lx "DQ # escape_ref s @ [DQ]" r] b by simp
  then show ?thesis
    using next_token_quoted [OF b escape_ref_body] extract_escaped [OF b s, of "move_read_head (length (escape_ref s) + 2) lx"] Quote
    by simp
qed

lemma parse_rule_accepts:
  assumes "bytes_from lx = Inr ((if sp then '' '' else []) @ piece_text p @ r)" "piece_ok p" "at_break r"
    "accepts ru p = Some cs"
  shows "\<exists>lx'. parse_rule ru lx = Inr (cs, lx') \<and> bytes_from lx' = Inr r"
proof -
  obtain lx0 where b: "bytes_from lx0 = Inr (piece_text p @ r)" and n: "next_token lx = next_token lx0"
    using assms(1) bytes_from_move1 [of lx "CHR '' ''" "piece_text p @ r"] next_token_space by (cases sp) auto
  obtain tok lx' where t: "next_token lx = Inr (Some tok, lx')" "bytes_from lx' = Inr r"
    "lx_buffer lx' = lx_buffer lx0"
    "case p of Word w \<Rightarrow> \<exists>s e. tok = Tok_Text s e \<and> slice_or_panic (lx_buffer lx0) s e = Inr w
              | Quote s \<Rightarrow> (\<exists>a b. tok = Tok_QuotedText a b) \<and> extract_from_token lx' tok = Inr s"
    using next_token_piece [OF b assms(2,3)] n by auto
  show ?thesis
    using assms(4) t
    by (cases "(ru, p)" rule: accepts.cases) (auto simp: extractor_defs split: sum.splits if_splits)
qed

lemma skip_whitespaces_bytes:
  assumes "bytes_from lx = Inr bs"
  shows "\<exists>lx'. skip_whitespaces lx = Inr lx' \<and> bytes_from lx' = Inr (dropWhile is_ascii_whitespace bs)"
proof -
  have "bytes_from lx = Inr (takeWhile is_ascii_whitespace bs @ dropWhile is_ascii_whitespace bs)"
    using assms by simp
  then have "bytes_from (skip_whitespaces_loop bs lx) = Inr (dropWhile is_ascii_whitespace bs)"
    by (rule bytes_from_append) (simp_all add: skip_whitespaces_loop_forward)
  then show ?thesis using assms by (simp add: skip_whitespaces_def)
qed

lemma end_parser_LF:
  assumes "bytes_from lx = Inr (LF # rest)"
  shows "\<exists>lx'. end_parser lx = Inr lx' \<and> bytes_from lx' = Inr (dropWhile is_ascii_whitespace rest)"
proof -
  let ?lx = "lx\<lparr>read_head := read_head lx + 1, lx_pos := \<lparr>pos_line = pos_line (lx_pos lx) + 1, pos_col = 0\<rparr>\<rparr>"
  have "bytes_from ?lx = Inr rest"
    using bytes_from_append [of lx "[LF]" rest ?lx] assms by simp
  then show ?thesis
    using skip_whitespaces_bytes [of ?lx rest] next_token_LF [OF assms] by (simp add: end_parser_def)
qed

lemma parse_line_accepts:
  assumes "bytes_from lx = Inr (line_text sp ps @ LF # rest)" "list_all piece_ok ps" "accepts_line rs ps = Some cs"
  shows "\<exists>lx'. parse_line rs lx = Inr (cs, lx') \<and> bytes_from lx' = Inr (dropWhile is_ascii_whitespace rest)"
  using assms
proof (induction rs ps arbitrary: lx sp cs rule: accepts_line.induct)
  case 1
  then show ?case using end_parser_LF [of lx rest] by auto
next
  case (2 r rs p ps)
  then obtain c1 c2 where c: "accepts r p = Some c1" "accepts_line rs ps = Some c2" "cs = c1 @ c2"
    by (auto split: option.splits)
  obtain lx1 where l1: "parse_rule r lx = Inr (c1, lx1)" "bytes_from lx1 = Inr (line_text True ps @ LF # rest)"
    using parse_rule_accepts [of lx sp p "line_text True ps @ LF # rest" r c1] line_text_at_break "2.prems" c(1)
    by auto
  obtain lx2 where "parse_line rs lx1 = Inr (c2, lx2)" "bytes_from lx2 = Inr (dropWhile is_ascii_whitespace rest)"
    using "2.IH" [OF c(1) l1(2) _ c(2)] "2.prems"(2) by auto
  then show ?case using l1 c by simp
qed simp_all

end
