(* ===== verification/Std_Net.thy ===== *)
theory Std_Net
  imports Prelude
begin

text \<open>
  \<open>std::net::IpAddr\<close> and the parser behind its \<open>FromStr\<close>, which the client list response uses.
  A reader takes the remaining text and returns a value with the rest, or \<open>None\<close> and then the
  caller goes on from the text it had (\<open>read_atomically\<close>).
\<close>

datatype ip_addr = V4 "8 word list" | V6 "16 word list"

fun is_loopback :: "ip_addr \<Rightarrow> bool" where
  "is_loopback (V4 os) = (os \<noteq> [] \<and> hd os = 127)"
| "is_loopback (V6 gs) = (gs = [0, 0, 0, 0, 0, 0, 0, 1])"

text \<open>\<open>char::to_digit(16)\<close>; radix 10 uses its first ten values.\<close>

definition hex_digit :: "char \<Rightarrow> nat option" where
  "hex_digit c =
     (if is_ascii_digit c then Some (byte c - 48)
      else if 97 \<le> byte c \<and> byte c \<le> 102 then Some (byte c - 87)
      else if 65 \<le> byte c \<and> byte c \<le> 70 then Some (byte c - 55)
      else None)"

definition to_digit :: "nat \<Rightarrow> char \<Rightarrow> nat option" where
  "to_digit radix c = (case hex_digit c of Some d \<Rightarrow> if d < radix then Some d else None | None \<Rightarrow> None)"

fun read_digits :: "nat \<Rightarrow> nat \<Rightarrow> nat \<Rightarrow> nat \<Rightarrow> nat \<Rightarrow> string \<Rightarrow> ((nat \<times> nat) \<times> string) option" where
  "read_digits radix hi maxd acc cnt [] = Some ((acc, cnt), [])"
| "read_digits radix hi maxd acc cnt (c # r) =
     (case to_digit radix c of
        None \<Rightarrow> Some ((acc, cnt), c # r)
      | Some d \<Rightarrow>
          if acc * radix + d > hi then None
          else if cnt + 1 > maxd then None
          else read_digits radix hi maxd (acc * radix + d) (cnt + 1) r)"

definition read_number :: "nat \<Rightarrow> nat \<Rightarrow> nat \<Rightarrow> bool \<Rightarrow> string \<Rightarrow> (nat \<times> string) option" where
  "read_number radix hi maxd allow_zero_prefix s =
     (case read_digits radix hi maxd 0 0 s of
        None \<Rightarrow> None
      | Some ((v, cnt), r) \<Rightarrow>
          if cnt = 0 then None
          else if \<not> allow_zero_prefix \<and> hd s = CHR ''0'' \<and> cnt > 1 then None
          else Some (v, r))"

definition read_given_char :: "char \<Rightarrow> string \<Rightarrow> string option" where
  "read_given_char c s = (case s of [] \<Rightarrow> None | d # r \<Rightarrow> if d = c then Some r else None)"

definition read_separator :: "char \<Rightarrow> nat \<Rightarrow> (string \<Rightarrow> ('a \<times> string) option) \<Rightarrow> string \<Rightarrow> ('a \<times> string) option" where
  "read_separator sep index inner s =
     (if index > 0 then (case read_given_char sep s of None \<Rightarrow> None | Some r \<Rightarrow> inner r) else inner s)"

fun read_v4_groups :: "nat \<Rightarrow> nat \<Rightarrow> string \<Rightarrow> (nat list \<times> string) option" where
  "read_v4_groups 0 i s = Some ([], s)"
| "read_v4_groups (Suc n) i s =
     (case read_separator (CHR ''.'') i (read_number 10 255 3 False) s of
        None \<Rightarrow> None
      | Some (g, r) \<Rightarrow>
          (case read_v4_groups n (i + 1) r of None \<Rightarrow> None | Some (gs, r') \<Rightarrow> Some (g # gs, r')))"

definition read_ipv4_addr :: "string \<Rightarrow> (nat list \<times> string) option" where
  "read_ipv4_addr s = read_v4_groups 4 0 s"

text \<open>\<open>read_groups\<close>: at most \<open>n\<close> more groups; returns the groups, whether an embedded IPv4
  address ended them, and the rest.\<close>

fun read_groups :: "nat \<Rightarrow> nat \<Rightarrow> string \<Rightarrow> nat list \<times> bool \<times> string" where
  "read_groups 0 i s = ([], False, s)"
| "read_groups (Suc n) i s =
     (case (if n > 0 then read_separator (CHR '':'') i read_ipv4_addr s else None) of
        Some (os, r) \<Rightarrow>
          ([os ! 0 * 256 + os ! 1, os ! 2 * 256 + os ! 3], True, r)
      | None \<Rightarrow>
          (case read_separator (CHR '':'') i (read_number 16 65535 4 True) s of
             None \<Rightarrow> ([], False, s)
           | Some (g, r) \<Rightarrow> (case read_groups n (i + 1) r of (gs, v4, r') \<Rightarrow> (g # gs, v4, r'))))"

definition read_ipv6_addr :: "string \<Rightarrow> (nat list \<times> string) option" where
  "read_ipv6_addr s =
     (case read_groups 8 0 s of
        (head, head_v4, r) \<Rightarrow>
          if length head = 8 then Some (head, r)
          else if head_v4 then None
          else (case read_given_char (CHR '':'') r of
                  None \<Rightarrow> None
                | Some r1 \<Rightarrow>
                    (case read_given_char (CHR '':'') r1 of
                       None \<Rightarrow> None
                     | Some r2 \<Rightarrow>
                         (case read_groups (8 - (length head + 1)) 0 r2 of
                            (tail, _, r3) \<Rightarrow>
                              Some (head @ replicate (8 - length head - length tail) 0 @ tail, r3)))))"

definition parse_ip_addr :: "string \<Rightarrow> ip_addr option" where
  "parse_ip_addr s =
     (case read_ipv4_addr s of
        Some (os, r) \<Rightarrow> if r = [] then Some (V4 (map of_nat os)) else None
      | None \<Rightarrow>
          (case read_ipv6_addr s of
             Some (gs, r) \<Rightarrow> if r = [] then Some (V6 (map of_nat gs)) else None
           | None \<Rightarrow> None))"

text \<open>Displayed IPv4 addresses are read back.\<close>

fun show_v4 :: "8 word list \<Rightarrow> string" where
  "show_v4 [] = []"
| "show_v4 [o1] = show_nat (unat o1)"
| "show_v4 (o1 # os) = show_nat (unat o1) @ CHR ''.'' # show_v4 os"

lemma to_digit_digit: "is_ascii_digit c \<Longrightarrow> to_digit 10 c = Some (digit_val c)"
  by (auto simp: to_digit_def hex_digit_def digit_val_def is_ascii_digit_def)

lemma to_digit_dot [simp]: "to_digit 10 (CHR ''.'') = None"
  by (simp add: to_digit_def hex_digit_def is_ascii_digit_def)

lemma foldl_digits_ge: "acc \<le> foldl (\<lambda>acc c. acc * 10 + digit_val c) acc ds"
proof (induction ds arbitrary: acc)
  case (Cons c ds)
  show ?case using Cons [of "acc * 10 + digit_val c"] by simp
qed simp

lemma read_digits_number:
  assumes "list_all is_ascii_digit ds" "r = [] \<or> hd r = CHR ''.''"
    "foldl (\<lambda>acc c. acc * 10 + digit_val c) acc ds \<le> hi" "cnt + length ds \<le> maxd"
  shows "read_digits 10 hi maxd acc cnt (ds @ r) =
    Some ((foldl (\<lambda>acc c. acc * 10 + digit_val c) acc ds, cnt + length ds), r)"
  using assms
proof (induction ds arbitrary: acc cnt)
  case Nil
  then show ?case by (cases r) auto
next
  case (Cons c ds)
  have "acc * 10 + digit_val c \<le> hi"
    using Cons.prems(3) foldl_digits_ge [of "acc * 10 + digit_val c" ds] by simp
  then show ?case
    using Cons to_digit_digit [of c] by simp
qed

text \<open>A printed byte: at most three digits, and one digit when it starts with a zero.\<close>

lemma show_nat_byte:
  assumes "n \<le> 255"
  shows "length (show_nat n) \<le> 3 \<and> (hd (show_nat n) = CHR ''0'' \<longrightarrow> length (show_nat n) = 1)"
proof -
  have "show_nat n =
      (if n < 10 then [digit_char n]
       else if n < 100 then [digit_char (n div 10), digit_char (n mod 10)]
       else [digit_char (n div 10 div 10), digit_char (n div 10 mod 10), digit_char (n mod 10)])"
    using assms show_nat.simps [of n] show_nat.simps [of "n div 10"] show_nat.simps [of "n div 10 div 10"]
    by (simp; linarith)
  then show ?thesis
    using show_nat_leading [of n] by (auto split: if_splits)
qed

lemma read_number_byte:
  assumes "n \<le> 255" "r = [] \<or> hd r = CHR ''.''"
  shows "read_number 10 255 3 False (show_nat n @ r) = Some (n, r)"
proof -
  have d: "list_all is_ascii_digit (show_nat n)" "show_nat n \<noteq> []"
    using show_nat_digits [of n] by (auto simp: all_digits_def)
  have "read_digits 10 255 3 0 0 (show_nat n @ r) = Some ((n, length (show_nat n)), r)"
    using read_digits_number [OF d(1) assms(2), of 0 255 0 3] digits_val_show_nat [of n] assms(1)
      show_nat_byte [OF assms(1)] by (simp add: digits_val_def)
  then show ?thesis
    using show_nat_byte [OF assms(1)] d(2) by (simp add: read_number_def)
qed

lemma parse_show_v4: "parse_ip_addr (show_v4 [a, b, c, d]) = Some (V4 [a, b, c, d])"
proof -
  have four: "(4 :: nat) = Suc (Suc (Suc (Suc 0)))" by simp
  have le: "unat x \<le> 255" for x :: "8 word"
    using unsigned_less [of x, where ?'a = nat] by simp
  have "read_ipv4_addr (show_v4 [a, b, c, d]) = Some ([unat a, unat b, unat c, unat d], [])"
    unfolding read_ipv4_addr_def four
    by (simp add: read_separator_def read_given_char_def read_number_byte [OF le])
      (use read_number_byte [OF le, of "[]" d] in simp)
  then show ?thesis by (simp add: parse_ip_addr_def)
qed

end
