(* ===== verification/Response.thy ===== *)
theory Response
  imports Parser Std_Net
begin

text \<open>
  \<open>response/*.rs\<close> and \<open>ups_variables.rs\<close>: the deserializers of all upsd responses. Each takes the
  lexer that stands at the start of the response and returns the parsed structure or the error.
  The \<open>parse_line!\<close> macro types its captures, so the branch for captures of another shape cannot
  be reached; the model gives it \<open>Panic\<close>. The locale \<open>list_response\<close> is what the loop of a list
  response relies on; it is interpreted for all seven list responses.
\<close>

section \<open>Structures\<close>

record cmd_desc = cd_cmd :: cmd_name  cd_ups_name :: ups_name  cd_desc :: string
record ups_desc = ud_ups_name :: ups_name  ud_desc :: string
record ups_var = uv_value :: nut_value  uv_name :: var_name  uv_ups_name :: ups_name
record ups_var_desc = uvd_name :: var_name  uvd_desc :: string  uvd_ups_name :: ups_name
record ups_var_type = uvt_var_types :: "var_type list"  uvt_name :: var_name  uvt_ups_name :: ups_name
record client_list = cl_ups_name :: ups_name  cl_ips :: "ip_addr list"
record cmd_list = cml_ups_name :: ups_name  cml_cmds :: "cmd_name list"
record enum_list = el_name :: var_name  el_ups_name :: ups_name  el_values :: "nut_value list"
record range_list = rl_ups_name :: ups_name  rl_ranges :: "(nut_value \<times> nut_value) list"  rl_name :: var_name
record ups_device = dev_ups_name :: ups_name  dev_desc :: string

text \<open>\<open>UpsVariables\<close>, a wrapper of \<open>HashMap<VarName, Value>\<close>. The keys the parsers insert are
  canonical, so the map's key equality is equality.\<close>

type_synonym ups_variables = "var_name \<rightharpoonup> nut_value"

definition uv_insert :: "ups_variables \<Rightarrow> var_name \<Rightarrow> nut_value \<Rightarrow> ups_variables \<times> nut_value option" where
  "uv_insert vars n v = (vars(n \<mapsto> v), vars n)"

definition uv_remove :: "ups_variables \<Rightarrow> var_name \<Rightarrow> ups_variables \<times> (var_name \<times> nut_value) option" where
  "uv_remove vars n = (vars(n := None), map_option (\<lambda>v. (n, v)) (vars n))"

definition uv_contains_key :: "ups_variables \<Rightarrow> var_name \<Rightarrow> bool" where
  "uv_contains_key vars n \<longleftrightarrow> vars n \<noteq> None"

record rw_list = rw_variables :: ups_variables  rw_ups_name :: ups_name
record ups_var_list = vl_variables :: ups_variables  vl_ups_name :: ups_name

section \<open>Deserializers\<close>

text \<open>\<open>if lexer.is_finished() { Ok(x) } else { Err(InvalidToken) }\<close>\<close>

definition finish :: "lexer \<Rightarrow> 'a \<Rightarrow> fault + 'a" where
  "finish lexer x =
     bind_res (is_finished lexer) (\<lambda>fin. if fin then Inr x else parse_err InvalidToken lexer)"

definition deserialize_cmd_desc :: "lexer \<Rightarrow> fault + cmd_desc" where
  "deserialize_cmd_desc lexer =
     bind_res (parse_line [Lit ''CMDDESC'', Ups, Cmd, Quoted_Cap] lexer) (\<lambda>(cs, lexer).
       case cs of
         [Cap_Ups ups_name, Cap_Cmd cmd, Cap_Text desc] \<Rightarrow>
           finish lexer \<lparr>cd_cmd = cmd, cd_ups_name = ups_name, cd_desc = desc\<rparr>
       | _ \<Rightarrow> Inl Panic)"

definition deserialize_ups_desc :: "lexer \<Rightarrow> fault + ups_desc" where
  "deserialize_ups_desc lexer =
     bind_res (parse_line [Lit ''UPSDESC'', Ups, Quoted_Cap] lexer) (\<lambda>(cs, lexer).
       case cs of
         [Cap_Ups ups_name, Cap_Text desc] \<Rightarrow> finish lexer \<lparr>ud_ups_name = ups_name, ud_desc = desc\<rparr>
       | _ \<Rightarrow> Inl Panic)"

definition deserialize_ups_var :: "lexer \<Rightarrow> fault + ups_var" where
  "deserialize_ups_var lexer =
     bind_res (parse_line [Lit ''VAR'', Ups, Var, Value] lexer) (\<lambda>(cs, lexer).
       case cs of
         [Cap_Ups ups_name, Cap_Var name, Cap_Value v] \<Rightarrow>
           finish lexer \<lparr>uv_value = v, uv_name = name, uv_ups_name = ups_name\<rparr>
       | _ \<Rightarrow> Inl Panic)"

definition deserialize_ups_var_desc :: "lexer \<Rightarrow> fault + ups_var_desc" where
  "deserialize_ups_var_desc lexer =
     bind_res (parse_line [Lit ''DESC'', Ups, Var, Quoted_Cap] lexer) (\<lambda>(cs, lexer).
       case cs of
         [Cap_Ups ups_name, Cap_Var name, Cap_Text desc] \<Rightarrow>
           finish lexer \<lparr>uvd_name = name, uvd_desc = desc, uvd_ups_name = ups_name\<rparr>
       | _ \<Rightarrow> Inl Panic)"

text \<open>\<open>while let Some(token) = lexer.next_token()?\<close>; ends because each token moves the head.\<close>

function var_types_loop :: "lexer \<Rightarrow> fault + (var_type list \<times> lexer)" where
  "var_types_loop lexer =
     (case next_token lexer of
        Inl e \<Rightarrow> Inl e
      | Inr (None, lx) \<Rightarrow> Inr ([], lx)
      | Inr (Some Tok_LF, lx) \<Rightarrow> Inr ([], lx)
      | Inr (Some (Tok_QuotedText _ _), lx) \<Rightarrow> parse_err InvalidToken lx
      | Inr (Some (Tok_Text s e), lx) \<Rightarrow>
          bind_res (extract_from_token lx (Tok_Text s e)) (\<lambda>word.
            case var_type_from_str word of
              Inl err \<Rightarrow> parse_err (PE_VarType err) lx
            | Inr type_info \<Rightarrow>
                bind_res (var_types_loop lx) (\<lambda>(ts, lx'). Inr (type_info # ts, lx'))))"
  by pat_completeness auto
termination
  by (relation "measure (\<lambda>lx. length (lx_buffer lx) - read_head lx)")
    (auto dest!: next_token_strict simp: strictly_forward_def forward_def)

declare var_types_loop.simps [simp del]

definition deserialize_ups_var_type :: "lexer \<Rightarrow> fault + ups_var_type" where
  "deserialize_ups_var_type lexer =
     bind_res (cmp_literal ''TYPE'' lexer) (\<lambda>lexer.
     bind_res (extract_ups_name lexer) (\<lambda>(ups_name, lexer).
     bind_res (extract_var_name lexer) (\<lambda>(name, lexer).
     bind_res (var_types_loop lexer) (\<lambda>(var_types, lexer).
       finish lexer \<lparr>uvt_var_types = var_types, uvt_name = name, uvt_ups_name = ups_name\<rparr>))))"

text \<open>The bodies of the list loops, one step each.\<close>

definition client_step :: "capture list \<Rightarrow> lexer \<Rightarrow> fault + ip_addr" where
  "client_step cs lexer =
     (case cs of
        [Cap_Text ip_text] \<Rightarrow>
          (case parse_ip_addr ip_text of Some ip \<Rightarrow> Inr ip | None \<Rightarrow> parse_err InvalidToken lexer)
      | _ \<Rightarrow> Inl Panic)"

definition cmd_step :: "capture list \<Rightarrow> lexer \<Rightarrow> fault + cmd_name" where
  "cmd_step cs lexer = (case cs of [Cap_Cmd c] \<Rightarrow> Inr c | _ \<Rightarrow> Inl Panic)"

definition value_step :: "capture list \<Rightarrow> lexer \<Rightarrow> fault + nut_value" where
  "value_step cs lexer = (case cs of [Cap_Value v] \<Rightarrow> Inr v | _ \<Rightarrow> Inl Panic)"

definition range_step :: "capture list \<Rightarrow> lexer \<Rightarrow> fault + (nut_value \<times> nut_value)" where
  "range_step cs lexer = (case cs of [Cap_Value a, Cap_Value b] \<Rightarrow> Inr (a, b) | _ \<Rightarrow> Inl Panic)"

definition var_step :: "capture list \<Rightarrow> lexer \<Rightarrow> fault + (var_name \<times> nut_value)" where
  "var_step cs lexer = (case cs of [Cap_Var n, Cap_Value v] \<Rightarrow> Inr (n, v) | _ \<Rightarrow> Inl Panic)"

definition device_step :: "capture list \<Rightarrow> lexer \<Rightarrow> fault + ups_device" where
  "device_step cs lexer =
     (case cs of
        [Cap_Ups u, Cap_Text d] \<Rightarrow> Inr \<lparr>dev_ups_name = u, dev_desc = d\<rparr>
      | _ \<Rightarrow> Inl Panic)"

text \<open>The inserts of the loop, in order: a repeated name keeps the last value.\<close>

definition insert_all :: "(var_name \<times> nut_value) list \<Rightarrow> ups_variables" where
  "insert_all kvs = foldl (\<lambda>m (n, v). fst (uv_insert m n v)) Map.empty kvs"

definition deserialize_client_list :: "lexer \<Rightarrow> fault + client_list" where
  "deserialize_client_list lexer =
     bind_res (parse_line [Lit ''BEGIN'', Lit ''LIST'', Lit ''CLIENT'', Ups] lexer) (\<lambda>(cs, lexer).
       case cs of
         [Cap_Ups u] \<Rightarrow>
           bind_res (parse_list_loop ''CLIENT'' [Text_Cmp (ups_str u), Text_Cap] client_step lexer)
             (\<lambda>(ips, lexer).
           bind_res (parse_line [Lit ''END'', Lit ''LIST'', Lit ''CLIENT'', Text_Cmp (ups_str u)] lexer)
             (\<lambda>(_, lexer). finish lexer \<lparr>cl_ups_name = u, cl_ips = ips\<rparr>))
       | _ \<Rightarrow> Inl Panic)"

definition deserialize_cmd_list :: "lexer \<Rightarrow> fault + cmd_list" where
  "deserialize_cmd_list lexer =
     bind_res (parse_line [Lit ''BEGIN'', Lit ''LIST'', Lit ''CMD'', Ups] lexer) (\<lambda>(cs, lexer).
       case cs of
         [Cap_Ups u] \<Rightarrow>
           bind_res (parse_list_loop ''CMD'' [Text_Cmp (ups_str u), Cmd] cmd_step lexer)
             (\<lambda>(cmds, lexer).
           bind_res (parse_line [Lit ''END'', Lit ''LIST'', Lit ''CMD'', Text_Cmp (ups_str u)] lexer)
             (\<lambda>(_, lexer). finish lexer \<lparr>cml_ups_name = u, cml_cmds = cmds\<rparr>))
       | _ \<Rightarrow> Inl Panic)"

definition deserialize_enum_list :: "lexer \<Rightarrow> fault + enum_list" where
  "deserialize_enum_list lexer =
     bind_res (parse_line [Lit ''BEGIN'', Lit ''LIST'', Lit ''ENUM'', Ups, Text_Cap] lexer) (\<lambda>(cs, lexer).
       case cs of
         [Cap_Ups u, Cap_Text var_name] \<Rightarrow>
           (case var_name_new var_name of
              Inl err \<Rightarrow> parse_err (PE_VarName err) lexer
            | Inr name \<Rightarrow>
                bind_res (parse_list_loop ''ENUM'' [Text_Cmp (ups_str u), Text_Cmp (var_as_str name), Value]
                    value_step lexer) (\<lambda>(vals, lexer).
                bind_res (parse_line [Lit ''END'', Lit ''LIST'', Lit ''ENUM'', Text_Cmp (ups_str u),
                    Text_Cmp (var_as_str name)] lexer) (\<lambda>(_, lexer).
                  finish lexer \<lparr>el_name = name, el_ups_name = u, el_values = vals\<rparr>)))
       | _ \<Rightarrow> Inl Panic)"

definition deserialize_range_list :: "lexer \<Rightarrow> fault + range_list" where
  "deserialize_range_list lexer =
     bind_res (parse_line [Lit ''BEGIN'', Lit ''LIST'', Lit ''RANGE'', Ups, Text_Cap] lexer) (\<lambda>(cs, lexer).
       case cs of
         [Cap_Ups u, Cap_Text var_name] \<Rightarrow>
           (case var_name_new var_name of
              Inl err \<Rightarrow> parse_err (PE_VarName err) lexer
            | Inr name \<Rightarrow>
                bind_res (parse_list_loop ''RANGE''
                    [Text_Cmp (ups_str u), Text_Cmp (var_as_str name), Num_Value, Num_Value]
                    range_step lexer) (\<lambda>(ranges, lexer).
                bind_res (parse_line [Lit ''END'', Lit ''LIST'', Lit ''RANGE'', Text_Cmp (ups_str u),
                    Text_Cmp (var_as_str name)] lexer) (\<lambda>(_, lexer).
                  finish lexer \<lparr>rl_ups_name = u, rl_ranges = ranges, rl_name = name\<rparr>)))
       | _ \<Rightarrow> Inl Panic)"

definition deserialize_rw_list :: "lexer \<Rightarrow> fault + rw_list" where
  "deserialize_rw_list lexer =
     bind_res (parse_line [Lit ''BEGIN'', Lit ''LIST'', Lit ''RW'', Ups] lexer) (\<lambda>(cs, lexer).
       case cs of
         [Cap_Ups u] \<Rightarrow>
           bind_res (parse_list_loop ''RW'' [Text_Cmp (ups_str u), Var, Value] var_step lexer)
             (\<lambda>(kvs, lexer).
           bind_res (parse_line [Lit ''END'', Lit ''LIST'', Lit ''RW'', Text_Cmp (ups_str u)] lexer)
             (\<lambda>(_, lexer). finish lexer \<lparr>rw_variables = insert_all kvs, rw_ups_name = u\<rparr>))
       | _ \<Rightarrow> Inl Panic)"

definition deserialize_ups_list :: "lexer \<Rightarrow> fault + ups_device list" where
  "deserialize_ups_list lexer =
     bind_res (parse_line [Lit ''BEGIN'', Lit ''LIST'', Lit ''UPS''] lexer) (\<lambda>(_, lexer).
     bind_res (parse_list_loop ''UPS'' [Ups, Quoted_Cap] device_step lexer) (\<lambda>(devices, lexer).
     bind_res (parse_line [Lit ''END'', Lit ''LIST'', Lit ''UPS''] lexer) (\<lambda>(_, lexer).
       finish lexer devices)))"

definition deserialize_var_list :: "lexer \<Rightarrow> fault + ups_var_list" where
  "deserialize_var_list lexer =
     bind_res (parse_line [Lit ''BEGIN'', Lit ''LIST'', Lit ''VAR'', Ups] lexer) (\<lambda>(cs, lexer).
       case cs of
         [Cap_Ups u] \<Rightarrow>
           bind_res (parse_list_loop ''VAR'' [Text_Cmp (ups_str u), Var, Value] var_step lexer)
             (\<lambda>(kvs, lexer).
           bind_res (parse_line [Lit ''END'', Lit ''LIST'', Lit ''VAR'', Text_Cmp (ups_str u)] lexer)
             (\<lambda>(_, lexer). finish lexer \<lparr>vl_variables = insert_all kvs, vl_ups_name = u\<rparr>))
       | _ \<Rightarrow> Inl Panic)"

text \<open>\<open>impl_ok_parser!\<close>, and its four instances.\<close>

definition deserialize_ok :: "string list \<Rightarrow> lexer \<Rightarrow> fault + unit" where
  "deserialize_ok tokens lexer =
     bind_res (parse_line (map Lit tokens) lexer) (\<lambda>(_, lexer). finish lexer ())"

definition deserialize_prot_ok :: "lexer \<Rightarrow> fault + unit" where
  "deserialize_prot_ok = deserialize_ok [''OK'']"

definition deserialize_prot_ok_fsd :: "lexer \<Rightarrow> fault + unit" where
  "deserialize_prot_ok_fsd = deserialize_ok [''OK'', ''FSD-SET'']"

definition deserialize_prot_ok_detach :: "lexer \<Rightarrow> fault + unit" where
  "deserialize_prot_ok_detach = deserialize_ok [''OK'', ''Goodbye'']"

definition deserialize_prot_ok_tls :: "lexer \<Rightarrow> fault + unit" where
  "deserialize_prot_ok_tls = deserialize_ok [''OK'', ''STARTTLS'']"

end
