(* ===== verification/Response_Laws.thy ===== *)
theory Response_Laws
  imports Response
begin

text \<open>
  What the deserializers accept. A response is written as the server writes it (\<open>line\<close> and
  \<open>list_block\<close> below); reading it gives back the data. The locale \<open>list_response\<close> states what the
  loop of a list response needs of its keyword, its syntax and its step, and proves the loop
  once; every list response is an instance.
\<close>

section \<open>Responses as the server writes them\<close>

definition line :: "piece list \<Rightarrow> string" where
  "line ps = line_text False ps @ [LF]"

definition list_block :: "string \<Rightarrow> piece list \<Rightarrow> piece list list \<Rightarrow> string" where
  "list_block kw heads rows =
     line (Word ''BEGIN'' # Word ''LIST'' # Word kw # heads)
     @ concat (map (\<lambda>r. line (Word kw # r)) rows)
     @ line (Word ''END'' # Word ''LIST'' # Word kw # heads)"

lemma line_Cons: "line (Word w # ps) = w @ line_text True ps @ [LF]"
  by (simp add: line_def)

lemma words [simp]:
  "is_word ''BEGIN''" "is_word ''END''" "is_word ''LIST''" "is_word ''CLIENT''" "is_word ''CMD''"
  "is_word ''ENUM''" "is_word ''RANGE''" "is_word ''RW''" "is_word ''UPS''" "is_word ''VAR''"
  "is_word ''TYPE''" "is_word ''OK''" "is_word ''DESC''" "is_word ''CMDDESC''" "is_word ''UPSDESC''"
  by (simp_all add: is_word_def is_ascii_whitespace_def is_cont_def)

lemma word_not_ws: "is_word w \<Longrightarrow> dropWhile is_ascii_whitespace (w @ r) = w @ r"
  by (cases w) (auto simp: is_word_def)

lemma peek_as_str_word:
  assumes "bytes_from lx = Inr (w @ r)" "is_word w" "at_break r"
  shows "peek_as_str lx = Inr (Some w)"
  using next_token_word [OF assms] extract_word [OF assms, of lx] by (simp add: peek_as_str_def peek_def)

lemma finish_end: "bytes_from lx = Inr [] \<Longrightarrow> finish lx x = Inr x"
  by (simp add: finish_def is_finished_def peek_def next_token_Nil)

lemma parse_line_line:
  assumes "bytes_from lx = Inr (line ps @ rest)" "list_all piece_ok ps" "accepts_line rs ps = Some cs"
  shows "\<exists>lx'. parse_line rs lx = Inr (cs, lx') \<and> bytes_from lx' = Inr (dropWhile is_ascii_whitespace rest)"
  using parse_line_accepts [of lx False ps rest rs cs] assms by (simp add: line_def)

lemma cmp_literal_other:
  assumes "bytes_from lx = Inr (CHR '' '' # w @ r)" "is_word w" "at_break r" "w \<noteq> x"
  shows "\<exists>p. cmp_literal x lx = Inl (Err (ParseError InvalidToken p))"
  using next_token_space [OF assms(1)] next_token_word [OF bytes_from_move1 [OF assms(1)] assms(2,3)]
    extract_word [OF bytes_from_move1 [OF assms(1)] assms(2,3)] assms(4)
  by (auto simp: cmp_literal_def parse_err_def)

section \<open>The list loop\<close>

locale list_response =
  fixes keyword :: string and rules :: "rule list" and step :: "capture list \<Rightarrow> lexer \<Rightarrow> fault + 'a"
    and fields :: "'r \<Rightarrow> piece list" and result :: "'r \<Rightarrow> 'a" and ok :: "'r \<Rightarrow> bool"
  assumes keyword_word: "is_word keyword" and keyword_not_end: "keyword \<noteq> ''END''"
    and fields_ok: "ok x \<Longrightarrow> list_all piece_ok (fields x)"
    and fields_accepted: "ok x \<Longrightarrow> \<exists>cs. accepts_line rules (fields x) = Some cs \<and> (\<forall>lx. step cs lx = Inr (result x))"
begin

lemma loop_end:
  assumes "bytes_from lx = Inr (''END'' @ r)" "at_break r"
  shows "parse_list_loop keyword rules step lx = Inr ([], lx)"
  using peek_as_str_word [OF assms(1) _ assms(2)] keyword_not_end by (simp add: parse_list_loop.simps)

lemma loop_row:
  assumes "bytes_from lx = Inr (line (Word keyword # fields x) @ rest)" "ok x"
  shows "\<exists>lx'. parse_list_loop keyword rules step lx =
      bind_res (parse_list_loop keyword rules step lx') (\<lambda>(xs, lx''). Inr (result x # xs, lx''))
    \<and> bytes_from lx' = Inr (dropWhile is_ascii_whitespace rest)"
proof -
  have p: "peek_as_str lx = Inr (Some keyword)"
    using assms(1) line_text_at_break [of "fields x" rest]
    by (intro peek_as_str_word [of _ _ "line_text True (fields x) @ LF # rest"])
      (simp_all add: line_Cons keyword_word)
  obtain cs where cs: "accepts_line rules (fields x) = Some cs" "\<And>lx. step cs lx = Inr (result x)"
    using fields_accepted [OF assms(2)] by blast
  obtain lx' where "parse_line (Lit keyword # rules) lx = Inr (cs, lx')"
    "bytes_from lx' = Inr (dropWhile is_ascii_whitespace rest)"
    using parse_line_line [OF assms(1), of "Lit keyword # rules" cs] fields_ok [OF assms(2)] keyword_word cs(1)
    by auto
  then show ?thesis
    using p cs(2) by (subst parse_list_loop.simps) (auto simp del: parse_line.simps)
qed

lemma loop_rows:
  assumes "bytes_from lx = Inr (concat (map (\<lambda>x. line (Word keyword # fields x)) xs) @ ''END'' @ r)"
    "at_break r" "list_all ok xs"
  shows "\<exists>lx'. parse_list_loop keyword rules step lx = Inr (map result xs, lx') \<and> bytes_from lx' = Inr (''END'' @ r)"
  using assms
proof (induction xs arbitrary: lx)
  case Nil
  then show ?case using loop_end by auto
next
  case (Cons x xs)
  let ?rest = "concat (map (\<lambda>x. line (Word keyword # fields x)) xs) @ ''END'' @ r"
  have ws: "dropWhile is_ascii_whitespace ?rest = ?rest"
  proof (cases xs)
    case Nil
    then show ?thesis using word_not_ws [of "''END''" r] by simp
  next
    case (Cons y ys)
    then show ?thesis using word_not_ws [OF keyword_word] by (simp add: line_Cons)
  qed
  obtain lx1 where l1: "parse_list_loop keyword rules step lx =
      bind_res (parse_list_loop keyword rules step lx1) (\<lambda>(xs, lx''). Inr (result x # xs, lx''))"
    "bytes_from lx1 = Inr ?rest"
    using loop_row [of lx x ?rest] Cons.prems ws by auto
  obtain lx' where "parse_list_loop keyword rules step lx1 = Inr (map result xs, lx')" "bytes_from lx' = Inr (''END'' @ r)"
    using Cons.IH [OF l1(2)] Cons.prems(2,3) by auto
  then show ?case using l1(1) by auto
qed

text \<open>A row that does not carry the expected word ends the loop with an error.\<close>

lemma loop_foreign_row:
  assumes "bytes_from lx = Inr (concat (map (\<lambda>x. line (Word keyword # fields x)) xs)
      @ line (Word keyword # Word w # ps) @ rest)"
    "list_all ok xs" "rules = Text_Cmp x # rs" "is_word w" "w \<noteq> x"
  shows "\<exists>p. parse_list_loop keyword rules step lx = Inl (Err (ParseError InvalidToken p))"
  using assms(1,2)
proof (induction xs arbitrary: lx)
  case Nil
  let ?r = "line_text True (Word w # ps) @ LF # rest"
  have b: "bytes_from lx = Inr (keyword @ ?r)"
    using Nil by (simp add: line_Cons)
  have p: "peek_as_str lx = Inr (Some keyword)"
    using peek_as_str_word [OF b keyword_word line_text_at_break] .
  obtain lx1 where l1: "parse_rule (Lit keyword) lx = Inr ([], lx1)" "bytes_from lx1 = Inr ?r"
    using parse_rule_accepts [of lx False "Word keyword" ?r "Lit keyword" "[]"] b
      line_text_at_break [of "Word w # ps" rest] keyword_word
    by auto
  obtain q where "cmp_literal x lx1 = Inl (Err (ParseError InvalidToken q))"
    using cmp_literal_other [of lx1 w "line_text True ps @ LF # rest" x] l1(2) assms(4,5)
      line_text_at_break [of ps rest] by auto
  then show ?case
    using p l1(1) assms(3) by (subst parse_list_loop.simps) simp
next
  case (Cons x xs)
  let ?rest = "concat (map (\<lambda>x. line (Word keyword # fields x)) xs) @ line (Word keyword # Word w # ps) @ rest"
  have ws: "dropWhile is_ascii_whitespace ?rest = ?rest"
    using word_not_ws [OF keyword_word] by (cases xs) (simp_all add: line_Cons)
  obtain lx1 where "parse_list_loop keyword rules step lx =
      bind_res (parse_list_loop keyword rules step lx1) (\<lambda>(xs, lx''). Inr (result x # xs, lx''))"
    "bytes_from lx1 = Inr ?rest"
    using loop_row [of lx x ?rest] Cons.prems ws by auto
  then show ?case using Cons.IH [of lx1] Cons.prems(2) by auto
qed

lemma begin_line:
  assumes "bytes_from lx = Inr (line (Word ''BEGIN'' # Word ''LIST'' # Word keyword # heads) @ rest)"
    "list_all piece_ok heads" "accepts_line brules heads = Some cs" "dropWhile is_ascii_whitespace rest = rest"
  shows "\<exists>lx1. parse_line (Lit ''BEGIN'' # Lit ''LIST'' # Lit keyword # brules) lx = Inr (cs, lx1)
    \<and> bytes_from lx1 = Inr rest"
  using parse_line_line [OF assms(1), of "Lit ''BEGIN'' # Lit ''LIST'' # Lit keyword # brules" cs]
    assms(2-4) keyword_word by (auto simp del: parse_line.simps)

text \<open>The whole response: the first line, the rows, the last line.\<close>

lemma block:
  assumes "bytes_from lx = Inr (list_block keyword heads (map fields xs))" "list_all ok xs"
    "list_all piece_ok heads" "accepts_line brules heads = Some cs" "accepts_line erules heads = Some []"
  shows "\<exists>lx1 lx2 lx3. parse_line (Lit ''BEGIN'' # Lit ''LIST'' # Lit keyword # brules) lx = Inr (cs, lx1)
    \<and> parse_list_loop keyword rules step lx1 = Inr (map result xs, lx2)
    \<and> parse_line (Lit ''END'' # Lit ''LIST'' # Lit keyword # erules) lx2 = Inr ([], lx3)
    \<and> bytes_from lx3 = Inr []"
proof -
  let ?last = "line (Word ''END'' # Word ''LIST'' # Word keyword # heads)"
  let ?rows = "concat (map (\<lambda>x. line (Word keyword # fields x)) xs) @ ?last"
  have last: "?last = ''END'' @ line_text True (Word ''LIST'' # Word keyword # heads) @ LF # []"
    by (simp add: line_Cons)
  have b: "bytes_from lx = Inr (line (Word ''BEGIN'' # Word ''LIST'' # Word keyword # heads) @ ?rows)"
    using assms(1) by (simp add: list_block_def comp_def)
  have ws: "dropWhile is_ascii_whitespace ?rows = ?rows"
    using word_not_ws [OF words(2)] word_not_ws [OF keyword_word] by (cases xs) (simp_all add: line_Cons)
  obtain lx1 where l1: "parse_line (Lit ''BEGIN'' # Lit ''LIST'' # Lit keyword # brules) lx = Inr (cs, lx1)"
    "bytes_from lx1 = Inr ?rows"
    using begin_line [OF b assms(3,4) ws] by blast
  obtain lx2 where l2: "parse_list_loop keyword rules step lx1 = Inr (map result xs, lx2)"
    "bytes_from lx2 = Inr ?last"
    using loop_rows [of lx1 xs "line_text True (Word ''LIST'' # Word keyword # heads) @ LF # []"]
      line_text_at_break [of "Word ''LIST'' # Word keyword # heads" "[]"] l1(2) assms(2) last by auto
  obtain lx3 where "parse_line (Lit ''END'' # Lit ''LIST'' # Lit keyword # erules) lx2 = Inr ([], lx3)"
    "bytes_from lx3 = Inr []"
    using parse_line_line [of lx2 "Word ''END'' # Word ''LIST'' # Word keyword # heads" "[]" "Lit ''END'' # Lit ''LIST'' # Lit keyword # erules" "[]"] l2(2)
      assms(3,5) keyword_word by (auto simp del: parse_line.simps)
  then show ?thesis using l1 l2 by blast
qed

end

text \<open>The seven instances. A row is well-formed when its pieces lex and, for the names, when the
  constructor accepts them.\<close>

definition ups_ok :: "ups_name \<Rightarrow> bool" where
  "ups_ok u \<longleftrightarrow> is_word (ups_str u)"

definition name_ok :: "var_name \<Rightarrow> bool" where
  "name_ok n \<longleftrightarrow> var_name_new (var_as_str n) = Inr n"

definition text_ok :: "string \<Rightarrow> bool" where
  "text_ok s \<longleftrightarrow> utf8_valid s"

lemma ups_okD: "ups_ok u \<Longrightarrow> ups_name_new (ups_str u) = Inr u \<and> piece_ok (Word (ups_str u))"
  by (cases u) (simp add: ups_ok_def is_word_def ups_name_new_def is_ups_name_def)

lemma rfc9271_not_special: "is_ascii_rfc9271 c \<Longrightarrow> c \<noteq> DQ \<and> \<not> is_cont c \<and> \<not> is_ascii_whitespace c"
  using ws_not_rfc9271
  by (auto simp: is_ascii_rfc9271_iff is_ascii_alphabetic_def is_ascii_uppercase_def is_ascii_lowercase_def
      is_ascii_digit_def is_cont_def)

lemma rfc9271_word: "s \<noteq> [] \<Longrightarrow> list_all is_ascii_rfc9271 s \<Longrightarrow> is_word s"
  using rfc9271_not_special by (cases s) (auto simp: is_word_def list_all_iff list_ex_iff)

lemma name_ok_word: "name_ok n \<Longrightarrow> is_word (var_as_str n)"
  using var_name_new_ok [of "var_as_str n" n] rfc9271_word by (simp add: name_ok_def is_var_name_ok)

lemma cmd_ok_word: "cmd_name_new (cmd_str c) = Inr c \<Longrightarrow> is_word (cmd_str c)"
  using rfc9271_word by (auto simp: cmd_name_new_def bind_res_eq_Inr is_cmd_name_ok)

lemma text_ok_piece: "text_ok s \<Longrightarrow> piece_ok (Quote s)"
  by (simp add: text_ok_def utf8_valid_no_orphan)

interpretation ups_rows: list_response "''UPS''" "[Ups, Quoted_Cap]" device_step
  "\<lambda>d. [Word (ups_str (dev_ups_name d)), Quote (dev_desc d)]" id
  "\<lambda>d. ups_ok (dev_ups_name d) \<and> text_ok (dev_desc d)"
  by unfold_locales (auto simp: ups_okD [simplified] text_ok_piece [simplified] device_step_def)

interpretation cmd_rows: list_response "''CMD''" "[Text_Cmp (ups_str u), Cmd]" cmd_step
  "\<lambda>c. [Word (ups_str u), Word (cmd_str c)]" id "\<lambda>c. ups_ok u \<and> cmd_name_new (cmd_str c) = Inr c" for u
  by unfold_locales (auto simp: cmd_ok_word cmd_step_def ups_ok_def)

interpretation client_rows: list_response "''CLIENT''" "[Text_Cmp (ups_str u), Text_Cap]" client_step
  "\<lambda>t. [Word (ups_str u), Word t]" "\<lambda>t. the (parse_ip_addr t)"
  "\<lambda>t. ups_ok u \<and> is_word t \<and> parse_ip_addr t \<noteq> None" for u
  by unfold_locales (auto simp: ups_ok_def client_step_def)

interpretation enum_rows: list_response "''ENUM''" "[Text_Cmp (ups_str u), Text_Cmp (var_as_str n), Value]" value_step
  "\<lambda>t. [Word (ups_str u), Word (var_as_str n), Quote t]" infer_from
  "\<lambda>t. ups_ok u \<and> name_ok n \<and> text_ok t" for u n
  by unfold_locales (auto simp: ups_ok_def name_ok_word text_ok_piece [simplified] value_step_def)

interpretation range_rows: list_response "''RANGE''"
  "[Text_Cmp (ups_str u), Text_Cmp (var_as_str n), Num_Value, Num_Value]" range_step
  "\<lambda>((a, b), _). [Word (ups_str u), Word (var_as_str n), Quote a, Quote b]" snd
  "\<lambda>((a, b), (x, y)). ups_ok u \<and> name_ok n \<and> text_ok a \<and> text_ok b
     \<and> infer_number_from a = Inr x \<and> infer_number_from b = Inr y" for u n
  by unfold_locales (auto simp: ups_ok_def name_ok_word text_ok_piece [simplified] range_step_def)

interpretation var_rows: list_response "''VAR''" "[Text_Cmp (ups_str u), Var, Value]" var_step
  "\<lambda>(n, t). [Word (ups_str u), Word (var_as_str n), Quote t]" "\<lambda>(n, t). (n, infer_from t)"
  "\<lambda>(n, t). ups_ok u \<and> name_ok n \<and> text_ok t" for u
  by unfold_locales (auto simp: ups_ok_def name_ok_word name_ok_def text_ok_piece [simplified] var_step_def)

interpretation rw_rows: list_response "''RW''" "[Text_Cmp (ups_str u), Var, Value]" var_step
  "\<lambda>(n, t). [Word (ups_str u), Word (var_as_str n), Quote t]" "\<lambda>(n, t). (n, infer_from t)"
  "\<lambda>(n, t). ups_ok u \<and> name_ok n \<and> text_ok t" for u
  by unfold_locales (auto simp: ups_ok_def name_ok_word name_ok_def text_ok_piece [simplified] var_step_def)

section \<open>Properties\<close>

lemma ups_list_read:
  assumes "list_all (\<lambda>d. ups_ok (dev_ups_name d) \<and> text_ok (dev_desc d)) ds"
  shows "deserialize_ups_list (lexer_new (list_block ''UPS'' []
    (map (\<lambda>d. [Word (ups_str (dev_ups_name d)), Quote (dev_desc d)]) ds))) = Inr ds"
  using ups_rows.block [OF bytes_from_new assms, of "[]" "[]" "[]" "[]"]
  by (auto simp: deserialize_ups_list_def finish_end simp del: parse_line.simps)

text \<open>Reading the device list. The response to \<open>LIST UPS\<close>, written for any devices whose names
  are words and whose descriptions are valid UTF-8 (quotes, backslashes and line feeds included),
  is read back as exactly these devices in order.\<close>

theorem ups_list_roundtrip:
  assumes "list_all (\<lambda>d. ups_ok (dev_ups_name d) \<and> text_ok (dev_desc d)) ds"
  shows "deserialize_ups_list (lexer_new (list_block ''UPS'' []
    (map (\<lambda>d. [Word (ups_str (dev_ups_name d)), Quote (dev_desc d)]) ds))) = Inr ds"
  by (rule ups_list_read [OF assms])

theorem ups_list_roundtrip_witness:
  "deserialize_ups_list (lexer_new (''BEGIN LIST UPS'' @ LF # ''UPS ups1 '' @ DQ # ''My UPS'' @ DQ # LF #
     ''END LIST UPS'' @ [LF])) = Inr [\<lparr>dev_ups_name = UpsName ''ups1'', dev_desc = ''My UPS''\<rparr>]"
  using ups_list_roundtrip [of "[\<lparr>dev_ups_name = UpsName ''ups1'', dev_desc = ''My UPS''\<rparr>]"]
  by (simp add: list_block_def line_def ups_ok_def text_ok_def is_word_def is_ascii_whitespace_def
      is_cont_def needs_escape_def)

lemma insert_all_snoc [simp]: "insert_all (kvs @ [(n, v)]) = (insert_all kvs)(n \<mapsto> v)"
  by (simp add: insert_all_def uv_insert_def)

lemma insert_all_map_of: "insert_all kvs = map_of (rev kvs)"
proof (induction kvs rule: rev_induct)
  case Nil
  then show ?case by (simp add: insert_all_def)
next
  case (snoc kv kvs)
  then show ?case by (cases kv) simp
qed

text \<open>C6: Reading the variables of a device. The response to \<open>LIST VAR\<close> is read back as the map
  that binds every name of the response to the value inferred from its text, the last one when a
  name is repeated, and binds nothing else.\<close>

theorem var_list_roundtrip:
  assumes "ups_ok u" and "list_all (\<lambda>(n, t). name_ok n \<and> text_ok t) kvs"
  shows "deserialize_var_list (lexer_new (list_block ''VAR'' [Word (ups_str u)]
    (map (\<lambda>(n, t). [Word (ups_str u), Word (var_as_str n), Quote t]) kvs)))
    = Inr \<lparr>vl_variables = map_of (rev (map (\<lambda>(n, t). (n, infer_from t)) kvs)), vl_ups_name = u\<rparr>"
proof -
  have "list_all (\<lambda>(n, t). ups_ok u \<and> name_ok n \<and> text_ok t) kvs"
    using assms by (auto simp: list_all_iff)
  from var_rows.block [OF bytes_from_new this, of "[Word (ups_str u)]" "[Ups]" "[Cap_Ups u]" "[Text_Cmp (ups_str u)]"]
  show ?thesis
    using ups_okD [OF assms(1)]
    by (auto simp: deserialize_var_list_def finish_end insert_all_map_of simp del: parse_line.simps)
qed

theorem var_list_roundtrip_witness:
  "deserialize_var_list (lexer_new (''BEGIN LIST VAR ups1'' @ LF # ''VAR ups1 ups.status '' @ DQ # ''OL'' @ DQ # LF #
     ''END LIST VAR ups1'' @ [LF]))
   = Inr \<lparr>vl_variables = [UPS_STATUS \<mapsto> V_String ''OL''], vl_ups_name = UpsName ''ups1''\<rparr>"
proof -
  have "var_as_str UPS_STATUS = ''ups.status''"
    using var.as_str_new [OF var_new_ups_status] .
  moreover have "name_ok UPS_STATUS"
    using var_new_ups_status calculation by (simp add: name_ok_def)
  moreover have "infer_from ''OL'' = V_String ''OL''"
    by code_simp
  ultimately show ?thesis
    using var_list_roundtrip [of "UpsName ''ups1''" "[(UPS_STATUS, ''OL'')]"]
    by (simp add: list_block_def line_def ups_ok_def text_ok_def is_word_def is_ascii_whitespace_def
        is_cont_def needs_escape_def)
qed

text \<open>A list response is about one device. When a row of the response to \<open>LIST VAR\<close> carries the
  name of another device than the first line, the whole response is rejected with a parse error,
  whatever rows precede it and whatever follows: no variable of another device enters the map.\<close>

theorem var_list_foreign_row:
  assumes "ups_ok u" and "list_all (\<lambda>(n, t). name_ok n \<and> text_ok t) kvs" and "is_word w" and "w \<noteq> ups_str u"
  shows "\<exists>p. deserialize_var_list (lexer_new (line [Word ''BEGIN'', Word ''LIST'', Word ''VAR'', Word (ups_str u)]
    @ concat (map (\<lambda>(n, t). line [Word ''VAR'', Word (ups_str u), Word (var_as_str n), Quote t]) kvs)
    @ line (Word ''VAR'' # Word w # ps) @ rest)) = Inl (Err (ParseError InvalidToken p))"
proof -
  let ?fs = "\<lambda>(n, t). [Word (ups_str u), Word (var_as_str n), Quote t]"
  let ?rows = "concat (map (\<lambda>x. line (Word ''VAR'' # ?fs x)) kvs) @ line (Word ''VAR'' # Word w # ps) @ rest"
  have ok: "list_all (\<lambda>(n, t). ups_ok u \<and> name_ok n \<and> text_ok t) kvs"
    using assms(1,2) by (auto simp: list_all_iff)
  have ws: "dropWhile is_ascii_whitespace ?rows = ?rows"
    using word_not_ws [OF var_rows.keyword_word] by (cases kvs) (simp_all add: line_Cons)
  have rows: "concat (map (\<lambda>(n, t). line [Word ''VAR'', Word (ups_str u), Word (var_as_str n), Quote t]) kvs) =
      concat (map (\<lambda>x. line (Word ''VAR'' # ?fs x)) kvs)"
    by (simp add: case_prod_unfold)
  obtain lx1 where l1: "parse_line [Lit ''BEGIN'', Lit ''LIST'', Lit ''VAR'', Ups]
      (lexer_new (line [Word ''BEGIN'', Word ''LIST'', Word ''VAR'', Word (ups_str u)] @ ?rows)) = Inr ([Cap_Ups u], lx1)"
    "bytes_from lx1 = Inr ?rows"
    using var_rows.begin_line [OF bytes_from_new _ _ ws, of "[Word (ups_str u)]" "[Ups]" "[Cap_Ups u]"] ups_okD [OF assms(1)]
    by auto
  then show ?thesis
    using var_rows.loop_foreign_row [OF l1(2) ok refl assms(3,4)] rows
    by (auto simp: deserialize_var_list_def simp del: parse_line.simps)
qed

theorem var_list_foreign_row_witness:
  "\<exists>p. deserialize_var_list (lexer_new (''BEGIN LIST VAR a'' @ LF # ''VAR b x '' @ DQ # ''1'' @ DQ # LF #
     ''END LIST VAR a'' @ [LF])) = Inl (Err (ParseError InvalidToken p))"
  using var_list_foreign_row [of "UpsName ''a''" "[]" "''b''" "[Word ''x'', Quote ''1'']" "''END LIST VAR a'' @ [LF]"]
  by (simp add: line_def ups_ok_def is_word_def is_ascii_whitespace_def is_cont_def needs_escape_def)

text \<open>The other list responses are read back too: the commands of a device, its clients (any
  texts \<open>IpAddr\<close> parses), the writable variables, the options of an enumeration and the numeric
  ranges of a variable.\<close>

theorem list_responses_roundtrip:
  assumes u: "ups_ok u" and n: "name_ok n"
    and cmds: "list_all (\<lambda>c. cmd_name_new (cmd_str c) = Inr c) cs"
    and ips: "list_all (\<lambda>t. is_word t \<and> parse_ip_addr t \<noteq> None) ts"
    and rws: "list_all (\<lambda>(n, t). name_ok n \<and> text_ok t) kvs"
    and opts: "list_all text_ok os"
    and rngs: "list_all (\<lambda>((a, b), (x, y)). text_ok a \<and> text_ok b \<and> infer_number_from a = Inr x \<and> infer_number_from b = Inr y) rs"
  shows "deserialize_cmd_list (lexer_new (list_block ''CMD'' [Word (ups_str u)]
      (map (\<lambda>c. [Word (ups_str u), Word (cmd_str c)]) cs))) = Inr \<lparr>cml_ups_name = u, cml_cmds = cs\<rparr>
    \<and> deserialize_client_list (lexer_new (list_block ''CLIENT'' [Word (ups_str u)]
      (map (\<lambda>t. [Word (ups_str u), Word t]) ts))) = Inr \<lparr>cl_ups_name = u, cl_ips = map (\<lambda>t. the (parse_ip_addr t)) ts\<rparr>
    \<and> deserialize_rw_list (lexer_new (list_block ''RW'' [Word (ups_str u)]
      (map (\<lambda>(n, t). [Word (ups_str u), Word (var_as_str n), Quote t]) kvs)))
      = Inr \<lparr>rw_variables = map_of (rev (map (\<lambda>(n, t). (n, infer_from t)) kvs)), rw_ups_name = u\<rparr>
    \<and> deserialize_enum_list (lexer_new (list_block ''ENUM'' [Word (ups_str u), Word (var_as_str n)]
      (map (\<lambda>t. [Word (ups_str u), Word (var_as_str n), Quote t]) os)))
      = Inr \<lparr>el_name = n, el_ups_name = u, el_values = map infer_from os\<rparr>
    \<and> deserialize_range_list (lexer_new (list_block ''RANGE'' [Word (ups_str u), Word (var_as_str n)]
      (map (\<lambda>((a, b), _). [Word (ups_str u), Word (var_as_str n), Quote a, Quote b]) rs)))
      = Inr \<lparr>rl_ups_name = u, rl_ranges = map snd rs, rl_name = n\<rparr>"
proof (intro conjI)
  note ud = ups_okD [OF u] and nw = name_ok_word [OF n]
  have c: "list_all (\<lambda>c. ups_ok u \<and> cmd_name_new (cmd_str c) = Inr c) cs"
    using u cmds by (auto simp: list_all_iff)
  show "deserialize_cmd_list (lexer_new (list_block ''CMD'' [Word (ups_str u)]
      (map (\<lambda>c. [Word (ups_str u), Word (cmd_str c)]) cs))) = Inr \<lparr>cml_ups_name = u, cml_cmds = cs\<rparr>"
    using cmd_rows.block [OF bytes_from_new c, of "[Word (ups_str u)]" "[Ups]" "[Cap_Ups u]" "[Text_Cmp (ups_str u)]"] ud
    by (auto simp: deserialize_cmd_list_def finish_end simp del: parse_line.simps)
  have t: "list_all (\<lambda>t. ups_ok u \<and> is_word t \<and> parse_ip_addr t \<noteq> None) ts"
    using u ips by (auto simp: list_all_iff)
  show "deserialize_client_list (lexer_new (list_block ''CLIENT'' [Word (ups_str u)]
      (map (\<lambda>t. [Word (ups_str u), Word t]) ts))) = Inr \<lparr>cl_ups_name = u, cl_ips = map (\<lambda>t. the (parse_ip_addr t)) ts\<rparr>"
    using client_rows.block [OF bytes_from_new t, of "[Word (ups_str u)]" "[Ups]" "[Cap_Ups u]" "[Text_Cmp (ups_str u)]"] ud
    by (auto simp: deserialize_client_list_def finish_end simp del: parse_line.simps)
  have k: "list_all (\<lambda>(n, t). ups_ok u \<and> name_ok n \<and> text_ok t) kvs"
    using u rws by (auto simp: list_all_iff)
  show "deserialize_rw_list (lexer_new (list_block ''RW'' [Word (ups_str u)]
      (map (\<lambda>(n, t). [Word (ups_str u), Word (var_as_str n), Quote t]) kvs)))
      = Inr \<lparr>rw_variables = map_of (rev (map (\<lambda>(n, t). (n, infer_from t)) kvs)), rw_ups_name = u\<rparr>"
    using rw_rows.block [OF bytes_from_new k, of "[Word (ups_str u)]" "[Ups]" "[Cap_Ups u]" "[Text_Cmp (ups_str u)]"] ud
    by (auto simp: deserialize_rw_list_def finish_end insert_all_map_of simp del: parse_line.simps)
  have o: "list_all (\<lambda>t. ups_ok u \<and> name_ok n \<and> text_ok t) os"
    using u n opts by (auto simp: list_all_iff)
  show "deserialize_enum_list (lexer_new (list_block ''ENUM'' [Word (ups_str u), Word (var_as_str n)]
      (map (\<lambda>t. [Word (ups_str u), Word (var_as_str n), Quote t]) os)))
      = Inr \<lparr>el_name = n, el_ups_name = u, el_values = map infer_from os\<rparr>"
    using enum_rows.block [OF bytes_from_new o, of "[Word (ups_str u), Word (var_as_str n)]" "[Ups, Text_Cap]"
        "[Cap_Ups u, Cap_Text (var_as_str n)]" "[Text_Cmp (ups_str u), Text_Cmp (var_as_str n)]"] ud nw n
    by (auto simp: deserialize_enum_list_def finish_end name_ok_def simp del: parse_line.simps)
  have r: "list_all (\<lambda>((a, b), (x, y)). ups_ok u \<and> name_ok n \<and> text_ok a \<and> text_ok b
      \<and> infer_number_from a = Inr x \<and> infer_number_from b = Inr y) rs"
    using u n rngs by (auto simp: list_all_iff)
  show "deserialize_range_list (lexer_new (list_block ''RANGE'' [Word (ups_str u), Word (var_as_str n)]
      (map (\<lambda>((a, b), _). [Word (ups_str u), Word (var_as_str n), Quote a, Quote b]) rs)))
      = Inr \<lparr>rl_ups_name = u, rl_ranges = map snd rs, rl_name = n\<rparr>"
    using range_rows.block [OF bytes_from_new r, of "[Word (ups_str u), Word (var_as_str n)]" "[Ups, Text_Cap]"
        "[Cap_Ups u, Cap_Text (var_as_str n)]" "[Text_Cmp (ups_str u), Text_Cmp (var_as_str n)]"] ud nw n
    by (auto simp: deserialize_range_list_def finish_end name_ok_def simp del: parse_line.simps)
qed

theorem list_responses_roundtrip_witness:
  "deserialize_cmd_list (lexer_new (''BEGIN LIST CMD a'' @ LF # ''CMD a beeper.mute'' @ LF # ''END LIST CMD a'' @ [LF]))
   = Inr \<lparr>cml_ups_name = UpsName ''a'', cml_cmds = [CmdName ''beeper.mute'']\<rparr>"
proof -
  have "cmd_name_new ''beeper.mute'' = Inr (CmdName ''beeper.mute'')"
    by code_simp
  moreover have "name_ok UPS_STATUS"
    using var_new_ups_status var.as_str_new [OF var_new_ups_status] by (simp add: name_ok_def)
  ultimately show ?thesis
    using list_responses_roundtrip [of "UpsName ''a''" UPS_STATUS "[CmdName ''beeper.mute'']" "[]" "[]" "[]" "[]"]
    by (simp add: list_block_def line_def ups_ok_def is_word_def is_ascii_whitespace_def is_cont_def)
qed

lemma deserialize_line:
  assumes "list_all piece_ok ps" "accepts_line rs ps = Some cs"
  shows "\<exists>lx. parse_line rs (lexer_new (line ps)) = Inr (cs, lx) \<and> bytes_from lx = Inr []"
  using parse_line_line [of "lexer_new (line ps)" ps "[]" rs cs] assms by simp

text \<open>The answers of one line are read back: the description of a command, of a device and of a
  variable, the value of a variable, and the acknowledgements.\<close>

theorem single_line_roundtrip:
  assumes u: "ups_ok u" and n: "name_ok n" and c: "cmd_name_new (cmd_str c) = Inr c" and t: "text_ok t"
    and ws: "list_all is_word ws"
  shows "deserialize_cmd_desc (lexer_new (line [Word ''CMDDESC'', Word (ups_str u), Word (cmd_str c), Quote t]))
      = Inr \<lparr>cd_cmd = c, cd_ups_name = u, cd_desc = t\<rparr>
    \<and> deserialize_ups_desc (lexer_new (line [Word ''UPSDESC'', Word (ups_str u), Quote t]))
      = Inr \<lparr>ud_ups_name = u, ud_desc = t\<rparr>
    \<and> deserialize_ups_var (lexer_new (line [Word ''VAR'', Word (ups_str u), Word (var_as_str n), Quote t]))
      = Inr \<lparr>uv_value = infer_from t, uv_name = n, uv_ups_name = u\<rparr>
    \<and> deserialize_ups_var_desc (lexer_new (line [Word ''DESC'', Word (ups_str u), Word (var_as_str n), Quote t]))
      = Inr \<lparr>uvd_name = n, uvd_desc = t, uvd_ups_name = u\<rparr>
    \<and> deserialize_ok ws (lexer_new (line (map Word ws))) = Inr ()"
proof (intro conjI)
  note ud = ups_okD [OF u] and nw = name_ok_word [OF n] and cw = cmd_ok_word [OF c] and tp = text_ok_piece [OF t]
  show "deserialize_cmd_desc (lexer_new (line [Word ''CMDDESC'', Word (ups_str u), Word (cmd_str c), Quote t]))
      = Inr \<lparr>cd_cmd = c, cd_ups_name = u, cd_desc = t\<rparr>"
    using deserialize_line [of "[Word ''CMDDESC'', Word (ups_str u), Word (cmd_str c), Quote t]"
        "[Lit ''CMDDESC'', Ups, Cmd, Quoted_Cap]"] ud cw tp c
    by (auto simp: deserialize_cmd_desc_def finish_end simp del: parse_line.simps)
  show "deserialize_ups_desc (lexer_new (line [Word ''UPSDESC'', Word (ups_str u), Quote t]))
      = Inr \<lparr>ud_ups_name = u, ud_desc = t\<rparr>"
    using deserialize_line [of "[Word ''UPSDESC'', Word (ups_str u), Quote t]" "[Lit ''UPSDESC'', Ups, Quoted_Cap]"] ud tp
    by (auto simp: deserialize_ups_desc_def finish_end simp del: parse_line.simps)
  show "deserialize_ups_var (lexer_new (line [Word ''VAR'', Word (ups_str u), Word (var_as_str n), Quote t]))
      = Inr \<lparr>uv_value = infer_from t, uv_name = n, uv_ups_name = u\<rparr>"
    using deserialize_line [of "[Word ''VAR'', Word (ups_str u), Word (var_as_str n), Quote t]"
        "[Lit ''VAR'', Ups, Var, Value]"] ud nw tp n
    by (auto simp: deserialize_ups_var_def finish_end name_ok_def simp del: parse_line.simps)
  show "deserialize_ups_var_desc (lexer_new (line [Word ''DESC'', Word (ups_str u), Word (var_as_str n), Quote t]))
      = Inr \<lparr>uvd_name = n, uvd_desc = t, uvd_ups_name = u\<rparr>"
    using deserialize_line [of "[Word ''DESC'', Word (ups_str u), Word (var_as_str n), Quote t]"
        "[Lit ''DESC'', Ups, Var, Quoted_Cap]"] ud nw tp n
    by (auto simp: deserialize_ups_var_desc_def finish_end name_ok_def simp del: parse_line.simps)
  have "accepts_line (map Lit ws) (map Word ws) = Some []" "list_all piece_ok (map Word ws)"
    using ws by (induction ws) (simp_all add: list_all_iff)
  then show "deserialize_ok ws (lexer_new (line (map Word ws))) = Inr ()"
    using deserialize_line [of "map Word ws" "map Lit ws" "[]"]
    by (auto simp: deserialize_ok_def finish_end simp del: parse_line.simps)
qed

theorem single_line_roundtrip_witness:
  "deserialize_ups_desc (lexer_new (''UPSDESC a '' @ DQ # ''x'' @ [DQ, LF]))
   = Inr \<lparr>ud_ups_name = UpsName ''a'', ud_desc = ''x''\<rparr>"
proof -
  have "cmd_name_new ''x'' = Inr (CmdName ''x'')"
    by code_simp
  moreover have "name_ok UPS_STATUS"
    using var_new_ups_status var.as_str_new [OF var_new_ups_status] by (simp add: name_ok_def)
  ultimately show ?thesis
    using single_line_roundtrip [of "UpsName ''a''" UPS_STATUS "CmdName ''x''" "''x''" "[]"]
    by (simp add: line_def ups_ok_def text_ok_def is_word_def is_ascii_whitespace_def is_cont_def needs_escape_def)
qed

lemma var_types_loop_words:
  assumes "bytes_from lx = Inr (line_text True (map Word ws) @ [LF])" "list_all is_word ws"
    "map var_type_from_str ws = map Inr ts"
  shows "\<exists>lx'. var_types_loop lx = Inr (ts, lx') \<and> bytes_from lx' = Inr []"
  using assms
proof (induction ws arbitrary: lx ts)
  case Nil
  then have n: "next_token lx = Inr (Some Tok_LF, lx\<lparr>read_head := read_head lx + 1,
      lx_pos := \<lparr>pos_line = pos_line (lx_pos lx) + 1, pos_col = 0\<rparr>\<rparr>)" (is "_ = Inr (_, ?lx)")
    using next_token_LF [of lx "[]"] by simp
  have "bytes_from ?lx = Inr []"
    using bytes_from_append [of lx "[LF]" "[]" ?lx] Nil by simp
  then show ?case using n Nil by (subst var_types_loop.simps) simp
next
  case (Cons w ws)
  then obtain t ts' where ts: "ts = t # ts'" "var_type_from_str w = Inr t" "map var_type_from_str ws = map Inr ts'"
    by (cases ts) auto
  let ?r = "line_text True (map Word ws) @ LF # []"
  have b: "bytes_from (move_read_head 1 lx) = Inr (w @ ?r)" and n: "next_token lx = next_token (move_read_head 1 lx)"
    using Cons.prems(1) bytes_from_move1 [of lx "CHR '' ''" "w @ ?r"] next_token_space [of lx "w @ ?r"] by simp_all
  have w: "is_word w" "list_all is_word ws" using Cons.prems(2) by simp_all
  let ?lx = "move_read_head (length w) (move_read_head 1 lx)"
  have e: "extract_from_token ?lx (Tok_Text (read_head (move_read_head 1 lx)) (read_head (move_read_head 1 lx) + length w)) = Inr w"
    using extract_word [OF b w(1) line_text_at_break, of ?lx] by simp
  obtain lx' where "var_types_loop ?lx = Inr (ts', lx')" "bytes_from lx' = Inr []"
    using Cons.IH [of ?lx ts'] bytes_from_move [OF b] w ts(3) by auto
  then show ?case
    using n next_token_word [OF b w(1) line_text_at_break] e ts by (subst var_types_loop.simps) simp
qed

text \<open>The answer to \<open>GET TYPE\<close>: any number of type words, in order, up to the line feed.\<close>

theorem var_type_roundtrip:
  assumes u: "ups_ok u" and n: "name_ok n" and ws: "list_all is_word ws"
    and ts: "map var_type_from_str ws = map Inr ts"
  shows "deserialize_ups_var_type (lexer_new (line (Word ''TYPE'' # Word (ups_str u) # Word (var_as_str n) # map Word ws)))
    = Inr \<lparr>uvt_var_types = ts, uvt_name = n, uvt_ups_name = u\<rparr>"
proof -
  let ?r3 = "line_text True (map Word ws) @ LF # []"
  let ?r2 = "line_text True (Word (var_as_str n) # map Word ws) @ LF # []"
  let ?r1 = "line_text True (Word (ups_str u) # Word (var_as_str n) # map Word ws) @ LF # []"
  let ?lx = "lexer_new (line (Word ''TYPE'' # Word (ups_str u) # Word (var_as_str n) # map Word ws))"
  obtain lx1 where l1: "parse_rule (Lit ''TYPE'') ?lx = Inr ([], lx1)" "bytes_from lx1 = Inr ?r1"
    using parse_rule_accepts [of ?lx False "Word ''TYPE''" ?r1 "Lit ''TYPE''" "[]"]
      line_text_at_break [of "Word (ups_str u) # Word (var_as_str n) # map Word ws" "[]"] by (auto simp: line_Cons)
  obtain lx2 where l2: "parse_rule Ups lx1 = Inr ([Cap_Ups u], lx2)" "bytes_from lx2 = Inr ?r2"
    using parse_rule_accepts [of lx1 True "Word (ups_str u)" ?r2 Ups "[Cap_Ups u]"] l1(2) ups_okD [OF u]
      line_text_at_break [of "Word (var_as_str n) # map Word ws" "[]"] by auto
  obtain lx3 where l3: "parse_rule Var lx2 = Inr ([Cap_Var n], lx3)" "bytes_from lx3 = Inr ?r3"
    using parse_rule_accepts [of lx2 True "Word (var_as_str n)" ?r3 Var "[Cap_Var n]"] l2(2) name_ok_word [OF n] n
      line_text_at_break [of "map Word ws" "[]"] by (auto simp: name_ok_def)
  obtain lx4 where "var_types_loop lx3 = Inr (ts, lx4)" "bytes_from lx4 = Inr []"
    using var_types_loop_words [OF l3(2) ws ts] by blast
  then show ?thesis
    using l1(1) l2(1) l3(1)
    by (auto simp: deserialize_ups_var_type_def finish_end elim!: bind_resE)
qed

theorem var_type_roundtrip_witness:
  "deserialize_ups_var_type (lexer_new (''TYPE a ups.status RW STRING:32'' @ [LF]))
   = Inr \<lparr>uvt_var_types = [ReadWrite, VT_String 32], uvt_name = UPS_STATUS, uvt_ups_name = UpsName ''a''\<rparr>"
proof -
  have "var_type_from_str ''STRING:32'' = Inr (VT_String 32)"
    by (simp add: var_type_from_str_def parse_unsigned_def all_digits_def digits_val_def digit_val_def is_ascii_digit_def)
  moreover have "name_ok UPS_STATUS" "var_as_str UPS_STATUS = ''ups.status''"
    using var_new_ups_status var.as_str_new [OF var_new_ups_status] by (simp_all add: name_ok_def)
  ultimately show ?thesis
    using var_type_roundtrip [of "UpsName ''a''" UPS_STATUS "[''RW'', ''STRING:32'']" "[ReadWrite, VT_String 32]"]
    by (simp add: line_def ups_ok_def is_word_def is_ascii_whitespace_def is_cont_def var_type_from_str_def)
qed

end
