(* ===== verification/Flags.thy ===== *)
theory Flags
  imports Prelude
begin

unbundle bit_operations_syntax

text \<open>
  Flag words. \<open>UpsStatus\<close> (\<open>ups_status.rs\<close>, an \<open>u32\<close>) and \<open>Permissions\<close> (\<open>auth/permission.rs\<close>, an \<open>u8\<close>)
  have the same operations on a word of flags, defined here once for every width, with the
  iterator that yields the lowest flag first. The locale \<open>flags\<close> is their contract: a flag word is
  a set of flags.
\<close>

section \<open>Operations\<close>

definition flag_has :: "'a::len word \<Rightarrow> 'a word \<Rightarrow> bool" where
  "flag_has self rhs \<longleftrightarrow> self AND rhs = rhs"

definition flag_set :: "'a::len word \<Rightarrow> 'a word \<Rightarrow> 'a word" where
  "flag_set self v = self OR v"

definition flag_unset :: "'a::len word \<Rightarrow> 'a word \<Rightarrow> 'a word" where
  "flag_unset self v = self AND NOT v"

definition count_ones :: "'a::len word \<Rightarrow> nat" where
  "count_ones w = length (filter (bit w) [0..<LENGTH('a)])"

definition trailing_zeros :: "'a::len word \<Rightarrow> nat" where
  "trailing_zeros w = length (takeWhile (\<lambda>i. \<not> bit w i) [0..<LENGTH('a)])"

text \<open>\<open>Iterator::next\<close>: the yielded flag and the next state.\<close>

definition flag_next :: "'a::len word \<Rightarrow> ('a word \<times> 'a word) option" where
  "flag_next state =
     (if state = 0 then None
      else let mask = push_bit (trailing_zeros state) 1; yield_val = state AND mask
           in Some (yield_val, flag_unset state yield_val))"

text \<open>The flag with number \<open>i\<close>.\<close>

definition flag :: "nat \<Rightarrow> 'a::len word" where
  "flag i = push_bit i 1"

section \<open>The iterator\<close>

lemma bit_flag [simp]: "bit (flag i :: 'a::len word) j \<longleftrightarrow> j = i \<and> i < LENGTH('a)"
  by (auto simp: flag_def bit_exp_iff)

lemma word_bits_eqI: "(\<And>j. j < LENGTH('a) \<Longrightarrow> bit v j = bit w j) \<Longrightarrow> v = (w :: 'a::len word)"
  by (rule bit_word_eqI) simp

lemma takeWhile_upt_least:
  assumes "i < n" "P i" "\<And>j. j < i \<Longrightarrow> \<not> P j"
  shows "takeWhile (\<lambda>j. \<not> P j) [0..<n] = [0..<i]" "filter P [0..<n] = i # filter P [Suc i..<n]"
proof -
  have s: "[0..<n] = [0..<i] @ i # [Suc i..<n]"
    using assms(1) by (metis less_imp_le_nat upt_add_eq_append zero_le upt_conv_Cons le_add_diff_inverse)
  show "takeWhile (\<lambda>j. \<not> P j) [0..<n] = [0..<i]"
    using assms(2,3) unfolding s by (subst takeWhile_append2) auto
  show "filter P [0..<n] = i # filter P [Suc i..<n]"
    using assms(2,3) unfolding s by (simp add: filter_empty_conv)
qed

lemma lowest_bit:
  assumes "(w :: 'a::len word) \<noteq> 0"
  obtains i where "i < LENGTH('a)" "bit w i" "\<And>j. j < i \<Longrightarrow> \<not> bit w j"
proof -
  have "\<exists>i. bit w i"
    using assms bit_word_eqI [of w 0] by auto
  then obtain i where "bit w i" "\<And>j. j < i \<Longrightarrow> \<not> bit w j"
    using exists_least_iff [of "bit w"] by auto
  then show ?thesis using that bit_imp_le_length by blast
qed

text \<open>One step: the lowest flag is yielded and cleared, the others stay.\<close>

lemma flag_next_lowest:
  assumes "(w :: 'a::len word) \<noteq> 0"
  shows "\<exists>i w'. flag_next w = Some (flag i, w') \<and> i < LENGTH('a) \<and> bit w i
    \<and> filter (bit w) [0..<LENGTH('a)] = i # filter (bit w') [0..<LENGTH('a)]"
proof -
  obtain i where i: "i < LENGTH('a)" "bit w i" "\<And>j. j < i \<Longrightarrow> \<not> bit w j"
    using lowest_bit [OF assms] by blast
  then have tz: "trailing_zeros w = i"
    using takeWhile_upt_least(1) [of i "LENGTH('a)" "bit w"] by (simp add: trailing_zeros_def)
  let ?w' = "flag_unset w (flag i)"
  have y: "w AND push_bit i 1 = flag i"
    unfolding flag_def [symmetric] using i(2) by (intro bit_word_eqI) (auto simp: bit_and_iff)
  have w': "bit ?w' j \<longleftrightarrow> bit w j \<and> j \<noteq> i" for j
    by (auto simp: flag_unset_def bit_and_iff bit_not_iff dest: bit_imp_le_length)
  have "filter (bit ?w') [0..<LENGTH('a)] = filter (bit w) [Suc i..<LENGTH('a)]"
  proof -
    have s: "[0..<LENGTH('a)] = [0..<Suc i] @ [Suc i..<LENGTH('a)]"
      using i(1) by (metis Suc_leI le_add_diff_inverse upt_add_eq_append zero_le)
    have "filter (bit ?w') [0..<Suc i] = []"
      using i(3) w' by (auto simp: filter_empty_conv less_Suc_eq)
    moreover have "filter (bit ?w') [Suc i..<LENGTH('a)] = filter (bit w) [Suc i..<LENGTH('a)]"
      using w' by (intro filter_cong) auto
    ultimately show ?thesis unfolding s by (simp only: filter_append append_Nil)
  qed
  then show ?thesis
    using assms tz y i takeWhile_upt_least(2) [of i "LENGTH('a)" "bit w"]
    by (intro exI [of _ i] exI [of _ ?w']) (simp add: flag_next_def Let_def)
qed

function flag_iter :: "'a::len word \<Rightarrow> 'a word list" where
  "flag_iter state =
     (case flag_next state of None \<Rightarrow> [] | Some (yield_val, state') \<Rightarrow> yield_val # flag_iter state')"
  by pat_completeness auto
termination
proof (relation "measure count_ones", simp)
  fix state :: "'a::len word" and p y s
  assume "flag_next state = Some p" "(y, s) = p"
  then show "(s, state) \<in> measure count_ones"
    using flag_next_lowest [of state] by (cases "state = 0") (auto simp: count_ones_def flag_next_def)
qed

declare flag_iter.simps [simp del]

lemma flag_iter_eq: "flag_iter (w :: 'a::len word) = map flag (filter (bit w) [0..<LENGTH('a)])"
proof (induction w rule: flag_iter.induct)
  case (1 w)
  show ?case
  proof (cases "w = 0")
    case True
    then show ?thesis by (simp add: flag_iter.simps flag_next_def)
  next
    case False
    obtain i w' where "flag_next w = Some (flag i, w')"
      "filter (bit w) [0..<LENGTH('a)] = i # filter (bit w') [0..<LENGTH('a)]"
      using flag_next_lowest [OF False] by blast
    then show ?thesis using "1.IH" by (simp add: flag_iter.simps [of w])
  qed
qed

lemma length_flag_iter: "length (flag_iter w) = count_ones w"
  by (simp add: flag_iter_eq count_ones_def)

section \<open>The contract\<close>

locale flags =
  fixes has :: "'f \<Rightarrow> 'f \<Rightarrow> bool" and add :: "'f \<Rightarrow> 'f \<Rightarrow> 'f" and remove :: "'f \<Rightarrow> 'f \<Rightarrow> 'f"
    and members :: "'f \<Rightarrow> nat set"
  assumes members_inj: "members a = members b \<Longrightarrow> a = b"
    and has_iff: "has a b \<longleftrightarrow> members b \<subseteq> members a"
    and members_add: "members (add a b) = members a \<union> members b"
    and members_remove: "members (remove a b) = members a - members b"
begin

lemma has_refl: "has a a"
  by (simp add: has_iff)

lemma has_trans: "has a b \<Longrightarrow> has b c \<Longrightarrow> has a c"
  by (auto simp: has_iff)

lemma has_antisym: "has a b \<Longrightarrow> has b a \<Longrightarrow> a = b"
  by (rule members_inj) (auto simp: has_iff)

lemma has_add: "has (add a b) c \<longleftrightarrow> members c \<subseteq> members a \<union> members b"
  by (simp add: has_iff members_add)

lemma add_least: "has c a \<Longrightarrow> has c b \<Longrightarrow> has c (add a b)"
  by (simp add: has_iff members_add)

lemma remove_disjoint: "members b \<noteq> {} \<Longrightarrow> \<not> has (remove a b) b"
  by (auto simp: has_iff members_remove)

lemma remove_sub: "has a (remove a b)"
  by (auto simp: has_iff members_remove)

lemma add_remove: "add (remove a b) b = add a b"
  by (rule members_inj) (auto simp: members_add members_remove)

end

lemma bits_has: "flag_has a b \<longleftrightarrow> {i. bit b i} \<subseteq> {i. bit (a :: 'a::len word) i}"
  by (auto simp: flag_has_def bit_eq_iff bit_and_iff dest: bit_imp_le_length)

lemma bits_inj: "{i. bit a i} = {i. bit (b :: 'a::len word) i} \<Longrightarrow> a = b"
  by (rule bit_word_eqI) auto

lemma bits_set: "{i. bit (flag_set a b) i} = {i. bit a i} \<union> {i. bit (b :: 'a::len word) i}"
  by (auto simp: flag_set_def bit_or_iff)

lemma bits_unset: "{i. bit (flag_unset a b) i} = {i. bit a i} - {i. bit (b :: 'a::len word) i}"
  by (auto simp: flag_unset_def bit_and_iff bit_not_iff dest: bit_imp_le_length)

end
