(* ===== verification/Status.thy ===== *)
theory Status
  imports Value Flags
begin

unbundle bit_operations_syntax

text \<open>
  \<open>ups_status.rs\<close> and \<open>ups_event.rs\<close>: the status word of a device, its text, and the events a change
  of status raises. \<open>UpsStatus\<close> is the \<open>u32\<close> it wraps; its constants are the flags 0 to 18 in the
  order of the macro call.
\<close>

section \<open>Status words\<close>

type_synonym ups_status = "32 word"

definition status_names :: "string list" where
  "status_names = [''ALARM'', ''BOOST'', ''BYPASS'', ''CAL'', ''CHRG'', ''COMM'', ''DISCHRG'', ''FSD'', ''LB'', ''NOCOMM'', ''OFF'', ''OL'', ''OB'', ''OVER'', ''RB'', ''TEST'', ''TICK'', ''TOCK'', ''TRIM'']"

abbreviation ST_ALARM :: ups_status where
  "ST_ALARM \<equiv> flag 0"

abbreviation ST_BOOST :: ups_status where
  "ST_BOOST \<equiv> flag 1"

abbreviation ST_BYPASS :: ups_status where
  "ST_BYPASS \<equiv> flag 2"

abbreviation ST_CALIBRATING :: ups_status where
  "ST_CALIBRATING \<equiv> flag 3"

abbreviation ST_CHARGING :: ups_status where
  "ST_CHARGING \<equiv> flag 4"

abbreviation ST_COMM :: ups_status where
  "ST_COMM \<equiv> flag 5"

abbreviation ST_DISCHARGE :: ups_status where
  "ST_DISCHARGE \<equiv> flag 6"

abbreviation ST_FORCED_SHUTDOWN :: ups_status where
  "ST_FORCED_SHUTDOWN \<equiv> flag 7"

abbreviation ST_LOW_BATTERY :: ups_status where
  "ST_LOW_BATTERY \<equiv> flag 8"

abbreviation ST_NOCOMM :: ups_status where
  "ST_NOCOMM \<equiv> flag 9"

abbreviation ST_OFFLINE :: ups_status where
  "ST_OFFLINE \<equiv> flag 10"

abbreviation ST_ONLINE :: ups_status where
  "ST_ONLINE \<equiv> flag 11"

abbreviation ST_ON_BATTERY :: ups_status where
  "ST_ON_BATTERY \<equiv> flag 12"

abbreviation ST_OVERLOADED :: ups_status where
  "ST_OVERLOADED \<equiv> flag 13"

abbreviation ST_REPLACE_BATTERY :: ups_status where
  "ST_REPLACE_BATTERY \<equiv> flag 14"

abbreviation ST_TEST :: ups_status where
  "ST_TEST \<equiv> flag 15"

abbreviation ST_TICK :: ups_status where
  "ST_TICK \<equiv> flag 16"

abbreviation ST_TOCK :: ups_status where
  "ST_TOCK \<equiv> flag 17"

abbreviation ST_TRIM :: ups_status where
  "ST_TRIM \<equiv> flag 18"

text \<open>\<open>UpsStatus::new\<close>: every known word sets its flag, the others are ignored.\<close>

fun status_word :: "string list \<Rightarrow> nat \<Rightarrow> string \<Rightarrow> ups_status" where
  "status_word [] i w = 0"
| "status_word (n # ns) i w = (if w = n then flag i else status_word ns (Suc i) w)"

definition status_new :: "string \<Rightarrow> ups_status" where
  "status_new s =
     foldl (\<lambda>result status. result OR status_word status_names 0 status) 0 (split_whitespace s)"

fun state_str :: "string list \<Rightarrow> nat \<Rightarrow> ups_status \<Rightarrow> string" where
  "state_str [] i v = ''UnknownStatus''"
| "state_str (n # ns) i v = (if v = flag i then n else state_str ns (Suc i) v)"

definition get_state_str :: "ups_status \<Rightarrow> string" where
  "get_state_str v = (if v = 0 then [] else state_str status_names 0 v)"

definition status_fmt :: "ups_status \<Rightarrow> string" where
  "status_fmt s =
     (if count_ones s > 1 then join_sp (map get_state_str (flag_iter s)) else get_state_str s)"

fun status_from_value :: "nut_value \<Rightarrow> ups_status" where
  "status_from_value (V_String t) = status_new t"
| "status_from_value _ = 0"

abbreviation st_has :: "ups_status \<Rightarrow> ups_status \<Rightarrow> bool" where "st_has \<equiv> flag_has"
abbreviation st_set :: "ups_status \<Rightarrow> ups_status \<Rightarrow> ups_status" where "st_set \<equiv> flag_set"
abbreviation st_unset :: "ups_status \<Rightarrow> ups_status \<Rightarrow> ups_status" where "st_unset \<equiv> flag_unset"

interpretation status: flags "flag_has :: ups_status \<Rightarrow> ups_status \<Rightarrow> bool" flag_set flag_unset "\<lambda>s. {i. bit s i}"
  by unfold_locales (simp_all add: bits_has bits_inj bits_set bits_unset)

section \<open>Events\<close>

datatype ups_event =
    Ev_AlarmOn
  | Ev_AlarmOff
  | Ev_Boosting
  | Ev_BoostingEnded
  | Ev_BypassOn
  | Ev_BypassOff
  | Ev_Calibrating
  | Ev_CalibrationCompleted
  | Ev_Charging
  | Ev_ChargingEnded
  | Ev_Discharging
  | Ev_DischargingEnded
  | Ev_FSD
  | Ev_LowBattery
  | Ev_LowBatteryEnded
  | Ev_DeviceOff
  | Ev_DeviceOn
  | Ev_Online
  | Ev_OnBattery
  | Ev_Overloaded
  | Ev_OverloadEnded
  | Ev_ReplaceBattery
  | Ev_ReplaceBatteryEnded
  | Ev_Testing
  | Ev_TestCompleted
  | Ev_Trimming
  | Ev_TrimmingEnded
  | Ev_NoCOMM
  | Ev_COMM

definition removed_event :: "ups_status \<Rightarrow> ups_event option" where
  "removed_event status =
     (if status = ST_ALARM then Some Ev_AlarmOff
      else if status = ST_BOOST then Some Ev_BoostingEnded
      else if status = ST_BYPASS then Some Ev_BypassOff
      else if status = ST_CALIBRATING then Some Ev_CalibrationCompleted
      else if status = ST_CHARGING then Some Ev_ChargingEnded
      else if status = ST_DISCHARGE then Some Ev_DischargingEnded
      else if status = ST_LOW_BATTERY then Some Ev_LowBatteryEnded
      else if status = ST_OFFLINE then Some Ev_DeviceOn
      else if status = ST_OVERLOADED then Some Ev_OverloadEnded
      else if status = ST_REPLACE_BATTERY then Some Ev_ReplaceBatteryEnded
      else if status = ST_TEST then Some Ev_TestCompleted
      else if status = ST_TRIM then Some Ev_TrimmingEnded
      else None)"

definition added_event :: "ups_status \<Rightarrow> ups_event option" where
  "added_event status =
     (if status = ST_ALARM then Some Ev_AlarmOn
      else if status = ST_BOOST then Some Ev_Boosting
      else if status = ST_BYPASS then Some Ev_BypassOn
      else if status = ST_CALIBRATING then Some Ev_Calibrating
      else if status = ST_CHARGING then Some Ev_Charging
      else if status = ST_COMM then Some Ev_COMM
      else if status = ST_DISCHARGE then Some Ev_Discharging
      else if status = ST_FORCED_SHUTDOWN then Some Ev_FSD
      else if status = ST_LOW_BATTERY then Some Ev_LowBattery
      else if status = ST_NOCOMM then Some Ev_NoCOMM
      else if status = ST_OFFLINE then Some Ev_DeviceOff
      else if status = ST_ONLINE then Some Ev_Online
      else if status = ST_ON_BATTERY then Some Ev_OnBattery
      else if status = ST_OVERLOADED then Some Ev_Overloaded
      else if status = ST_REPLACE_BATTERY then Some Ev_ReplaceBattery
      else if status = ST_TEST then Some Ev_Testing
      else if status = ST_TRIM then Some Ev_Trimming
      else None)"

text \<open>\<open>UpsEvents::new\<close>: the set of events, collected over the removed and then the added flags.\<close>

definition insert_events :: "(ups_status \<Rightarrow> ups_event option) \<Rightarrow> ups_status list \<Rightarrow> ups_event set \<Rightarrow> ups_event set" where
  "insert_events f sts events =
     foldl (\<lambda>evs s. case f s of None \<Rightarrow> evs | Some e \<Rightarrow> insert e evs) events sts"

definition events_new :: "ups_status \<Rightarrow> ups_status \<Rightarrow> ups_event set" where
  "events_new old_status new_status =
     (let removed = st_unset old_status new_status;
          events = insert_events removed_event (flag_iter removed) {};
          added = st_unset new_status old_status
      in insert_events added_event (flag_iter added) events)"

fun event_as_str :: "ups_event \<Rightarrow> string" where
  "event_as_str Ev_AlarmOn = ''AlarmOn''"
| "event_as_str Ev_AlarmOff = ''AlarmOff''"
| "event_as_str Ev_Boosting = ''Boosting''"
| "event_as_str Ev_BoostingEnded = ''BoostingEnded''"
| "event_as_str Ev_BypassOn = ''BypassOn''"
| "event_as_str Ev_BypassOff = ''BypassOff''"
| "event_as_str Ev_Calibrating = ''Calibrating''"
| "event_as_str Ev_CalibrationCompleted = ''CalibrationCompleted''"
| "event_as_str Ev_Charging = ''Charging''"
| "event_as_str Ev_ChargingEnded = ''ChargingEnded''"
| "event_as_str Ev_Discharging = ''Discharging''"
| "event_as_str Ev_DischargingEnded = ''DischargingEnded''"
| "event_as_str Ev_FSD = ''FSD''"
| "event_as_str Ev_LowBattery = ''LowBattery''"
| "event_as_str Ev_LowBatteryEnded = ''LowBatteryEnded''"
| "event_as_str Ev_DeviceOff = ''DeviceOff''"
| "event_as_str Ev_DeviceOn = ''DeviceOn''"
| "event_as_str Ev_Online = ''Online''"
| "event_as_str Ev_OnBattery = ''OnBattery''"
| "event_as_str Ev_Overloaded = ''Overloaded''"
| "event_as_str Ev_OverloadEnded = ''OverloadEnded''"
| "event_as_str Ev_ReplaceBattery = ''ReplaceBattery''"
| "event_as_str Ev_ReplaceBatteryEnded = ''ReplaceBatteryEnded''"
| "event_as_str Ev_Testing = ''Testing''"
| "event_as_str Ev_TestCompleted = ''TestCompleted''"
| "event_as_str Ev_Trimming = ''Trimming''"
| "event_as_str Ev_TrimmingEnded = ''TrimmingEnded''"
| "event_as_str Ev_NoCOMM = ''NoCOMM''"
| "event_as_str Ev_COMM = ''COMM''"

section \<open>Lemmas\<close>

lemma insert_events_set: "insert_events f sts evs = evs \<union> {e. \<exists>s \<in> set sts. f s = Some e}"
  by (induction sts arbitrary: evs) (auto simp: insert_events_def split: option.splits)

lemma set_flag_iter: "set (flag_iter (w :: 'a::len word)) = {flag i |i. bit w i}"
  by (auto simp: flag_iter_eq dest: bit_imp_le_length)

lemma bit_unset_iff: "bit (flag_unset a b) i \<longleftrightarrow> bit a i \<and> \<not> bit (b :: 'a::len word) i"
  using bits_unset [of a b] by blast

text \<open>Words with a space between split into the words.\<close>

definition ascii_word :: "string \<Rightarrow> bool" where
  "ascii_word w \<longleftrightarrow> w \<noteq> [] \<and> list_all (\<lambda>c. 32 < byte c \<and> byte c < 128) w"

lemma split_ws_Nil: "split_ws cur [] = (if cur = [] then [] else [cur])"
  by (simp add: split_ws.simps)

lemma split_ws_char: "32 < byte c \<Longrightarrow> byte c < 128 \<Longrightarrow> split_ws cur (c # r) = split_ws (cur @ [c]) r"
  by (subst split_ws.simps) (auto simp: ws_len_def split: list.split)

lemma split_ws_space: "split_ws cur (CHR '' '' # r) = (if cur = [] then [] else [cur]) @ split_ws [] r"
  by (subst split_ws.simps) (simp add: ws_len_def)

lemma split_ws_word: "list_all (\<lambda>c. 32 < byte c \<and> byte c < 128) w \<Longrightarrow> split_ws cur (w @ r) = split_ws (cur @ w) r"
  by (induction w arbitrary: cur) (simp_all add: split_ws_char)

lemma split_join: "list_all ascii_word ws \<Longrightarrow> split_whitespace (join_sp ws) = ws"
proof -
  have "list_all ascii_word ws \<Longrightarrow> split_ws [] (join_sp ws) = ws"
  proof (induction ws rule: join_sp.induct)
    case (2 w)
    then show ?case using split_ws_word [of w "[]" "[]"] by (simp add: ascii_word_def split_ws_Nil)
  next
    case (3 w v ws)
    then show ?case
      using split_ws_word [of w "[]" "CHR '' '' # join_sp (v # ws)"] by (simp add: ascii_word_def split_ws_space)
  qed (simp add: split_ws_Nil)
  then show "list_all ascii_word ws \<Longrightarrow> split_whitespace (join_sp ws) = ws"
    by (simp add: split_whitespace_def)
qed

lemma status_names_props:
  "length status_names = 19" "list_all ascii_word status_names" "distinct status_names"
  by (simp_all add: status_names_def ascii_word_def)

lemma flag_inj: "i < LENGTH('a) \<Longrightarrow> flag i = (flag j :: 'a::len word) \<Longrightarrow> i = j"
  by (metis bit_flag)

lemma flag_nonzero: "i < LENGTH('a) \<Longrightarrow> flag i \<noteq> (0 :: 'a::len word)"
  by (metis bit_flag bit_0_eq bot_apply bot_bool_def)

lemma state_str_flag:
  "i < length ns \<Longrightarrow> k + length ns \<le> 32 \<Longrightarrow> state_str ns k (flag (k + i)) = ns ! i"
proof (induction ns arbitrary: k i)
  case (Cons n ns)
  show ?case
  proof (cases i)
    case (Suc j)
    have "flag (k + i) \<noteq> (flag k :: ups_status)"
      using flag_inj [of "k + i", where ?'a = 32] Cons.prems Suc by fastforce
    then show ?thesis using Cons.IH [of j "Suc k"] Cons.prems Suc by simp
  qed simp
qed simp

lemma status_word_name:
  "distinct ns \<Longrightarrow> i < length ns \<Longrightarrow> status_word ns k (ns ! i) = flag (k + i)"
proof (induction ns arbitrary: k i)
  case (Cons n ns)
  then show ?case by (cases i) auto
qed simp

lemma get_state_str_flag: "i < 19 \<Longrightarrow> get_state_str (flag i) = status_names ! i"
  using state_str_flag [of i status_names 0] flag_nonzero [of i, where ?'a = 32]
  by (simp add: get_state_str_def status_names_props)

text \<open>A status with no flag beyond the named ones.\<close>

definition status_known :: "ups_status \<Rightarrow> bool" where
  "status_known s \<longleftrightarrow> (\<forall>i < 32. bit s i \<longrightarrow> i < 19)"

lemma status_fmt_join:
  assumes "status_known s"
  shows "status_fmt s = join_sp (map ((!) status_names) (filter (bit s) [0..<32]))"
proof -
  have all: "\<forall>i \<in> set (filter (bit s) [0..<32]). i < 19"
    using assms by (auto simp: status_known_def)
  have m: "map get_state_str (flag_iter s) = map ((!) status_names) (filter (bit s) [0..<32])"
    using all by (simp add: flag_iter_eq comp_def get_state_str_flag)
  show ?thesis
  proof (cases "filter (bit s) [0..<32]")
    case Nil
    then have "s = 0" by (intro word_bits_eqI) (auto simp: filter_empty_conv)
    then show ?thesis using Nil by (simp add: status_fmt_def get_state_str_def count_ones_def)
  next
    case (Cons i ks)
    show ?thesis
    proof (cases ks)
      case Nil
      then have "bit s j \<longleftrightarrow> j = i" if "j < 32" for j
      proof -
        have "j \<in> set (filter (bit s) [0..<32]) \<longleftrightarrow> j = i" using Cons Nil by simp
        then show ?thesis using that by simp
      qed
      then have "s = flag i" using Cons by (intro word_bits_eqI) (auto simp: filter_eq_Cons_iff)
      then show ?thesis
        using Cons Nil all get_state_str_flag [of i] by (simp add: status_fmt_def count_ones_def)
    next
      case (Cons j js)
      then show ?thesis using \<open>filter (bit s) [0..<32] = i # ks\<close> m by (simp add: status_fmt_def count_ones_def)
    qed
  qed
qed

lemma foldl_or_flags:
  "bit (foldl (\<lambda>r w. r OR f w) (a :: 'a::len word) ws) j \<longleftrightarrow> bit a j \<or> (\<exists>w \<in> set ws. bit (f w) j)"
  by (induction ws arbitrary: a) (auto simp: bit_or_iff)

lemma status_parse_print:
  assumes "status_known s"
  shows "status_new (status_fmt s) = s"
proof -
  let ?is = "filter (bit s) [0..<32]"
  have all: "\<forall>i \<in> set ?is. i < 19"
    using assms by (auto simp: status_known_def)
  have "list_all ascii_word (map ((!) status_names) ?is)"
    using all status_names_props by (auto simp: list_all_iff)
  then have "status_new (status_fmt s) = foldl (\<lambda>r w. r OR status_word status_names 0 w) 0 (map ((!) status_names) ?is)"
    using assms by (simp add: status_new_def status_fmt_join split_join)
  moreover have "bit (foldl (\<lambda>r w. r OR status_word status_names 0 w) 0 (map ((!) status_names) ?is)) j \<longleftrightarrow> bit s j"
    if "j < 32" for j
    using that all status_names_props by (auto simp: foldl_or_flags status_word_name)
  ultimately show ?thesis
    by (intro word_bits_eqI) simp
qed

section \<open>Properties\<close>

text \<open>A status survives its text. Printing a status of named flags, lowest flag first with
  spaces between, and reading the text back gives the same status; so storing a status as text in
  the variables and parsing it again loses nothing.\<close>

theorem status_display_roundtrip:
  assumes "status_known s"
  shows "status_new (status_fmt s) = s"
  using status_parse_print [OF assms] .

theorem status_display_roundtrip_witness:
  "status_new (status_fmt (st_set ST_ONLINE ST_CHARGING)) = st_set ST_ONLINE ST_CHARGING"
proof -
  have "status_known (st_set ST_ONLINE ST_CHARGING)"
    by (auto simp: status_known_def flag_set_def bit_or_iff)
  then show ?thesis by (rule status_display_roundtrip)
qed

text \<open>The events of a status change, exactly. An event is raised if and only if it is the
  ending event of a flag that was set and no longer is, or the starting event of a flag that is
  set and was not. In particular an unchanged status raises none, and flags that keep their value
  contribute nothing.\<close>

theorem events_exact:
  "e \<in> events_new old_status new_status \<longleftrightarrow>
     (\<exists>i. bit old_status i \<and> \<not> bit new_status i \<and> removed_event (flag i) = Some e)
   \<or> (\<exists>i. bit new_status i \<and> \<not> bit old_status i \<and> added_event (flag i) = Some e)"
  by (auto simp: events_new_def Let_def insert_events_set set_flag_iter bit_unset_iff)

end
