(* ===== verification/Daemon_State.thy ===== *)
theory Daemon_State
  imports Status Response "HOL-Library.AList"
begin

text \<open>
  The server's picture of the NUT daemons and the events that announce its changes:
  \<open>state.rs\<close>, \<open>event.rs\<close>, \<open>event/batch.rs\<close>, \<open>event/channel.rs\<close> and \<open>sync/reverse_dns.rs\<close>.
  The device table (\<open>HashMap<UpsName, DeviceEntry>\<close>) is an association list in the map's
  iteration order; the clock's readings are numbers; the broadcast channel of tokio and the
  resolver of libc are parameters.
\<close>

section \<open>State\<close>

type_synonym time = nat

record client_info =
  ci_addr :: ip_addr
  ci_name :: "string option"

datatype var_detail = VD_String nat | VD_Number | VD_Enum "nut_value list" | VD_Range nut_value nut_value

datatype connection_status = Dead | Online | NotReady

fun connection_status_fmt :: "connection_status \<Rightarrow> string" where
  "connection_status_fmt Dead = ''Dead''"
| "connection_status_fmt Online = ''Online''"
| "connection_status_fmt NotReady = ''Not Ready''"

record device_entry =
  de_attached :: "client_info list"
  de_commands :: "cmd_name list"
  de_desc :: string
  de_last_modified :: time
  de_name :: ups_name
  de_rw_variables :: "var_name \<rightharpoonup> var_detail"
  de_status :: ups_status
  de_variables :: ups_variables

record daemon_state =
  ds_devices :: "(ups_name \<times> device_entry) list"
  ds_last_device_sync :: "time option"
  ds_status :: connection_status
  ds_prot_ver :: "string option"
  ds_ver :: "string option"

definition daemon_state_new :: daemon_state where
  "daemon_state_new =
     \<lparr>ds_devices = [], ds_last_device_sync = None, ds_status = NotReady, ds_prot_ver = None, ds_ver = None\<rparr>"

definition mark_as_dead_with :: "time \<Rightarrow> ups_status \<Rightarrow> device_entry \<Rightarrow> device_entry" where
  "mark_as_dead_with now status e =
     e\<lparr>de_status := status, de_commands := [], de_rw_variables := Map.empty,
       de_variables := Map.empty, de_last_modified := now\<rparr>"


section \<open>Names of addresses\<close>

text \<open>\<open>lookup_inner\<close>: \<open>getnameinfo\<close> gives an error code and fills the buffer; \<open>gai_strerror\<close> gives the
  text of an error, if it has one.\<close>

datatype dns_error = InvalidCStr | DnsInvalidUtf8 | UnspecifiedError | NameInfoError string

definition dns_error_from_code :: "(int \<Rightarrow> string option) \<Rightarrow> int \<Rightarrow> dns_error" where
  "dns_error_from_code gai_strerror errcode =
     (case gai_strerror errcode of Some msg \<Rightarrow> NameInfoError msg | None \<Rightarrow> UnspecifiedError)"

text \<open>\<open>CStr::from_bytes_until_nul\<close>: the bytes before the first zero.\<close>

definition cstr_until_nul :: "string \<Rightarrow> string option" where
  "cstr_until_nul host =
     (if CHR 0x00 \<in> set host then Some (takeWhile (\<lambda>c. c \<noteq> CHR 0x00) host) else None)"

definition lookup_ip ::
    "(ip_addr \<Rightarrow> int \<times> string) \<Rightarrow> (int \<Rightarrow> string option) \<Rightarrow> ip_addr \<Rightarrow> dns_error + string" where
  "lookup_ip getnameinfo gai_strerror ip =
     (case getnameinfo ip of (errcode, host) \<Rightarrow>
        if errcode \<noteq> 0 then Inl (dns_error_from_code gai_strerror errcode)
        else (case cstr_until_nul host of
                None \<Rightarrow> Inl InvalidCStr
              | Some s \<Rightarrow> if utf8_valid s then Inr s else Inl DnsInvalidUtf8))"

text \<open>\<open>if !ip.is_loopback() { lookup_ip(ip).map_or(None, Some) } else { None }\<close> with the resolver as
  a function to the name it finds.\<close>

definition client_info_of :: "(ip_addr \<Rightarrow> 'e + string) \<Rightarrow> ip_addr \<Rightarrow> client_info" where
  "client_info_of lookup ip =
     \<lparr>ci_addr = ip,
      ci_name = (if \<not> is_loopback ip then (case lookup ip of Inr n \<Rightarrow> Some n | Inl _ \<Rightarrow> None) else None)\<rparr>"

section \<open>Events\<close>

record device_status_change =
  sc_name :: ups_name
  sc_old :: ups_status
  sc_new :: ups_status

record device_client_info =
  dc_name :: ups_name
  dc_clients :: "ip_addr list"

datatype system_event =
    DeviceAddition "ups_name list" string
  | DeviceRemoval "ups_name list" string
  | DeviceUpdate "ups_name list" string
  | DeviceStatusChange "device_status_change list" string
  | DaemonStatusUpdate connection_status string
  | ClientConnection "device_client_info list" string
  | ClientDisconnection "device_client_info list" string

record event_batch =
  eb_namespace :: string
  eb_upsd_status :: "connection_status option"
  eb_new :: "ups_name list"
  eb_removed :: "ups_name list"
  eb_status_changes :: "device_status_change list"
  eb_updated :: "ups_name list"
  eb_disconnections :: "device_client_info list"
  eb_connections :: "device_client_info list"

definition event_batch_new :: "string \<Rightarrow> event_batch" where
  "event_batch_new ns =
     \<lparr>eb_namespace = ns, eb_upsd_status = None, eb_new = [], eb_removed = [], eb_status_changes = [],
      eb_updated = [], eb_disconnections = [], eb_connections = []\<rparr>"

definition new_device :: "ups_name \<Rightarrow> event_batch \<Rightarrow> event_batch" where
  "new_device n b = b\<lparr>eb_new := eb_new b @ [n]\<rparr>"

definition removed_device :: "ups_name \<Rightarrow> event_batch \<Rightarrow> event_batch" where
  "removed_device n b = b\<lparr>eb_removed := eb_removed b @ [n]\<rparr>"

definition updated_device :: "ups_name \<Rightarrow> event_batch \<Rightarrow> event_batch" where
  "updated_device n b = b\<lparr>eb_updated := eb_updated b @ [n]\<rparr>"

definition status_change :: "ups_name \<Rightarrow> ups_status \<Rightarrow> ups_status \<Rightarrow> event_batch \<Rightarrow> event_batch" where
  "status_change n old new b =
     b\<lparr>eb_status_changes := eb_status_changes b @ [\<lparr>sc_name = n, sc_old = old, sc_new = new\<rparr>]\<rparr>"

definition client_connection :: "ups_name \<Rightarrow> ip_addr list \<Rightarrow> event_batch \<Rightarrow> event_batch" where
  "client_connection n ips b =
     b\<lparr>eb_connections := eb_connections b @ [\<lparr>dc_name = n, dc_clients = ips\<rparr>]\<rparr>"

definition client_disconnect :: "ups_name \<Rightarrow> ip_addr list \<Rightarrow> event_batch \<Rightarrow> event_batch" where
  "client_disconnect n ips b =
     b\<lparr>eb_disconnections := eb_disconnections b @ [\<lparr>dc_name = n, dc_clients = ips\<rparr>]\<rparr>"

definition set_upsd_status :: "connection_status \<Rightarrow> event_batch \<Rightarrow> event_batch" where
  "set_upsd_status s b = b\<lparr>eb_upsd_status := Some s\<rparr>"

text \<open>The broadcast channel as a parameter: a send gives the channel after it and whether the event was
  accepted. \<open>send_when\<close> is one \<open>if\<close> of \<open>EventBatch::send\<close> with its \<open>?\<close>.\<close>

definition send_when ::
    "bool \<Rightarrow> ('c \<Rightarrow> system_event \<Rightarrow> bool \<times> 'c) \<Rightarrow> system_event \<Rightarrow> ('c \<Rightarrow> bool \<times> 'c) \<Rightarrow> 'c \<Rightarrow> bool \<times> 'c" where
  "send_when cond send ev rest c =
     (if cond then (case send c ev of (True, c') \<Rightarrow> rest c' | (False, c') \<Rightarrow> (False, c')) else rest c)"

definition batch_send :: "('c \<Rightarrow> system_event \<Rightarrow> bool \<times> 'c) \<Rightarrow> event_batch \<Rightarrow> 'c \<Rightarrow> bool \<times> 'c" where
  "batch_send send b =
     (let ns = eb_namespace b in
      send_when (eb_new b \<noteq> []) send (DeviceAddition (eb_new b) ns) (
      send_when (eb_removed b \<noteq> []) send (DeviceRemoval (eb_removed b) ns) (
      send_when (eb_updated b \<noteq> []) send (DeviceUpdate (eb_updated b) ns) (
      send_when (eb_status_changes b \<noteq> []) send (DeviceStatusChange (eb_status_changes b) ns) (
      send_when (eb_disconnections b \<noteq> []) send (ClientDisconnection (eb_disconnections b) ns) (
      send_when (eb_connections b \<noteq> []) send (ClientConnection (eb_connections b) ns) (
      case eb_upsd_status b of
        Some status \<Rightarrow> send_when True send (DaemonStatusUpdate status ns) (\<lambda>c. (True, c))
      | None \<Rightarrow> (\<lambda>c. (True, c)))))))))"

lemmas batch_ops = new_device_def removed_device_def updated_device_def status_change_def
  client_connection_def client_disconnect_def set_upsd_status_def event_batch_new_def

section \<open>The contract of an event channel\<close>

text \<open>The messages of a batch, in the order they are sent.\<close>

definition batch_events :: "event_batch \<Rightarrow> system_event list" where
  "batch_events b =
     (let ns = eb_namespace b in
      (if eb_new b = [] then [] else [DeviceAddition (eb_new b) ns])
      @ (if eb_removed b = [] then [] else [DeviceRemoval (eb_removed b) ns])
      @ (if eb_updated b = [] then [] else [DeviceUpdate (eb_updated b) ns])
      @ (if eb_status_changes b = [] then [] else [DeviceStatusChange (eb_status_changes b) ns])
      @ (if eb_disconnections b = [] then [] else [ClientDisconnection (eb_disconnections b) ns])
      @ (if eb_connections b = [] then [] else [ClientConnection (eb_connections b) ns])
      @ (case eb_upsd_status b of Some status \<Rightarrow> [DaemonStatusUpdate status ns] | None \<Rightarrow> []))"

fun send_all :: "('c \<Rightarrow> system_event \<Rightarrow> bool \<times> 'c) \<Rightarrow> system_event list \<Rightarrow> 'c \<Rightarrow> bool \<times> 'c" where
  "send_all send [] c = (True, c)"
| "send_all send (e # es) c = (case send c e of (True, c') \<Rightarrow> send_all send es c' | (False, c') \<Rightarrow> (False, c'))"

lemma send_when_cons:
  "send_when True send ev (send_all send es) = send_all send (ev # es)"
  "send_when False send ev rest = rest"
  by (simp_all add: fun_eq_iff send_when_def)

lemma send_all_Nil_fun: "(\<lambda>c. (True, c)) = send_all send []"
  by (simp add: fun_eq_iff)

lemma batch_send_events: "batch_send send b = send_all send (batch_events b)"
  unfolding batch_send_def batch_events_def Let_def send_all_Nil_fun [of send]
  by (cases "eb_new b = []"; cases "eb_removed b = []"; cases "eb_updated b = []";
      cases "eb_status_changes b = []"; cases "eb_disconnections b = []"; cases "eb_connections b = []";
      cases "eb_upsd_status b") (simp_all only: send_when_cons append_Cons append_Nil
        append_Nil2 if_True if_False option.case simp_thms not_False_eq_True not_True_eq_False)

end
