(* ===== verification/Device_View.thy ===== *)
theory Device_View
  imports Daemon_State
begin

text \<open>
  How the web pages show a device: \<open>http/hypermedia/semantic_type.rs\<close>, \<open>unit.rs\<close>,
  \<open>device_entry_impl.rs\<close> and \<open>ups_status.rs\<close>. A unit is a raw value with a semantic type; its
  text is in \<open>Unit_Text\<close>. The arithmetic of \<open>f64\<close> is
  exact arithmetic followed by one rounding.
\<close>

section \<open>Semantic types\<close>

datatype semantic_type = S_None | S_Info | S_Error | S_Warning | S_Success

fun semantic_type_fmt :: "semantic_type \<Rightarrow> string" where
  "semantic_type_fmt S_None = []"
| "semantic_type_fmt S_Info = ''Info''"
| "semantic_type_fmt S_Error = ''Error''"
| "semantic_type_fmt S_Warning = ''Warning''"
| "semantic_type_fmt S_Success = ''Success''"

definition range_level :: "f64 \<Rightarrow> f64 \<Rightarrow> f64 \<Rightarrow> nat" where
  "range_level v from to = (if f64_le from v then 1 else 0) + (if f64_le to v then 1 else 0)"

definition from_range :: "f64 \<Rightarrow> f64 \<Rightarrow> f64 \<Rightarrow> semantic_type" where
  "from_range v from to =
     (let level = range_level v from to in
      if level = 0 then S_Success else if level = 1 then S_Warning else S_Error)"

definition from_range_inverted :: "f64 \<Rightarrow> f64 \<Rightarrow> f64 \<Rightarrow> semantic_type" where
  "from_range_inverted v from to =
     (let level = range_level v from to in
      if level = 0 then S_Error else if level = 1 then S_Warning else S_Success)"

text \<open>The classes of the style sheet, a table per style.\<close>

datatype style = TextStyle | BadgeStyle | FillStyle | AlertStyle | InputStyle | SelectStyle | EdgeStyle | BorderStyle | BarGaugeStyle

fun style_prefix :: "style \<Rightarrow> string" where
  "style_prefix TextStyle = ''text''"
| "style_prefix BadgeStyle = ''badge''"
| "style_prefix FillStyle = ''fill''"
| "style_prefix AlertStyle = ''alert''"
| "style_prefix InputStyle = ''input''"
| "style_prefix SelectStyle = ''select''"
| "style_prefix EdgeStyle = ''edge''"
| "style_prefix BorderStyle = ''border''"
| "style_prefix BarGaugeStyle = ''bar-gauge''"

fun semantic_class :: "style \<Rightarrow> semantic_type \<Rightarrow> string" where
  "semantic_class st S_None = []"
| "semantic_class st S_Info = style_prefix st @ ''-info''"
| "semantic_class st S_Error = style_prefix st @ ''-error''"
| "semantic_class st S_Warning = style_prefix st @ ''-warning''"
| "semantic_class st S_Success = style_prefix st @ ''-success''"

section \<open>Units\<close>

record 'v unit_display =
  ud_raw :: 'v
  ud_semantic :: semantic_type

abbreviation info_unit :: "'v \<Rightarrow> 'v unit_display" where
  "info_unit v \<equiv> \<lparr>ud_raw = v, ud_semantic = S_Info\<rparr>"

definition f64_unit_try_from :: "nut_value \<Rightarrow> f64 unit_display option" where
  "f64_unit_try_from v = (case as_lossly_f64 v of Some x \<Rightarrow> Some (info_unit x) | None \<Rightarrow> None)"

definition i64_unit_try_from :: "nut_value \<Rightarrow> int unit_display option" where
  "i64_unit_try_from v = (case as_lossly_i64 v of Some x \<Rightarrow> Some (info_unit x) | None \<Rightarrow> None)"

text \<open>\<open>OneOf<T, Approx<T>>\<close>: a reported value, or an approximation.\<close>

datatype 'v one_of = Reported "'v unit_display" | Approximate "'v unit_display"

section \<open>Arithmetic\<close>

fun f64_mul :: "f64 \<Rightarrow> f64 \<Rightarrow> f64" where
  "f64_mul NaN _ = NaN"
| "f64_mul _ NaN = NaN"
| "f64_mul (Inf a) (Inf b) = Inf (a \<noteq> b)"
| "f64_mul (Inf a) (Fin b q) = (if q = 0 then NaN else Inf (a \<noteq> b))"
| "f64_mul (Fin a p) (Inf b) = (if p = 0 then NaN else Inf (a \<noteq> b))"
| "f64_mul (Fin a p) (Fin b q) = f64_round (a \<noteq> b) (p * q)"

text \<open>Division by a positive finite number.\<close>

fun f64_div_by :: "f64 \<Rightarrow> rat \<Rightarrow> f64" where
  "f64_div_by NaN _ = NaN"
| "f64_div_by (Inf a) _ = Inf a"
| "f64_div_by (Fin a p) q = f64_round a (p / q)"

text \<open>\<open>f64::round\<close>: half away from zero.\<close>

fun f64_round_half :: "f64 \<Rightarrow> f64" where
  "f64_round_half (Fin a p) = Fin a (of_int \<lfloor>p + 1 / 2\<rfloor>)"
| "f64_round_half x = x"

section \<open>The values of a device\<close>

text \<open>The constant \<open>VarName::X\<close> for the standard name \<open>x\<close>.\<close>

definition std_var :: "string \<Rightarrow> var_name" where
  "std_var name = var_name_new_unchecked name"

definition f64_var :: "device_entry \<Rightarrow> string \<Rightarrow> f64 option" where
  "f64_var d name = Option.bind (de_variables d (std_var name)) as_lossly_f64"

definition f64_or :: "f64 option \<Rightarrow> int \<Rightarrow> f64" where
  "f64_or v fallback = (case v of Some x \<Rightarrow> x | None \<Rightarrow> f64_of_int fallback)"

definition get_beeper_status :: "device_entry \<Rightarrow> bool option" where
  "get_beeper_status d =
     (case de_variables d (std_var ''ups.beeper.status'') of
        Some (V_String v) \<Rightarrow> Some (eq_ignore_ascii_case v ''enabled'')
      | _ \<Rightarrow> None)"

definition get_ups_temperature :: "device_entry \<Rightarrow> f64 unit_display option" where
  "get_ups_temperature d =
     (case Option.bind (de_variables d (std_var ''ups.temperature'')) f64_unit_try_from of
        Some u \<Rightarrow>
          Some (u\<lparr>ud_semantic := from_range (ud_raw u) (f64_or (f64_var d ''ups.temperature.low'') 0)
                   (f64_or (f64_var d ''ups.temperature.high'') 60)\<rparr>)
      | None \<Rightarrow> None)"

definition get_ups_load :: "device_entry \<Rightarrow> f64 unit_display option" where
  "get_ups_load d =
     (case Option.bind (de_variables d (std_var ''ups.load'')) f64_unit_try_from of
        Some u \<Rightarrow> Some (u\<lparr>ud_semantic := from_range (ud_raw u) (f64_of_int 45) (f64_of_int 75)\<rparr>)
      | None \<Rightarrow> None)"

definition get_battery_charge :: "device_entry \<Rightarrow> f64 unit_display option" where
  "get_battery_charge d =
     (case Option.bind (de_variables d (std_var ''battery.charge'')) f64_unit_try_from of
        Some u \<Rightarrow>
          (let warn_level = f64_or (f64_var d ''battery.charge.warning'') 50;
               danger_level = f64_or (f64_var d ''battery.charge.low'') 25
           in Some (u\<lparr>ud_semantic := from_range_inverted (ud_raw u) danger_level warn_level\<rparr>))
      | None \<Rightarrow> None)"

definition get_battery_runtime :: "device_entry \<Rightarrow> int unit_display option" where
  "get_battery_runtime d =
     (case Option.bind (de_variables d (std_var ''battery.runtime'')) i64_unit_try_from of
        Some u \<Rightarrow>
          (let danger_level =
             (case Option.bind (de_variables d (std_var ''battery.runtime.low'')) as_lossly_i64 of Some x \<Rightarrow> x | None \<Rightarrow> 60)
           in Some (u\<lparr>ud_semantic := if ud_raw u < danger_level then S_Error else S_Success\<rparr>))
      | None \<Rightarrow> None)"

text \<open>\<open>get_approx_real_power\<close> and \<open>get_approx_apparent_power\<close>, from the load and a nominal power.\<close>

definition approx_power :: "device_entry \<Rightarrow> string \<Rightarrow> f64 unit_display option" where
  "approx_power d nominal_name =
     (case (f64_var d ''ups.load'', f64_var d nominal_name) of
        (Some load, Some nominal) \<Rightarrow> Some (info_unit (f64_round_half (f64_div_by (f64_mul nominal load) 100)))
      | _ \<Rightarrow> None)"

definition power_of :: "device_entry \<Rightarrow> string \<Rightarrow> string \<Rightarrow> f64 one_of option" where
  "power_of d name nominal_name =
     (case Option.bind (de_variables d (std_var name)) f64_unit_try_from of
        Some u \<Rightarrow> Some (Reported u)
      | None \<Rightarrow> map_option Approximate (approx_power d nominal_name))"

definition get_real_power :: "device_entry \<Rightarrow> f64 one_of option" where
  "get_real_power d = power_of d ''ups.realpower'' ''ups.realpower.nominal''"

definition get_apparent_power :: "device_entry \<Rightarrow> f64 one_of option" where
  "get_apparent_power d = power_of d ''ups.power'' ''ups.power.nominal''"

text \<open>The voltages: at or beyond a reported limit they have the type \<open>beyond\<close>.\<close>

definition voltage_of :: "device_entry \<Rightarrow> string \<Rightarrow> string \<Rightarrow> string \<Rightarrow> semantic_type \<Rightarrow> f64 unit_display option" where
  "voltage_of d name low_name high_name beyond =
     (case Option.bind (de_variables d (std_var name)) f64_unit_try_from of
        Some u \<Rightarrow>
          (let low_volt = f64_var d low_name; high_volt = f64_var d high_name
           in Some (u\<lparr>ud_semantic :=
                if (case low_volt of Some t \<Rightarrow> f64_le (ud_raw u) t | None \<Rightarrow> False)
                   \<or> (case high_volt of Some t \<Rightarrow> f64_le t (ud_raw u) | None \<Rightarrow> False)
                then beyond else S_Success\<rparr>))
      | None \<Rightarrow> None)"

definition get_input_voltage :: "device_entry \<Rightarrow> f64 unit_display option" where
  "get_input_voltage d =
     voltage_of d ''input.voltage'' ''input.voltage.low.critical'' ''input.voltage.high.critical'' S_Warning"

definition get_output_voltage :: "device_entry \<Rightarrow> f64 unit_display option" where
  "get_output_voltage d = voltage_of d ''output.voltage'' ''output.voltage.low'' ''output.voltage.high'' S_Error"

definition get_battery_voltage :: "device_entry \<Rightarrow> f64 unit_display option" where
  "get_battery_voltage d = voltage_of d ''battery.voltage'' ''battery.voltage.low'' ''battery.voltage.high'' S_Error"

section \<open>Status details\<close>

record status_detail =
  sd_icon_name :: string
  sd_class :: semantic_type
  sd_desc :: string
  sd_name :: string

abbreviation status_entry :: "string \<Rightarrow> semantic_type \<Rightarrow> string \<Rightarrow> string \<Rightarrow> status_detail option" where
  "status_entry icon class desc name \<equiv> Some \<lparr>sd_icon_name = icon, sd_class = class, sd_desc = desc, sd_name = name\<rparr>"

definition get_status_detail :: "ups_status \<Rightarrow> status_detail option" where
  "get_status_detail s =
     (if s = ST_ONLINE then status_entry ''activity'' S_Success ''UPS Online'' ''ONLINE''
      else if s = ST_BOOST then status_entry ''zap-off'' S_Error ''Input voltage is too low'' ''BOOST''
      else if s = ST_CALIBRATING then status_entry ''loader'' S_Info ''UPS is calibrating'' ''CALIBRATING''
      else if s = ST_CHARGING then status_entry ''battery-charging'' S_Info ''Battery is charging'' ''CHARGING''
      else if s = ST_DISCHARGE then status_entry ''battery'' S_Warning ''Battery is discharging'' ''DISCHARGING''
      else if s = ST_ALARM then status_entry ''alert-circle'' S_Error ''UPS requires intervention'' ''ALARM''
      else if s = ST_FORCED_SHUTDOWN then status_entry ''power'' S_Error ''FORCED SHUTDOWN has begun'' ''FSD''
      else if s = ST_LOW_BATTERY then status_entry ''battery'' S_Warning ''Low battery'' ''LOW-BATTERY''
      else if s = ST_ON_BATTERY then status_entry ''battery-charging'' S_Warning ''UPS on battery'' ''ON-BATTERY''
      else if s = ST_OVERLOADED then status_entry ''alert-circle'' S_Error ''UPS is overloaded'' ''OVERLOADED''
      else if s = ST_NOCOMM then status_entry ''wifi-off'' S_Error ''Daemon has no connection with UPS'' ''NOCOMM''
      else if s = ST_REPLACE_BATTERY then status_entry ''tool'' S_Error ''Replace battery'' ''REPLACE-BATTERY''
      else if s = ST_TEST then status_entry ''activity'' S_Info ''Under test'' ''TEST''
      else if s = ST_TRIM then status_entry ''zap'' S_Error ''Input voltage is too high'' ''TRIM''
      else if s = ST_BYPASS then status_entry ''tool'' S_Info ''Battery is disconnected for maintenance'' ''BYPASS''
      else None)"

text \<open>\<open>StatusDetailIter\<close> as a \<open>for\<close> loop drives it: \<open>next\<close> takes a flag of the inner iterator, and the
  loop ends at the first \<open>None\<close>.\<close>

fun detail_loop :: "ups_status list \<Rightarrow> status_detail list" where
  "detail_loop [] = []"
| "detail_loop (status # rest) =
     (case get_status_detail status of Some d \<Rightarrow> d # detail_loop rest | None \<Rightarrow> [])"

definition status_details :: "ups_status \<Rightarrow> status_detail list" where
  "status_details s = detail_loop (flag_iter s)"

section \<open>Lemmas\<close>

lemma detail_loop_takeWhile:
  "detail_loop l = map (\<lambda>f. the (get_status_detail f)) (takeWhile (\<lambda>f. get_status_detail f \<noteq> None) l)"
  by (induction l) (auto split: option.split)

lemma detail_loop_set:
  "d \<in> set (detail_loop l) \<longleftrightarrow> (\<exists>f\<in>set (takeWhile (\<lambda>f. get_status_detail f \<noteq> None) l). get_status_detail f = Some d)"
  unfolding detail_loop_takeWhile by (force dest: set_takeWhileD)

lemma flag_eq_iff: "i < 32 \<Longrightarrow> (flag i :: ups_status) = flag j \<longleftrightarrow> i = j"
proof
  assume "i < 32" "(flag i :: ups_status) = flag j"
  moreover have "bit (flag i :: ups_status) i" using \<open>i < 32\<close> by simp
  ultimately have "bit (flag j :: ups_status) i" by simp
  then show "i = j" by simp
qed simp

text \<open>The flags without a detail: COMM, OFF, TICK, TOCK and the bits that mean nothing.\<close>

lemma get_status_detail_None:
  assumes "i < 32"
  shows "get_status_detail (flag i) = None \<longleftrightarrow> i \<in> {5, 10, 16, 17} \<or> 19 \<le> i"
  using assms unfolding get_status_detail_def
  by (simp add: flag_eq_iff) presburger

lemma takeWhile_filter_set:
  "x \<in> set (takeWhile P (map f (filter Q [0..<n]))) \<longleftrightarrow>
     (\<exists>i<n. Q i \<and> x = f i \<and> P (f i) \<and> (\<forall>j<i. Q j \<longrightarrow> P (f j)))"
proof (induction n)
  case (Suc n)
  show ?case
  proof (cases "\<forall>y\<in>set (map f (filter Q [0..<n])). P y")
    case True
    then have t: "takeWhile P (map f (filter Q [0..<n])) = map f (filter Q [0..<n])"
      "\<And>ys. takeWhile P (map f (filter Q [0..<n]) @ ys) = map f (filter Q [0..<n]) @ takeWhile P ys"
      by (simp add: takeWhile_eq_all_conv, intro takeWhile_append2) (use True in auto)
    show ?thesis
      using True by (auto simp: t less_Suc_eq)
  next
    case False
    then obtain j where j: "j < n" "Q j" "\<not> P (f j)" by auto
    then have "takeWhile P (map f (filter Q [0..<n]) @ ys) = takeWhile P (map f (filter Q [0..<n]))" for ys
      by (intro takeWhile_append1 [of "f j"]) auto
    then show ?thesis using Suc j by (auto simp: less_Suc_eq)
  qed
qed simp

section \<open>Properties\<close>

text \<open>Which parts of a status a page shows. A flag of the status is shown iff it has a detail and no
  lower flag of the status lacks one: the first flag without a detail (COMM, OFF, TICK, TOCK, in
  the order of the bits) ends the list, and everything after it is left out. So a device that
  reports OFF and OB is shown with no status at all.\<close>

theorem status_details_cut:
  "d \<in> set (status_details s) \<longleftrightarrow>
     (\<exists>i<32. bit s i \<and> get_status_detail (flag i) = Some d \<and> (\<forall>j<i. bit s j \<longrightarrow> j \<notin> {5, 10, 16, 17} \<and> j < 19))"
proof -
  have "d \<in> set (status_details s) \<longleftrightarrow>
      (\<exists>i<32. bit s i \<and> get_status_detail (flag i) = Some d \<and> (\<forall>j<i. bit s j \<longrightarrow> get_status_detail (flag j) \<noteq> None))"
    unfolding status_details_def detail_loop_set flag_iter_eq Bex_def takeWhile_filter_set by auto
  also have "\<dots> \<longleftrightarrow> (\<exists>i<32. bit s i \<and> get_status_detail (flag i) = Some d \<and> (\<forall>j<i. bit s j \<longrightarrow> j \<notin> {5, 10, 16, 17} \<and> j < 19))"
    by (intro ex_cong1 conj_cong refl all_cong1 imp_cong) (simp_all add: get_status_detail_None not_le)
  finally show ?thesis .
qed

theorem status_details_cut_witness:
  "status_details (ST_OFFLINE OR ST_ON_BATTERY) = []"
proof (rule ccontr)
  assume "status_details (ST_OFFLINE OR ST_ON_BATTERY) \<noteq> []"
  then obtain d where "d \<in> set (status_details (ST_OFFLINE OR ST_ON_BATTERY))" by fastforce
  then show False
    unfolding status_details_cut
    using get_status_detail_None [of 10] by (auto simp: bit_or_iff dest: spec [of _ 10])
qed

end
