(* ===== verification/Unit_Text.thy ===== *)
theory Unit_Text
  imports Device_View
begin

text \<open>
  The texts of units in \<open>http/hypermedia/unit.rs\<close>, and notifications (\<open>notification.rs\<close>). Units print an \<open>f64\<close> with \<open>{}\<close>, which in Rust is the
  shortest decimal number that is read back as the same float, the nearest one if there are two, written
  without an exponent. The search for it is modelled by its specification: the largest power of ten of
  which some multiple next to the number is read back. Strings are UTF-8 bytes.
\<close>

section \<open>The shortest decimal\<close>

text \<open>The multiples of a power of ten around a number that are read back as it; of two the nearer one, and
  the upper one in the middle.\<close>

definition rounds_to :: "rat \<Rightarrow> nat \<Rightarrow> int \<Rightarrow> bool" where
  "rounds_to q m k \<longleftrightarrow> f64_round False (of_nat m * pow10 k) = Fin False q"

definition decimal_at :: "rat \<Rightarrow> int \<Rightarrow> nat option" where
  "decimal_at q k =
     (let lo = nat \<lfloor>q / pow10 k\<rfloor>; hi = Suc lo in
      if rounds_to q lo k \<and> rounds_to q hi k then
        Some (if q - of_nat lo * pow10 k < of_nat hi * pow10 k - q then lo else hi)
      else if rounds_to q lo k then Some lo
      else if rounds_to q hi k then Some hi
      else None)"

fun shortest :: "nat \<Rightarrow> rat \<Rightarrow> int \<Rightarrow> (nat \<times> int) option" where
  "shortest 0 q k = None"
| "shortest (Suc fuel) q k = (case decimal_at q k of Some m \<Rightarrow> Some (m, k) | None \<Rightarrow> shortest fuel q (k - 1))"

text \<open>The digits of a number and its exponent without scientific notation.\<close>

definition show_decimal :: "nat \<Rightarrow> int \<Rightarrow> string" where
  "show_decimal m k =
     (let ds = show_nat m; places = nat (- k) in
      if 0 \<le> k then ds @ replicate (nat k) (CHR ''0'')
      else if length ds \<le> places then ''0.'' @ replicate (places - length ds) (CHR ''0'') @ ds
      else take (length ds - places) ds @ CHR ''.'' # drop (length ds - places) ds)"

text \<open>A float is below ten to the 309th and a multiple of ten to the minus 1074th, so the fuel always suffices
  (\<open>shortest_found\<close>).\<close>

fun show_f64 :: "f64 \<Rightarrow> string" where
  "show_f64 NaN = ''NaN''"
| "show_f64 (Inf neg) = (if neg then ''-inf'' else ''inf'')"
| "show_f64 (Fin neg q) =
     (if neg then ''-'' else []) @
     (if q = 0 then ''0''
      else (case shortest 1384 q 309 of Some (m, k) \<Rightarrow> show_decimal m k | None \<Rightarrow> []))"

section \<open>Units\<close>

datatype unit_kind = ApparentPower | Celcius | Percentage | RealPower | RemainingSeconds | Voltage

fun unit_suffix :: "unit_kind \<Rightarrow> string" where
  "unit_suffix ApparentPower = '' VA''"
| "unit_suffix Celcius = CHR '' '' # [CHR 0xE2, CHR 0x84, CHR 0x83]"
| "unit_suffix Percentage = '' %''"
| "unit_suffix RealPower = '' W''"
| "unit_suffix RemainingSeconds = '' s''"
| "unit_suffix Voltage = '' V''"

definition f64_unit_fmt :: "unit_kind \<Rightarrow> f64 unit_display \<Rightarrow> string" where
  "f64_unit_fmt kind u = show_f64 (ud_raw u) @ unit_suffix kind"

definition i64_unit_fmt :: "unit_kind \<Rightarrow> int unit_display \<Rightarrow> string" where
  "i64_unit_fmt kind u = show_int (ud_raw u) @ unit_suffix kind"

text \<open>\<open>Approx\<close> as the templates write it; its \<open>Display\<close> leaves the sign out.\<close>

definition approx_write :: "(unit_kind \<Rightarrow> 'v unit_display \<Rightarrow> string) \<Rightarrow> unit_kind \<Rightarrow> 'v unit_display \<Rightarrow> string" where
  "approx_write fmt kind u = [CHR 0xE2, CHR 0x89, CHR 0x88, CHR '' ''] @ fmt kind u"

definition approx_fmt :: "(unit_kind \<Rightarrow> 'v unit_display \<Rightarrow> string) \<Rightarrow> unit_kind \<Rightarrow> 'v unit_display \<Rightarrow> string" where
  "approx_fmt fmt kind u = fmt kind u"

fun one_of_fmt :: "(unit_kind \<Rightarrow> 'v unit_display \<Rightarrow> string) \<Rightarrow> unit_kind \<Rightarrow> 'v one_of \<Rightarrow> string" where
  "one_of_fmt fmt kind (Reported v) = fmt kind v"
| "one_of_fmt fmt kind (Approximate v) = approx_fmt fmt kind v"

fun one_of_write :: "(unit_kind \<Rightarrow> 'v unit_display \<Rightarrow> string) \<Rightarrow> unit_kind \<Rightarrow> 'v one_of \<Rightarrow> string" where
  "one_of_write fmt kind (Reported v) = fmt kind v"
| "one_of_write fmt kind (Approximate v) = approx_write fmt kind v"

fun one_of_semantic :: "'v one_of \<Rightarrow> semantic_type" where
  "one_of_semantic (Reported v) = ud_semantic v"
| "one_of_semantic (Approximate v) = ud_semantic v"

fun one_of_raw :: "'v one_of \<Rightarrow> 'v" where
  "one_of_raw (Reported v) = ud_raw v"
| "one_of_raw (Approximate v) = ud_raw v"

section \<open>Notifications\<close>

text \<open>\<open>NotificationTemplate\<close> of \<open>notification.rs\<close>, with its time on the page in milliseconds.\<close>

record notification =
  nt_message :: string
  nt_ttl :: nat
  nt_semantic :: semantic_type

definition DEFAULT_DURATION_MS :: nat where
  "DEFAULT_DURATION_MS = 3000"

definition notification_new :: "string \<Rightarrow> notification" where
  "notification_new message = \<lparr>nt_message = message, nt_ttl = DEFAULT_DURATION_MS, nt_semantic = S_None\<rparr>"

definition notification_from :: "string \<Rightarrow> notification" where
  "notification_from message = \<lparr>nt_message = message, nt_ttl = DEFAULT_DURATION_MS, nt_semantic = S_Info\<rparr>"

definition set_level :: "semantic_type \<Rightarrow> notification \<Rightarrow> notification" where
  "set_level level n = n\<lparr>nt_semantic := level\<rparr>"

definition set_ttl :: "nat \<Rightarrow> notification \<Rightarrow> notification" where
  "set_ttl ms n = n\<lparr>nt_ttl := ms\<rparr>"

section \<open>Reading decimals back\<close>

lemma digits_val_append: "digits_val (a @ b) = digits_val a * 10 ^ length b + digits_val b"
proof (induction b rule: rev_induct)
  case (snoc c b)
  have "digits_val (a @ b @ [c]) = digits_val (a @ b) * 10 + digit_val c"
    using digits_val_append_digit [of "a @ b" c] by simp
  then show ?case using snoc digits_val_append_digit [of b c] by (simp add: algebra_simps)
qed (simp add: digits_val_def)

lemma digits_val_zeros: "digits_val (replicate n (CHR ''0'')) = 0"
  by (induction n) (simp_all add: digits_val_def digit_val_def)

lemma digit_zero: "is_ascii_digit (CHR ''0'')"
  by (simp add: is_ascii_digit_def)

lemma zeros_digits: "list_all is_ascii_digit (replicate n (CHR ''0''))"
  by (induction n) (simp_all add: digit_zero)

lemma show_nat_all: "list_all is_ascii_digit (show_nat m)" "show_nat m \<noteq> []"
  using show_nat_digits [of m] show_nat_hd_digit [of m] by (auto simp: all_digits_def)

lemma parse_decimal_digits:
  assumes "list_all is_ascii_digit ds" "ds \<noteq> []"
  shows "parse_decimal ds = Some (of_nat (digits_val ds))"
proof -
  have ds: "takeWhile is_ascii_digit ds = ds" "dropWhile is_ascii_digit ds = []"
    using takeWhile_digits [OF assms(1), of "[]"] by simp_all
  show ?thesis unfolding parse_decimal_def ds Let_def using assms(2) by (simp add: pow10_def)
qed

lemma parse_show_decimal: "parse_decimal (show_decimal m k) = Some (of_nat m * pow10 k)"
proof -
  let ?ds = "show_nat m" and ?p = "nat (- k)"
  consider "0 \<le> k" | "k < 0" "length ?ds \<le> ?p" | "k < 0" "?p < length ?ds" by linarith
  then show ?thesis
  proof cases
    case 1
    have "parse_decimal (?ds @ replicate (nat k) (CHR ''0'')) = Some (of_nat (m * 10 ^ nat k))"
      using show_nat_all [of m] zeros_digits [of "nat k"]
      by (subst parse_decimal_digits) (simp_all add: digits_val_append digits_val_zeros)
    then show ?thesis using 1 by (simp add: show_decimal_def pow10_def)
  next
    case 2
    let ?b = "replicate (?p - length ?ds) (CHR ''0'') @ ?ds"
    have "parse_decimal (''0'' @ CHR ''.'' # ?b) = Some (of_nat (digits_val (''0'' @ ?b)) * pow10 (- int (length ?b)))"
      using show_nat_all [of m] zeros_digits digit_zero by (intro parse_decimal_plain) simp_all
    moreover have "digits_val (''0'' @ ?b) = m"
      using digits_val_append [of "''0''" ?b] digits_val_append [of "replicate (?p - length ?ds) (CHR ''0'')" ?ds]
      by (simp add: digits_val_zeros digits_val_def [of "''0''"] digit_val_def)
    moreover have "- int (length ?b) = k" using 2 by simp
    ultimately show ?thesis using 2 by (simp add: show_decimal_def Let_def)
  next
    case 3
    let ?a = "take (length ?ds - ?p) ?ds" and ?b = "drop (length ?ds - ?p) ?ds"
    have "?a \<noteq> []" "list_all is_ascii_digit ?a" "list_all is_ascii_digit ?b"
      using 3 show_nat_all [of m] by (auto simp: list_all_iff dest: in_set_takeD in_set_dropD)
    then have "parse_decimal (?a @ CHR ''.'' # ?b) = Some (of_nat (digits_val (?a @ ?b)) * pow10 (- int (length ?b)))"
      by (intro parse_decimal_plain)
    moreover have "- int (length ?b) = k" using 3 by simp
    ultimately show ?thesis using 3 by (simp add: show_decimal_def Let_def)
  qed
qed

lemma show_decimal_head: "\<exists>c r. show_decimal m k = c # r \<and> is_ascii_digit c"
proof -
  obtain c r where c: "show_nat m = c # r" "is_ascii_digit c" using show_nat_hd_digit by blast
  consider "0 \<le> k" | "k < 0" "length (show_nat m) \<le> nat (- k)" | n where "k < 0" "length (show_nat m) - nat (- k) = Suc n"
    by (cases "length (show_nat m) - nat (- k)") (fastforce, fastforce)
  then show ?thesis using c digit_zero by cases (auto simp: show_decimal_def Let_def)
qed

lemma parse_digit_head:
  assumes "is_ascii_digit c"
  shows "parse_f64_unsigned neg (c # r) = map_option (f64_round neg) (parse_decimal (c # r))"
    and "parse_f64 (c # r) = parse_f64_unsigned False (c # r)"
proof -
  have "c \<noteq> CHR ''-''" "c \<noteq> CHR ''+''" using assms by (auto simp: is_ascii_digit_def)
  then show "parse_f64_unsigned neg (c # r) = map_option (f64_round neg) (parse_decimal (c # r))"
    "parse_f64 (c # r) = parse_f64_unsigned False (c # r)"
    by (simp_all add: parse_f64_unsigned_def parse_f64_def not_special [OF assms])
qed

lemma f64_round_sign: "f64_round False q = Fin False p \<Longrightarrow> f64_round neg q = Fin neg p"
  by (auto simp: f64_round_def Let_def split: if_splits)

section \<open>The search succeeds\<close>

lemma decimal_at_rounds: "decimal_at q k = Some m \<Longrightarrow> rounds_to q m k"
  by (auto simp: decimal_at_def Let_def split: if_splits)

lemma shortest_rounds: "shortest fuel q k = Some (m, k') \<Longrightarrow> rounds_to q m k'"
  by (induction fuel q k rule: shortest.induct) (auto split: option.splits dest: decimal_at_rounds)

lemma shortest_None: "shortest fuel q k = None \<Longrightarrow> i < fuel \<Longrightarrow> decimal_at q (k - int i) = None"
proof (induction fuel q k arbitrary: i rule: shortest.induct)
  case (2 fuel q k)
  show ?case
  proof (cases i)
    case (Suc j)
    have none: "decimal_at q k = None" "shortest fuel q (k - 1) = None"
      using "2.prems"(1) by (auto split: option.splits)
    then have "decimal_at q (k - 1 - int j) = None" using 2 Suc by simp
    then show ?thesis by (simp add: Suc algebra_simps)
  qed (use "2.prems" in \<open>auto split: option.splits\<close>)
qed simp

lemma decimal_at_exact:
  assumes "f64_round False q = Fin False q" "q = of_nat m * pow10 k"
  shows "decimal_at q k \<noteq> None"
proof -
  have "pow10 k \<noteq> 0" by (simp add: pow10_def)
  then have "nat \<lfloor>q / pow10 k\<rfloor> = m" by (simp add: assms(2))
  then have "rounds_to q (nat \<lfloor>q / pow10 k\<rfloor>) k" using assms by (simp add: rounds_to_def)
  then show ?thesis by (simp add: decimal_at_def Let_def)
qed

text \<open>A rounded number is a multiple of a power of two, so of a power of ten.\<close>

lemma rounded_dyadic:
  assumes "f64_round False q = Fin False q" "0 < q"
  shows "\<exists>r e. q = of_nat r * pow2 e \<and> - 1074 \<le> e"
proof -
  let ?e = "max (lead_exp q) (- 1022) - 52"
  have q: "q = of_int (round_even (q / pow2 ?e)) * pow2 ?e"
    using assms by (auto simp: f64_round_def Let_def split: if_splits)
  have "0 < pow2 ?e" by (simp add: pow2_def)
  then have "0 \<le> round_even (q / pow2 ?e)" using assms(2) by (intro round_even_nonneg) simp
  then have "of_int (round_even (q / pow2 ?e)) = (of_nat (nat (round_even (q / pow2 ?e))) :: rat)" by simp
  with q have "q = of_nat (nat (round_even (q / pow2 ?e))) * pow2 ?e" by metis
  then show ?thesis by (intro exI conjI) (assumption, simp)
qed

lemma dyadic_decimal:
  assumes "- int n \<le> e"
  shows "pow2 e = of_nat (2 ^ nat (e + int n) * 5 ^ n) * pow10 (- int n)"
proof -
  have "pow2 e * 2 ^ n = (2::rat) ^ nat (e + int n)"
  proof (cases "0 \<le> e")
    case True
    then show ?thesis by (simp add: pow2_def nat_add_distrib power_add)
  next
    case False
    then have "n = nat (e + int n) + nat (- e)" using assms by simp
    then have "(2::rat) ^ n = 2 ^ nat (e + int n) * 2 ^ nat (- e)" by (metis power_add)
    then show ?thesis using False by (simp add: pow2_def)
  qed
  then have "pow2 e = of_nat (2 ^ nat (e + int n) * 5 ^ n) * (1 / (2 ^ n * 5 ^ n))" by (simp add: field_simps)
  moreover have "pow10 (- int n) = 1 / (2 ^ n * 5 ^ n)"
    by (simp add: pow10_def flip: power_mult_distrib)
  ultimately show ?thesis by simp
qed

lemma shortest_found:
  assumes "f64_round False q = Fin False q" "0 < q"
  shows "\<exists>m k. shortest 1384 q 309 = Some (m, k) \<and> rounds_to q m k"
proof (cases "shortest 1384 q 309")
  case None
  obtain r e where q: "q = of_nat r * pow2 e" "- int 1074 \<le> e" using rounded_dyadic [OF assms] by auto
  then have "q = of_nat (r * (2 ^ nat (e + int 1074) * 5 ^ 1074)) * pow10 (- int 1074)"
    using dyadic_decimal [OF q(2)] by (simp only: of_nat_mult mult.assoc)
  then have "decimal_at q (- int 1074) \<noteq> None" by (rule decimal_at_exact [OF assms(1)])
  then show ?thesis using shortest_None [OF None, of 1383] by simp
next
  case (Some mk)
  then show ?thesis by (cases mk) (auto dest: shortest_rounds)
qed

section \<open>Properties\<close>

text \<open>The number on a page is the reading. The text of every finite float is read back as exactly that float,
  and no decimal number with fewer places is.\<close>

definition f64_wf :: "f64 \<Rightarrow> bool" where
  "f64_wf x = (case x of Fin neg q \<Rightarrow> 0 \<le> q \<and> f64_round False q = Fin False q | _ \<Rightarrow> False)"

lemma shortest_least:
  assumes "shortest fuel q k = Some (m, k')" "k' < j" "j \<le> k"
  shows "decimal_at q j = None"
  using assms
proof (induction fuel q k rule: shortest.induct)
  case (2 fuel q k)
  then show ?case by (cases "j = k") (auto split: option.splits)
qed simp

lemma show_f64_finite:
  assumes "f64_wf (Fin neg q)" "q \<noteq> 0"
  shows "\<exists>m k. shortest 1384 q 309 = Some (m, k) \<and> rounds_to q m k
    \<and> show_f64 (Fin neg q) = (if neg then ''-'' else []) @ show_decimal m k"
  using shortest_found [of q] assms by (auto simp: f64_wf_def)

lemma show_f64_roundtrip:
  assumes "f64_wf x"
  shows "parse_f64 (show_f64 x) = Some x"
proof -
  obtain neg q where x: "x = Fin neg q" using assms by (cases x) (auto simp: f64_wf_def)
  have signed: "parse_f64 ((if neg then ''-'' else []) @ c # r) = map_option (f64_round neg) (parse_decimal (c # r))"
    if "is_ascii_digit c" for c r
  proof (cases neg)
    case True
    then show ?thesis using parse_digit_head(1) [OF that] by (simp add: parse_f64_def)
  next
    case False
    then show ?thesis using parse_digit_head [OF that] by simp
  qed
  show ?thesis
  proof (cases "q = 0")
    case True
    then show ?thesis
      using signed [OF digit_zero, of "[]"] parse_decimal_digits [of "''0''"] digit_zero
      by (simp add: x digits_val_def digit_val_def f64_round_def)
  next
    case False
    then obtain m k where s: "rounds_to q m k" "show_f64 x = (if neg then ''-'' else []) @ show_decimal m k"
      using show_f64_finite assms x by blast
    obtain c r where c: "show_decimal m k = c # r" "is_ascii_digit c" using show_decimal_head by blast
    have "f64_round neg (of_nat m * pow10 k) = Fin neg q"
      by (rule f64_round_sign [OF s(1) [unfolded rounds_to_def]])
    then have "map_option (f64_round neg) (parse_decimal (c # r)) = Some (Fin neg q)"
      using parse_show_decimal [of m k] by (simp only: c(1) option.map)
    then show ?thesis using signed [OF c(2), of r] by (simp only: s(2) [unfolded x] c(1) x)
  qed
qed

lemma show_nat_chars: "c \<in> set (show_nat m) \<Longrightarrow> is_ascii_digit c"
  using show_nat_all(1) [of m] by (simp add: list_all_iff)

lemma show_decimal_chars: "c \<in> set (show_decimal m k) \<Longrightarrow> is_ascii_digit c \<or> c = CHR ''.''"
  using digit_zero
  by (auto simp: show_decimal_def Let_def dest!: in_set_takeD in_set_dropD split: if_splits dest: show_nat_chars)

lemma show_f64_no_space: "f64_wf x \<Longrightarrow> CHR '' '' \<notin> set (show_f64 x)"
proof -
  assume wf: "f64_wf x"
  then obtain neg q where x: "x = Fin neg q" by (cases x) (auto simp: f64_wf_def)
  have "CHR '' '' \<notin> set (show_decimal m k)" for m k
    using show_decimal_chars [of "CHR '' ''" m k] by (auto simp: is_ascii_digit_def)
  then show ?thesis by (auto simp: x split: option.splits)
qed

lemma unit_suffix_space: "\<exists>r. unit_suffix kind = CHR '' '' # r"
  by (cases kind) simp_all

text \<open>The number on a page is the reading. A finite reading is shown, in front of its unit, as a decimal
  number that is read back as exactly that reading; for an approximation the page shows the same text
  behind its sign, and there is no shorter number: at every higher power of ten the neighbouring
  multiples are read as other floats.\<close>

theorem unit_text_exact:
  assumes "f64_wf (ud_raw u)"
  shows "parse_f64 (takeWhile (\<lambda>c. c \<noteq> CHR '' '') (f64_unit_fmt kind u)) = Some (ud_raw u)
    \<and> one_of_write f64_unit_fmt kind (Approximate u) = [CHR 0xE2, CHR 0x89, CHR 0x88, CHR '' ''] @ one_of_write f64_unit_fmt kind (Reported u)
    \<and> (f64_val (ud_raw u) \<noteq> 0 \<longrightarrow>
         (\<exists>neg m k. show_f64 (ud_raw u) = (if neg then ''-'' else []) @ show_decimal m k
            \<and> (\<forall>j. k < j \<and> j \<le> 309 \<longrightarrow> decimal_at \<bar>f64_val (ud_raw u)\<bar> j = None)))"
proof (intro conjI impI)
  obtain r where r: "unit_suffix kind = CHR '' '' # r" using unit_suffix_space by blast
  have "takeWhile (\<lambda>c. c \<noteq> CHR '' '') (f64_unit_fmt kind u) = show_f64 (ud_raw u)"
    using show_f64_no_space [OF assms] by (simp add: f64_unit_fmt_def r takeWhile_append)
  then show "parse_f64 (takeWhile (\<lambda>c. c \<noteq> CHR '' '') (f64_unit_fmt kind u)) = Some (ud_raw u)"
    using show_f64_roundtrip [OF assms] by simp
  show "one_of_write f64_unit_fmt kind (Approximate u) = [CHR 0xE2, CHR 0x89, CHR 0x88, CHR '' ''] @ one_of_write f64_unit_fmt kind (Reported u)"
    by (simp add: approx_write_def)
  assume nz: "f64_val (ud_raw u) \<noteq> 0"
  obtain neg q where x: "ud_raw u = Fin neg q" and q: "0 \<le> q" using assms by (cases "ud_raw u") (auto simp: f64_wf_def)
  have "q \<noteq> 0" using nz by (auto simp: x split: if_splits)
  from show_f64_finite [OF assms [unfolded x] this] obtain m k where s: "shortest 1384 q 309 = Some (m, k)"
    "show_f64 (ud_raw u) = (if neg then ''-'' else []) @ show_decimal m k" using x by auto
  have "\<bar>f64_val (ud_raw u)\<bar> = q" using q by (simp add: x)
  then show "\<exists>neg m k. show_f64 (ud_raw u) = (if neg then ''-'' else []) @ show_decimal m k
      \<and> (\<forall>j. k < j \<and> j \<le> 309 \<longrightarrow> decimal_at \<bar>f64_val (ud_raw u)\<bar> j = None)"
    using s(2) shortest_least [OF s(1)] by metis
qed

theorem unit_text_exact_witness:
  "f64_wf (Fin False (25 / 2))
   \<and> parse_f64 (takeWhile (\<lambda>c. c \<noteq> CHR '' '') (f64_unit_fmt Voltage (info_unit (Fin False (25 / 2))))) = Some (Fin False (25 / 2))"
proof -
  have "quotient_of (25 / 2) = (25, 2)" by code_simp
  moreover have "floorlog 2 25 = 5" "floorlog 2 2 = 2" by (simp_all add: compute_floorlog)
  ultimately have "lead_exp (25 / 2) = 3" by (simp add: lead_exp_def)
  then have "f64_round False (25 / 2) = Fin False (25 / 2)"
    using round_even_of_int [of "25 * 2 ^ 48"] by (simp add: f64_round_def pow2_def Let_def)
  then have "f64_wf (Fin False (25 / 2))" by (simp add: f64_wf_def)
  then show ?thesis using unit_text_exact [of "info_unit (Fin False (25 / 2))" Voltage] by simp
qed

end
