(* ===== verification/Tokens.thy ===== *)
theory Tokens
  imports Flags
begin

unbundle bit_operations_syntax

text \<open>
  \<open>auth/permission.rs\<close>, \<open>auth/username.rs\<close>, \<open>auth/password_str.rs\<close>, \<open>auth/access_token.rs\<close>,
  \<open>auth/user_session.rs\<close> and \<open>auth/token_signer.rs\<close>. The clock (\<open>Utc::now()\<close>, as the \<open>u64\<close> the source
  casts it to), the random nonce and HMAC-SHA256 are parameters; what is used of HMAC is that its
  output has 32 bytes. The locale \<open>binary_token\<close> is the trait \<open>BinaryToken\<close> with the laws a signer
  relies on, and the signer is proved once for every token that meets them.
\<close>

type_synonym bytes = "8 word list"

section \<open>Permissions\<close>

type_synonym permissions = "8 word"

abbreviation P_FSD :: permissions where "P_FSD \<equiv> 1"
abbreviation P_INSTCMD :: permissions where "P_INSTCMD \<equiv> 2"
abbreviation P_SETVAR :: permissions where "P_SETVAR \<equiv> 4"
abbreviation P_READONLY :: permissions where "P_READONLY \<equiv> 0"

definition permissions_all :: permissions where
  "permissions_all = flag_set (flag_set P_FSD P_INSTCMD) P_SETVAR"

definition permissions_as_str :: "permissions \<Rightarrow> string" where
  "permissions_as_str p =
     (if p = P_FSD then ''fsd'' else if p = P_INSTCMD then ''instcmd''
      else if p = P_SETVAR then ''setvar'' else ''unknown permission'')"

definition permissions_fmt :: "permissions \<Rightarrow> string" where
  "permissions_fmt p =
     (if count_ones p > 1 then join_sp (map permissions_as_str (flag_iter p)) else permissions_as_str p)"

definition permissions_from_str :: "string \<Rightarrow> permissions option" where
  "permissions_from_str s = map_option of_nat (parse_unsigned 255 s)"

text \<open>\<open>visit_seq\<close>: a list of names; one unknown name rejects the whole list.\<close>

fun permissions_visit_seq :: "permissions \<Rightarrow> string list \<Rightarrow> permissions option" where
  "permissions_visit_seq permission [] = Some permission"
| "permissions_visit_seq permission (element # rest) =
     (if eq_ignore_ascii_case element ''fsd'' then permissions_visit_seq (flag_set permission P_FSD) rest
      else if eq_ignore_ascii_case element ''instcmd'' then permissions_visit_seq (flag_set permission P_INSTCMD) rest
      else if eq_ignore_ascii_case element ''setvar'' then permissions_visit_seq (flag_set permission P_SETVAR) rest
      else None)"

text \<open>\<open>visit_u64\<close>, \<open>visit_u32\<close>: \<open>v as u8\<close>.\<close>

definition permissions_visit_u64 :: "64 word \<Rightarrow> permissions" where
  "permissions_visit_u64 v = ucast v"

interpretation perms: flags "flag_has :: permissions \<Rightarrow> permissions \<Rightarrow> bool" flag_set flag_unset "\<lambda>s. {i. bit s i}"
  by unfold_locales (simp_all add: bits_has bits_inj bits_set bits_unset)

section \<open>User names and passwords\<close>

text \<open>\<open>Username\<close> and \<open>PasswordStr\<close> are the string they wrap; their constructors reject strings of
  white space only.\<close>

definition username_new :: "string \<Rightarrow> string option" where
  "username_new s = (if trim s = [] then None else Some s)"

definition get_initials :: "string \<Rightarrow> string option" where
  "get_initials u = (if length u = 0 then Some [] else if length u = 1 then Some u else str_slice u 0 2)"

definition password_from_str :: "string \<Rightarrow> string option" where
  "password_from_str s = (if trim s = [] then None else Some s)"

text \<open>The serde visitor of \<open>PasswordStr\<close>: \<open>visit_str\<close> does not check, \<open>visit_string\<close> does.\<close>

definition password_visit_str :: "string \<Rightarrow> string option" where
  "password_visit_str s = Some s"

section \<open>Access tokens\<close>

datatype access_token_error = InvalidVersion | InvalidLength | InvalidTimestamps

record access_token =
  at_permissions :: permissions
  at_valid_until :: "64 word"
  at_issued_at :: "64 word"
  at_nonce :: "64 word"

abbreviation TOKEN_BYTE_LEN :: nat where "TOKEN_BYTE_LEN \<equiv> 26"
abbreviation TOKEN_VERSION :: "8 word" where "TOKEN_VERSION \<equiv> 1"

definition saturating_add :: "64 word \<Rightarrow> 64 word \<Rightarrow> 64 word" where
  "saturating_add a b = (if unat a + unat b < 2 ^ 64 then a + b else - 1)"

definition saturating_sub :: "64 word \<Rightarrow> 64 word \<Rightarrow> 64 word" where
  "saturating_sub a b = (if b \<le> a then a - b else 0)"

text \<open>\<open>AccessTokenBuilder::build\<close> at time \<open>now\<close>; the lifetime is in whole seconds.\<close>

definition access_token_build :: "permissions \<Rightarrow> 64 word \<Rightarrow> 64 word \<Rightarrow> 64 word \<Rightarrow> access_token" where
  "access_token_build perms valid_secs now nonce =
     \<lparr>at_permissions = perms, at_valid_until = saturating_add now valid_secs, at_issued_at = now, at_nonce = nonce\<rparr>"

definition is_active :: "64 word \<Rightarrow> access_token \<Rightarrow> bool" where
  "is_active now t \<longleftrightarrow> now \<ge> at_issued_at t \<and> now < at_valid_until t"

definition ttl :: "64 word \<Rightarrow> access_token \<Rightarrow> 64 word" where
  "ttl now t = saturating_sub (at_valid_until t) now"

definition has_permission :: "access_token \<Rightarrow> permissions \<Rightarrow> bool" where
  "has_permission t p = flag_has (at_permissions t) p"

text \<open>\<open>put_u64_le\<close> and \<open>u64::from_le_bytes\<close>.\<close>

fun le_bytes :: "nat \<Rightarrow> nat \<Rightarrow> bytes" where
  "le_bytes 0 n = []"
| "le_bytes (Suc k) n = of_nat (n mod 256) # le_bytes k (n div 256)"

fun le_val :: "bytes \<Rightarrow> nat" where
  "le_val [] = 0"
| "le_val (b # bs) = unat b + 256 * le_val bs"

definition put_u64_le :: "64 word \<Rightarrow> bytes" where
  "put_u64_le w = le_bytes 8 (unat w)"

definition u64_from_le_bytes :: "bytes \<Rightarrow> 64 word" where
  "u64_from_le_bytes bs = of_nat (le_val bs)"

definition access_token_as_bytes :: "access_token \<Rightarrow> bytes" where
  "access_token_as_bytes t =
     [TOKEN_VERSION, at_permissions t] @ put_u64_le (at_issued_at t) @ put_u64_le (at_valid_until t)
     @ put_u64_le (at_nonce t)"

definition access_token_from_bytes :: "bytes \<Rightarrow> access_token_error + access_token" where
  "access_token_from_bytes bytes =
     (if length bytes \<noteq> TOKEN_BYTE_LEN then Inl InvalidLength
      else let version = bytes ! 0; permissions_val = bytes ! 1;
               issued_at = u64_from_le_bytes (take 8 (drop 2 bytes));
               valid_until = u64_from_le_bytes (take 8 (drop 10 bytes));
               nonce_val = u64_from_le_bytes (take 8 (drop 18 bytes)) in
           if version \<noteq> TOKEN_VERSION then Inl InvalidVersion
           else if issued_at > valid_until then Inl InvalidTimestamps
           else Inr \<lparr>at_permissions = permissions_val, at_valid_until = valid_until, at_issued_at = issued_at,
                     at_nonce = nonce_val\<rparr>)"

section \<open>Sessions\<close>

datatype user_session_error = InvalidAccessToken access_token_error | SessionInvalidLength | InvalidUtf8 | EmptyUsername

record user_session =
  us_username :: string
  us_access_token :: access_token

definition str_bytes :: "string \<Rightarrow> bytes" where
  "str_bytes s = map (\<lambda>c. of_nat (byte c)) s"

definition bytes_str :: "bytes \<Rightarrow> string" where
  "bytes_str bs = map (\<lambda>b. char_of (unat b)) bs"

definition user_session_as_bytes :: "user_session \<Rightarrow> bytes" where
  "user_session_as_bytes s = access_token_as_bytes (us_access_token s) @ str_bytes (us_username s)"

definition user_session_from_bytes :: "bytes \<Rightarrow> user_session_error + user_session" where
  "user_session_from_bytes bytes =
     (if length bytes < TOKEN_BYTE_LEN then Inl SessionInvalidLength
      else if length bytes = TOKEN_BYTE_LEN then Inl EmptyUsername
      else case access_token_from_bytes (take TOKEN_BYTE_LEN bytes) of
             Inl e \<Rightarrow> Inl (InvalidAccessToken e)
           | Inr access_token \<Rightarrow>
               let username_str = bytes_str (drop TOKEN_BYTE_LEN bytes) in
               if \<not> utf8_valid username_str then Inl InvalidUtf8
               else (case username_new username_str of
                       None \<Rightarrow> Inl EmptyUsername
                     | Some username \<Rightarrow> Inr \<lparr>us_username = username, us_access_token = access_token\<rparr>))"

section \<open>Signed tokens\<close>

datatype 'e signature_error = SigInvalidLength | InvalidSignature | TokenError 'e

abbreviation SIGNATURE_SIZE :: nat where "SIGNATURE_SIZE \<equiv> 32"

definition sign_token :: "(bytes \<Rightarrow> bytes \<Rightarrow> bytes) \<Rightarrow> bytes \<Rightarrow> ('t \<Rightarrow> bytes) \<Rightarrow> 't \<Rightarrow> bytes" where
  "sign_token hmac server_key as_bytes token =
     (let signed = as_bytes token in signed @ hmac server_key signed)"

definition signer_from_bytes ::
    "(bytes \<Rightarrow> bytes \<Rightarrow> bytes) \<Rightarrow> bytes \<Rightarrow> (bytes \<Rightarrow> 'e + 't) \<Rightarrow> bytes \<Rightarrow> 'e signature_error + 't" where
  "signer_from_bytes hmac server_key from_bytes bytes =
     (if length bytes \<le> SIGNATURE_SIZE then Inl SigInvalidLength
      else let payload = take (length bytes - SIGNATURE_SIZE) bytes;
               signature = drop (length bytes - SIGNATURE_SIZE) bytes in
           if hmac server_key payload \<noteq> signature then Inl InvalidSignature
           else (case from_bytes payload of Inl err \<Rightarrow> Inl (TokenError err) | Inr token \<Rightarrow> Inr token))"

locale binary_token =
  fixes as_bytes :: "'t \<Rightarrow> bytes" and from_bytes :: "bytes \<Rightarrow> 'e + 't" and wf_token :: "'t \<Rightarrow> bool"
  assumes from_as: "wf_token t \<Longrightarrow> from_bytes (as_bytes t) = Inr t"
    and as_from: "from_bytes bs = Inr t \<Longrightarrow> as_bytes t = bs \<and> wf_token t"
    and nonempty: "as_bytes t \<noteq> []"
begin

lemma signed_accepted:
  assumes "\<And>k m. length (hmac k m) = SIGNATURE_SIZE" "wf_token t"
  shows "signer_from_bytes hmac key from_bytes (sign_token hmac key as_bytes t) = Inr t"
  using assms(1) [of key "as_bytes t"] from_as [OF assms(2)] nonempty [of t]
  by (simp add: signer_from_bytes_def sign_token_def Let_def)

lemma accepted_signed:
  assumes "signer_from_bytes hmac key from_bytes bs = Inr t"
  shows "bs = sign_token hmac key as_bytes t \<and> wf_token t"
proof -
  let ?p = "take (length bs - SIGNATURE_SIZE) bs"
  have h: "hmac key ?p = drop (length bs - SIGNATURE_SIZE) bs" and f: "from_bytes ?p = Inr t"
    using assms by (auto simp: signer_from_bytes_def Let_def split: if_splits sum.splits)
  have "as_bytes t = ?p" "wf_token t" using as_from [OF f] by auto
  then show ?thesis using h by (simp add: sign_token_def)
qed

lemma accept_iff:
  assumes "\<And>k m. length (hmac k m) = SIGNATURE_SIZE"
  shows "signer_from_bytes hmac key from_bytes bs = Inr t \<longleftrightarrow> wf_token t \<and> bs = sign_token hmac key as_bytes t"
  using signed_accepted [of hmac t key, OF assms] accepted_signed [of hmac key bs t] by auto

end

section \<open>The two tokens meet the contract\<close>

lemma length_le_bytes [simp]: "length (le_bytes k n) = k"
  by (induction k arbitrary: n) simp_all

lemma unat_byte_of_nat: "unat (of_nat (n mod 256) :: 8 word) = n mod 256"
  by (simp add: unat_of_nat)

lemma le_val_le_bytes: "n < 256 ^ k \<Longrightarrow> le_val (le_bytes k n) = n"
proof (induction k arbitrary: n)
  case (Suc k)
  then have "n div 256 < 256 ^ k" by (simp add: less_mult_imp_div_less mult.commute)
  then show ?case using Suc.IH [of "n div 256"] by (simp add: unat_byte_of_nat)
qed simp

lemma unat_byte_lt: "unat (b :: 8 word) < 256"
  using unsigned_less [of b, where ?'a = nat] by simp

lemma le_val_bound: "le_val bs < 256 ^ length bs"
proof (induction bs)
  case (Cons b bs)
  have "unat b + 256 * le_val bs < 256 * (le_val bs + 1)" using unat_byte_lt [of b] by simp
  also have "\<dots> \<le> 256 * 256 ^ length bs" using Cons by (intro mult_le_mono) simp_all
  finally show ?case by simp
qed simp

lemma le_bytes_le_val: "le_bytes (length bs) (le_val bs) = bs"
proof (induction bs)
  case (Cons b bs)
  have "(unat b + 256 * le_val bs) mod 256 = unat b" "(unat b + 256 * le_val bs) div 256 = le_val bs"
    using unat_byte_lt [of b] by simp_all
  then show ?case using Cons by simp
qed simp

lemma le_val_inj: "length bs = length cs \<Longrightarrow> le_val bs = le_val cs \<Longrightarrow> bs = cs"
  by (metis le_bytes_le_val)

lemma length_put_u64_le [simp]: "length (put_u64_le w) = 8"
  by (simp add: put_u64_le_def)

lemma u64_le_roundtrip [simp]: "u64_from_le_bytes (put_u64_le w) = w"
proof -
  have "unat w < 256 ^ 8" using unsigned_less [of w, where ?'a = nat] by simp
  then show ?thesis by (simp add: u64_from_le_bytes_def put_u64_le_def le_val_le_bytes)
qed

lemma put_u64_le_from:
  assumes "length bs = 8"
  shows "put_u64_le (u64_from_le_bytes bs) = bs"
proof -
  have "le_val bs < 2 ^ 64" using le_val_bound [of bs] assms by simp
  then have "unat (of_nat (le_val bs) :: 64 word) = le_val bs" by (simp add: unat_of_nat)
  then show ?thesis using le_bytes_le_val [of bs] assms by (simp add: put_u64_le_def u64_from_le_bytes_def)
qed

lemma length_access_token_bytes [simp]: "length (access_token_as_bytes t) = TOKEN_BYTE_LEN"
  by (simp add: access_token_as_bytes_def)

definition token_wf :: "access_token \<Rightarrow> bool" where
  "token_wf t \<longleftrightarrow> at_issued_at t \<le> at_valid_until t"

lemma access_token_from_as: "token_wf t \<Longrightarrow> access_token_from_bytes (access_token_as_bytes t) = Inr t"
  by (simp add: access_token_from_bytes_def access_token_as_bytes_def token_wf_def Let_def)

lemma split_token:
  assumes "length bs = 26"
  shows "bs = [bs ! 0, bs ! 1] @ take 8 (drop 2 bs) @ take 8 (drop 10 bs) @ take 8 (drop 18 bs)"
proof -
  have t: "take 2 bs = [bs ! 0, bs ! 1]"
    using assms by (cases bs; cases "tl bs") (auto simp: numeral_2_eq_2)
  have "drop 2 bs = take 8 (drop 2 bs) @ drop 10 bs" "drop 10 bs = take 8 (drop 10 bs) @ drop 18 bs"
    "drop 18 bs = take 8 (drop 18 bs)"
    using append_take_drop_id [of 8 "drop 2 bs"] append_take_drop_id [of 8 "drop 10 bs"] assms
    by simp_all
  then show ?thesis using t append_take_drop_id [of 2 bs] by metis
qed

lemma access_token_as_from:
  assumes "access_token_from_bytes bs = Inr t"
  shows "access_token_as_bytes t = bs \<and> token_wf t"
proof -
  have len: "length bs = 26"
    using assms by (auto simp: access_token_from_bytes_def Let_def split: if_splits)
  have t: "t = \<lparr>at_permissions = bs ! 1, at_valid_until = u64_from_le_bytes (take 8 (drop 10 bs)),
      at_issued_at = u64_from_le_bytes (take 8 (drop 2 bs)), at_nonce = u64_from_le_bytes (take 8 (drop 18 bs))\<rparr>"
    and v: "bs ! 0 = 1" and w: "token_wf t"
    using assms by (auto simp: access_token_from_bytes_def token_wf_def Let_def split: if_splits)
  have "access_token_as_bytes t = [bs ! 0, bs ! 1] @ take 8 (drop 2 bs) @ take 8 (drop 10 bs) @ take 8 (drop 18 bs)"
    using t v len by (simp add: access_token_as_bytes_def put_u64_le_from)
  then show ?thesis using split_token [OF len] w by simp
qed

interpretation access: binary_token access_token_as_bytes access_token_from_bytes token_wf
  by (unfold_locales; (erule access_token_from_as | erule access_token_as_from | simp add: access_token_as_bytes_def))

lemma char_of_byte: "char_of (unat (of_nat (byte c) :: 8 word)) = c"
proof -
  have "byte c mod 256 < 256" by (rule mod_less_divisor) simp
  then have "byte c < 2 ^ LENGTH(8)" by simp
  then have "unat (of_nat (byte c) :: 8 word) = byte c" by (simp add: unat_of_nat)
  then show ?thesis by simp
qed

lemma bytes_str_str_bytes [simp]: "bytes_str (str_bytes s) = s"
  by (simp add: bytes_str_def str_bytes_def comp_def char_of_byte map_idI)

lemma str_bytes_bytes_str [simp]: "str_bytes (bytes_str bs) = bs"
proof -
  have "(of_nat (byte (char_of (unat b))) :: 8 word) = b" for b :: "8 word"
    using unat_byte_lt [of b] by simp
  then show ?thesis by (simp add: bytes_str_def str_bytes_def comp_def map_idI)
qed

definition session_wf :: "user_session \<Rightarrow> bool" where
  "session_wf s \<longleftrightarrow> token_wf (us_access_token s) \<and> utf8_valid (us_username s) \<and> trim (us_username s) \<noteq> []"

lemma trim_Nil [simp]: "trim [] = []"
  by (simp add: trim_def trim_start_id trim_end_id)

lemma user_session_from_as: "session_wf s \<Longrightarrow> user_session_from_bytes (user_session_as_bytes s) = Inr s"
proof -
  assume s: "session_wf s"
  then have "us_username s \<noteq> []" by (auto simp: session_wf_def)
  then have "length (str_bytes (us_username s)) > 0" by (simp add: str_bytes_def)
  then show ?thesis
    using s by (simp add: user_session_from_bytes_def user_session_as_bytes_def session_wf_def
        access_token_from_as username_new_def Let_def)
qed

lemma user_session_as_from:
  assumes "user_session_from_bytes bs = Inr s"
  shows "user_session_as_bytes s = bs \<and> session_wf s"
proof -
  obtain t where t: "access_token_from_bytes (take 26 bs) = Inr t"
    "s = \<lparr>us_username = bytes_str (drop 26 bs), us_access_token = t\<rparr>"
    "utf8_valid (bytes_str (drop 26 bs))" "trim (bytes_str (drop 26 bs)) \<noteq> []"
    using assms
    by (auto simp: user_session_from_bytes_def username_new_def Let_def split: if_splits sum.splits)
  then show ?thesis
    using access_token_as_from [OF t(1)] by (simp add: user_session_as_bytes_def session_wf_def)
qed

interpretation session: binary_token user_session_as_bytes user_session_from_bytes session_wf
  by (unfold_locales; (erule user_session_from_as | erule user_session_as_from
        | simp add: user_session_as_bytes_def access_token_as_bytes_def))

lemma build_wf: "token_wf (access_token_build p d now n)"
proof (cases "unat now + unat d < 2 ^ 64")
  case True
  then have "unat (now + d) = unat now + unat d"
    by (simp add: unat_word_ariths)
  then show ?thesis
    using True by (simp add: token_wf_def access_token_build_def saturating_add_def word_le_nat_alt)
qed (simp add: token_wf_def access_token_build_def saturating_add_def)

section \<open>Properties\<close>

text \<open>The binary format of access tokens is exact. A byte string is a token if and only if it is
  the 26 bytes of one whose issue time is not after its expiry, so reading and writing are
  inverse in both directions; and every token the builder makes is one, saturation included.\<close>

theorem access_token_codec:
  "(access_token_from_bytes bs = Inr t \<longleftrightarrow> at_issued_at t \<le> at_valid_until t \<and> bs = access_token_as_bytes t)
   \<and> access_token_from_bytes (access_token_as_bytes (access_token_build p d now n)) = Inr (access_token_build p d now n)"
  using access_token_from_as [of t] access_token_as_from [of bs t] access_token_from_as [OF build_wf]
  by (auto simp: token_wf_def)

text \<open>C39: A signed session is authentic. Whatever key and whatever function of 32 bytes the signer is
  given, the signer accepts a byte string as a session if and only if the string is exactly the
  session's bytes followed by the keyed hash of these bytes: no byte of an accepted cookie is
  unsigned, and every cookie the server signs is accepted.\<close>

theorem session_signature_exact:
  assumes "\<And>k m. length (hmac k m) = 32"
  shows "signer_from_bytes hmac key user_session_from_bytes bs = Inr s \<longleftrightarrow>
    session_wf s \<and> bs = sign_token hmac key user_session_as_bytes s"
  by (rule session.accept_iff [OF assms])

theorem session_signature_exact_witness:
  "signer_from_bytes (\<lambda>k m. replicate 32 7) [1] user_session_from_bytes
     (sign_token (\<lambda>k m. replicate 32 7) [1] user_session_as_bytes
        \<lparr>us_username = ''bob'', us_access_token = access_token_build P_FSD 60 1000 5\<rparr>)
   = Inr \<lparr>us_username = ''bob'', us_access_token = access_token_build P_FSD 60 1000 5\<rparr>"
proof -
  have "trim ''bob'' = ''bob''" by code_simp
  then have "session_wf \<lparr>us_username = ''bob'', us_access_token = access_token_build P_FSD 60 1000 5\<rparr>"
    by (simp add: session_wf_def build_wf)
  then show ?thesis
    using session_signature_exact [of "\<lambda>k m. replicate 32 7" "[1]"] by simp
qed

text \<open>The initials of a user name can panic. \<open>get_initials\<close> takes the first two bytes; a name
  that starts with a character of three bytes is a valid name, and its initials slice that
  character.\<close>

theorem get_initials_panics:
  "let u = [CHR 0xE2, CHR 0x82, CHR 0xAC] in
   utf8_valid u \<and> username_new u = Some u \<and> get_initials u = None"
  by code_simp

end
