(* ===== verification/Users.thy ===== *)
theory Users
  imports Tokens
begin

unbundle bit_operations_syntax

text \<open>
  \<open>auth/user_store.rs\<close>: the users and their sessions. scrypt (with the fixed parameters of the
  builder), the random salt, the clock and the nonce are parameters. \<open>HashMap\<close> is a map; the
  builder panics (\<open>expect\<close>) where scrypt rejects its output length.
\<close>

datatype session_error = InvalidLogin | InvalidOutputLength

record user_profile = up_permissions :: permissions  up_username :: string

record user = u_profile :: user_profile  u_salt :: bytes  u_password_hash :: bytes

record user_store =
  st_users :: "string \<rightharpoonup> user"
  st_session_duration :: "64 word"

record user_store_builder =
  sb_users :: "string \<rightharpoonup> user"
  sb_session_duration :: "64 word option"

section \<open>Comparing hashes\<close>

text \<open>\<open>cmp_hash\<close> reads the 32 bytes as two \<open>u128\<close> and collects the differences with \<open>|\<close>.\<close>

definition read_u128 :: "bytes \<Rightarrow> nat \<Rightarrow> 128 word" where
  "read_u128 bs i = of_nat (le_val (take 16 (drop (16 * i) bs)))"

definition cmp_hash :: "bytes \<Rightarrow> bytes \<Rightarrow> bool" where
  "cmp_hash lhs rhs =
     (foldl (\<lambda>result i. result OR (read_u128 lhs i XOR read_u128 rhs i)) 0 [0, 1] = 0)"

section \<open>The store\<close>

definition new_session :: "user_store \<Rightarrow> user \<Rightarrow> string \<Rightarrow> 64 word \<Rightarrow> 64 word \<Rightarrow> user_session" where
  "new_session store user username now nonce =
     \<lparr>us_username = username,
      us_access_token = access_token_build (up_permissions (u_profile user)) (st_session_duration store) now nonce\<rparr>"

definition login_user ::
    "(bytes \<Rightarrow> bytes \<Rightarrow> bytes option) \<Rightarrow> 64 word \<Rightarrow> 64 word \<Rightarrow> user_store \<Rightarrow> string \<Rightarrow> string \<Rightarrow> session_error + user_session" where
  "login_user scrypt now nonce store username password =
     (case st_users store username of
        Some user \<Rightarrow>
          (case scrypt (str_bytes password) (u_salt user) of
             None \<Rightarrow> Inl InvalidOutputLength
           | Some output \<Rightarrow>
               if cmp_hash output (u_password_hash user) then Inr (new_session store user username now nonce)
               else Inl InvalidLogin)
      | None \<Rightarrow> Inl InvalidLogin)"

definition renew_session ::
    "64 word \<Rightarrow> 64 word \<Rightarrow> user_store \<Rightarrow> string \<Rightarrow> session_error + user_session" where
  "renew_session now nonce store username =
     (case st_users store username of
        Some user \<Rightarrow> Inr (new_session store user username now nonce)
      | None \<Rightarrow> Inl InvalidLogin)"

definition contains_user :: "user_store \<Rightarrow> string \<Rightarrow> bool" where
  "contains_user store username \<longleftrightarrow> st_users store username \<noteq> None"

definition builder_store_new :: user_store_builder where
  "builder_store_new = \<lparr>sb_users = Map.empty, sb_session_duration = None\<rparr>"

text \<open>\<open>add_user\<close> with the salt it drew; \<open>None\<close> is the panic of \<open>expect\<close>. Returns the user it replaced.\<close>

definition add_user ::
    "(bytes \<Rightarrow> bytes \<Rightarrow> bytes option) \<Rightarrow> bytes \<Rightarrow> user_profile \<Rightarrow> bytes \<Rightarrow> user_store_builder
       \<Rightarrow> (user option \<times> user_store_builder) option" where
  "add_user scrypt salt profile password b =
     (case scrypt password salt of
        None \<Rightarrow> None
      | Some hash \<Rightarrow>
          let u = \<lparr>u_profile = profile, u_salt = salt, u_password_hash = hash\<rparr>;
              key = up_username profile in
          Some (sb_users b key, b\<lparr>sb_users := (sb_users b)(key \<mapsto> u)\<rparr>))"

definition with_session_duration :: "64 word \<Rightarrow> user_store_builder \<Rightarrow> user_store_builder" where
  "with_session_duration d b = b\<lparr>sb_session_duration := Some d\<rparr>"

definition store_build :: "user_store_builder \<Rightarrow> user_store" where
  "store_build b =
     \<lparr>st_users = sb_users b,
      st_session_duration = (case sb_session_duration b of Some d \<Rightarrow> d | None \<Rightarrow> 604800)\<rparr>"

section \<open>Lemmas\<close>

lemma xor_zero_iff: "(a XOR b = 0) = (a = (b :: 'a::len word))"
  by (simp add: bit_eq_iff bit_xor_iff)

lemma or_zero_iff: "(a OR b = 0) = (a = 0 \<and> b = (0 :: 'a::len word))"
  by (auto simp: bit_eq_iff bit_or_iff)

lemma read_u128_inj:
  assumes "length a = 32" "length b = 32" "i < 2" "read_u128 a i = read_u128 b i"
  shows "take 16 (drop (16 * i) a) = take 16 (drop (16 * i) b)"
proof -
  have len: "length (take 16 (drop (16 * i) a)) = 16" "length (take 16 (drop (16 * i) b)) = 16"
    using assms(1-3) by simp_all
  have "le_val (take 16 (drop (16 * i) a)) < 2 ^ LENGTH(128)" "le_val (take 16 (drop (16 * i) b)) < 2 ^ LENGTH(128)"
    using le_val_bound [of "take 16 (drop (16 * i) a)"] le_val_bound [of "take 16 (drop (16 * i) b)"] len by simp_all
  then have "unat (read_u128 a i) = le_val (take 16 (drop (16 * i) a))"
    "unat (read_u128 b i) = le_val (take 16 (drop (16 * i) b))"
    by (simp_all add: read_u128_def unat_of_nat)
  then have "le_val (take 16 (drop (16 * i) a)) = le_val (take 16 (drop (16 * i) b))"
    using assms(4) by simp
  then show ?thesis using le_val_inj len by metis
qed

lemma cmp_hash_eq:
  assumes "length a = 32" "length b = 32"
  shows "cmp_hash a b \<longleftrightarrow> a = b"
proof
  assume "cmp_hash a b"
  then have "read_u128 a 0 = read_u128 b 0" "read_u128 a 1 = read_u128 b 1"
    by (simp_all add: cmp_hash_def or_zero_iff xor_zero_iff)
  then have "take 16 (drop (16 * 0) a) = take 16 (drop (16 * 0) b)" "take 16 (drop (16 * 1) a) = take 16 (drop (16 * 1) b)"
    using assms by (intro read_u128_inj; simp)+
  then have "take 16 a @ drop 16 a = take 16 b @ drop 16 b"
    using assms by simp
  then show "a = b" by simp
qed (simp add: cmp_hash_def)

section \<open>Properties\<close>

text \<open>The constant-time comparison is equality: on 32 bytes, collecting the differences of the two
  halves as 128-bit words finds any difference and nothing else.\<close>

theorem cmp_hash_is_equality:
  assumes "length lhs = 32" and "length rhs = 32"
  shows "cmp_hash lhs rhs \<longleftrightarrow> lhs = rhs"
  using cmp_hash_eq [OF assms] .

theorem cmp_hash_is_equality_witness:
  "cmp_hash (replicate 32 0) (replicate 31 0 @ [1]) \<longleftrightarrow> replicate 32 0 = replicate 31 (0 :: 8 word) @ [1]"
  by (rule cmp_hash_is_equality) simp_all

text \<open>Login is sound and complete. Over a hash of 32 bytes, a user who was added last under a name
  logs in with exactly the passwords that hash, under the user's salt, to the hash of the
  password the user was added with; the session carries the user's name and exactly the user's
  permissions, issued now for the store's session duration.\<close>

theorem login_after_add:
  assumes "\<And>p s h. scrypt p s = Some h \<Longrightarrow> length h = 32" and "\<And>p s. scrypt p s \<noteq> None"
    and "add_user scrypt salt profile (str_bytes password) b = Some (old, b')"
  shows "login_user scrypt now nonce (store_build b') (up_username profile) attempt =
    (if scrypt (str_bytes attempt) salt = scrypt (str_bytes password) salt
     then Inr \<lparr>us_username = up_username profile,
               us_access_token = access_token_build (up_permissions profile) (st_session_duration (store_build b')) now nonce\<rparr>
     else Inl InvalidLogin)"
proof -
  obtain h where h: "scrypt (str_bytes password) salt = Some h" using assms(2) by blast
  obtain g where g: "scrypt (str_bytes attempt) salt = Some g" using assms(2) by blast
  have "cmp_hash g h \<longleftrightarrow> g = h"
    using assms(1) g h by (intro cmp_hash_eq)
  then show ?thesis
    using assms(3) g h
    by (auto simp: login_user_def add_user_def store_build_def new_session_def Let_def)
qed

theorem login_after_add_witness:
  "login_user (\<lambda>p s. Some (take 32 (p @ replicate 32 0))) 100 7
     (store_build (snd (the (add_user (\<lambda>p s. Some (take 32 (p @ replicate 32 0))) [] \<lparr>up_permissions = P_FSD, up_username = ''bob''\<rparr>
        (str_bytes ''pw'') builder_store_new)))) ''bob'' ''no'' = Inl InvalidLogin"
proof -
  let ?h = "\<lambda>p (s :: bytes). Some (take 32 (p @ replicate 32 (0 :: 8 word)))"
  let ?p = "\<lparr>up_permissions = P_FSD, up_username = ''bob''\<rparr>"
  obtain old b' where a: "add_user ?h [] ?p (str_bytes ''pw'') builder_store_new = Some (old, b')"
    by (simp add: add_user_def Let_def)
  have "?h (str_bytes ''no'') [] \<noteq> ?h (str_bytes ''pw'') []"
    by (simp add: str_bytes_def)
  then show ?thesis
    using login_after_add [OF _ _ a, of 100 7 "''no''"] a by simp
qed

end
