(* ===== verification/Http_Auth.thy ===== *)
theory Http_Auth
  imports Users
begin

text \<open>
  Authentication of the HTTP interface: the middleware of \<open>http/json_api/middleware\<close> and
  \<open>http/hypermedia/middleware\<close>, the login and the API key pages. A middleware is a function on
  the handler it wraps, and a handler is a function of the request and the server's state. A request has the parts these functions read, and the two extensions
  they insert; a response has its status, its headers and, instead of rendered HTML or JSON, the
  text that is rendered (the title of a problem, the name of a page). Header decoding, base64,
  the keyed hash, the clock, the random nonce and the cookie printer are the fields of
  \<open>http_env\<close>; form decoding has happened (\<open>Inl\<close> is the rejection).
\<close>

record http_env =
  he_to_str :: "string \<Rightarrow> string option"
  he_decode :: "string \<Rightarrow> bytes option"
  he_encode :: "bytes \<Rightarrow> string"
  he_hmac :: "bytes \<Rightarrow> bytes \<Rightarrow> bytes"
  he_server_key :: bytes
  he_now :: "64 word"
  he_nonce :: "64 word"
  he_cookie :: "string \<Rightarrow> 64 word \<Rightarrow> string"

record request =
  rq_authorization :: "string option"
  rq_cookie :: "string option"
  rq_hx_request :: bool
  rq_content_length :: "string option"
  rq_token :: "access_token option"
  rq_session :: "user_session option"

record response =
  rs_status :: nat
  rs_headers :: "(string \<times> string) list"
  rs_body :: string

definition plain :: "nat \<Rightarrow> string \<Rightarrow> response" where
  "plain status body = \<lparr>rs_status = status, rs_headers = [], rs_body = body\<rparr>"

definition insert_header :: "string \<Rightarrow> string \<Rightarrow> response \<Rightarrow> response" where
  "insert_header name v r = r\<lparr>rs_headers := filter (\<lambda>h. fst h \<noteq> name) (rs_headers r) @ [(name, v)]\<rparr>"

text \<open>A handler works on a state of the server that the middleware does not know. It answers, or it
  waits for ever, or it panics; then there is no response.\<close>

datatype answer = Answer response | Waiting | Unwound

type_synonym 's handler = "request \<Rightarrow> 's \<Rightarrow> answer \<times> 's"

definition respond :: "response \<Rightarrow> 's \<Rightarrow> answer \<times> 's" where
  "respond r = (\<lambda>s. (Answer r, s))"

fun on_answer :: "(response \<Rightarrow> response) \<Rightarrow> answer \<Rightarrow> answer" where
  "on_answer f (Answer r) = Answer (f r)"
| "on_answer f Waiting = Waiting"
| "on_answer f Unwound = Unwound"

definition after_answer :: "(response \<Rightarrow> response) \<Rightarrow> ('s \<Rightarrow> answer \<times> 's) \<Rightarrow> 's \<Rightarrow> answer \<times> 's" where
  "after_answer f h = (\<lambda>s. case h s of (a, s) \<Rightarrow> (on_answer f a, s))"

section \<open>Bearer tokens of the JSON API\<close>

datatype invalid_auth = InvalidAuthHeaderValue | InvalidCookieValue

fun split_once :: "('a \<Rightarrow> bool) \<Rightarrow> 'a list \<Rightarrow> ('a list \<times> 'a list) option" where
  "split_once P [] = None"
| "split_once P (c # s) = (if P c then Some ([], s) else map_option (\<lambda>(a, b). (c # a, b)) (split_once P s))"

text \<open>The credentials of a bearer header: the text after the scheme.\<close>

definition bearer_credentials :: "http_env \<Rightarrow> string option \<Rightarrow> invalid_auth + string" where
  "bearer_credentials env header =
     (case Option.bind header (he_to_str env) of
        None \<Rightarrow> Inl InvalidAuthHeaderValue
      | Some s \<Rightarrow>
          let header_value = trim s in
          if header_value = [] then Inl InvalidAuthHeaderValue
          else (case split_once is_ascii_whitespace header_value of
                  Some (scheme, token) \<Rightarrow>
                    if \<not> eq_ignore_ascii_case (trim scheme) ''bearer'' then Inl InvalidAuthHeaderValue
                    else Inr (trim token)
                | None \<Rightarrow> Inl InvalidAuthHeaderValue))"

definition extract_bearer_token :: "http_env \<Rightarrow> string option \<Rightarrow> invalid_auth + access_token" where
  "extract_bearer_token env header =
     bind_res (bearer_credentials env header) (\<lambda>token.
       case he_decode env token of
         None \<Rightarrow> Inl InvalidAuthHeaderValue
       | Some bytes \<Rightarrow>
           (case signer_from_bytes (he_hmac env) (he_server_key env) access_token_from_bytes bytes of
              Inl _ \<Rightarrow> Inl InvalidAuthHeaderValue
            | Inr access_token \<Rightarrow>
                if is_active (he_now env) access_token then Inr access_token else Inl InvalidAuthHeaderValue))"

definition unauthorized :: response where
  "unauthorized = insert_header ''www-authenticate'' ''Bearer'' (plain 401 ''Unauthorized'')"

definition api_auth_call :: "http_env \<Rightarrow> 's handler \<Rightarrow> 's handler" where
  "api_auth_call env inner req =
     (case extract_bearer_token env (rq_authorization req) of
        Inr token \<Rightarrow> inner (req\<lparr>rq_token := Some token\<rparr>)
      | Inl _ \<Rightarrow> respond unauthorized)"

definition authorize_api_call :: "permissions \<Rightarrow> 's handler \<Rightarrow> 's handler" where
  "authorize_api_call permissions inner req =
     (case rq_token req of
        Some access_token \<Rightarrow>
          if has_permission access_token permissions then inner req else respond (plain 403 ''Access denied'')
      | None \<Rightarrow> respond unauthorized)"

text \<open>\<open>ValidateEmptyContentLength\<close>.\<close>

definition validate_empty_content_length :: "'s handler \<Rightarrow> 's handler" where
  "validate_empty_content_length inner req =
     (case rq_content_length req of
        Some header \<Rightarrow> if header = ''0'' then inner req else respond (plain 406 [])
      | None \<Rightarrow> inner req)"

section \<open>Sessions of the web pages\<close>

definition extract_user_session :: "http_env \<Rightarrow> user_store \<Rightarrow> string option \<Rightarrow> invalid_auth + user_session" where
  "extract_user_session env store cookie =
     (case cookie of
        Some v \<Rightarrow>
          (case he_decode env v of
             None \<Rightarrow> Inl InvalidCookieValue
           | Some bytes \<Rightarrow>
               (case signer_from_bytes (he_hmac env) (he_server_key env) user_session_from_bytes bytes of
                  Inl _ \<Rightarrow> Inl InvalidCookieValue
                | Inr session \<Rightarrow>
                    if is_active (he_now env) (us_access_token session) \<and> contains_user store (us_username session)
                    then Inr session else Inl InvalidCookieValue))
      | None \<Rightarrow> Inl InvalidCookieValue)"

definition user_auth_call :: "http_env \<Rightarrow> user_store \<Rightarrow> string \<Rightarrow> 's handler \<Rightarrow> 's handler" where
  "user_auth_call env store login_redirect inner req =
     (case extract_user_session env store (rq_cookie req) of
        Inr session \<Rightarrow> inner (req\<lparr>rq_session := Some session\<rparr>)
      | Inl _ \<Rightarrow>
          if rq_hx_request req then respond (insert_header ''hx-redirect'' login_redirect (plain 200 []))
          else respond (insert_header ''location'' login_redirect (plain 303 [])))"

definition authorize_user_call :: "permissions \<Rightarrow> 's handler \<Rightarrow> 's handler" where
  "authorize_user_call permissions inner req =
     (if (case rq_session req of Some session \<Rightarrow> has_permission (us_access_token session) permissions | None \<Rightarrow> False)
      then inner req
      else if rq_hx_request req
      then respond (insert_header ''hx-reswap'' ''none'' (plain 200 ''User is not authorized for this action''))
      else respond (plain 403 ''Forbidden''))"

definition session_cookie :: "http_env \<Rightarrow> user_session \<Rightarrow> string" where
  "session_cookie env session =
     he_cookie env (he_encode env (sign_token (he_hmac env) (he_server_key env) user_session_as_bytes session))
       (ttl (he_now env) (us_access_token session))"

definition renew_session_call :: "http_env \<Rightarrow> user_store \<Rightarrow> 64 word \<Rightarrow> 's handler \<Rightarrow> 's handler" where
  "renew_session_call env store renew_duration inner req =
     (case rq_session req of
        Some session \<Rightarrow>
          if ttl (he_now env) (us_access_token session) \<le> renew_duration \<and> contains_user store (us_username session) then
            (case renew_session (he_now env) (he_nonce env) store (us_username session) of
               Inr renewed \<Rightarrow>
                 after_answer (insert_header ''set-cookie'' (session_cookie env renewed))
                   (inner (req\<lparr>rq_session := Some renewed\<rparr>))
             | Inl _ \<Rightarrow> inner req)
          else inner req
      | None \<Rightarrow> inner req)"

definition htmx_redirect :: "response \<Rightarrow> response" where
  "htmx_redirect response =
     (if rs_status response \<ge> 300 \<and> rs_status response < 400 then
        (case map_of (rs_headers response) ''location'' of
           Some location \<Rightarrow> insert_header ''hx-redirect'' location response\<lparr>rs_status := 200\<rparr>
         | None \<Rightarrow> response)
      else response)"

definition htmx_redirect_call :: "'s handler \<Rightarrow> 's handler" where
  "htmx_redirect_call inner req = (if rq_hx_request req then after_answer htmx_redirect (inner req) else inner req)"

section \<open>Login and API keys\<close>

definition logged_in :: "http_env \<Rightarrow> user_store option \<Rightarrow> user_session option \<Rightarrow> bool" where
  "logged_in env store session =
     (case (session, store) of
        (Some s, Some st) \<Rightarrow> is_active (he_now env) (us_access_token s) \<and> contains_user st (us_username s)
      | _ \<Rightarrow> False)"

definition login_get :: "http_env \<Rightarrow> string \<Rightarrow> user_store option \<Rightarrow> request \<Rightarrow> response" where
  "login_get env base_path store req =
     (if logged_in env store (rq_session req) then insert_header ''location'' (base_path @ ''/'') (plain 303 [])
      else plain 200 ''login/+page.html'')"

definition login_post ::
    "(bytes \<Rightarrow> bytes \<Rightarrow> bytes option) \<Rightarrow> http_env \<Rightarrow> string \<Rightarrow> user_store option \<Rightarrow> string + (string \<times> string) \<Rightarrow> request \<Rightarrow> response" where
  "login_post scrypt env base_path store form req =
     (case form of
        Inl err \<Rightarrow> plain 200 err
      | Inr (username, password) \<Rightarrow>
          if logged_in env store (rq_session req) then insert_header ''location'' (base_path @ ''/'') (plain 303 [])
          else (case store of
                  Some st \<Rightarrow>
                    (case login_user scrypt (he_now env) (he_nonce env) st username password of
                       Inr session \<Rightarrow>
                         insert_header ''hx-redirect'' (base_path @ ''/'')
                           (insert_header ''set-cookie'' (session_cookie env session) (plain 200 []))
                     | Inl _ \<Rightarrow> plain 200 ''Invalid credentials, check your username and password!'')
                | None \<Rightarrow> plain 500 ''login routes are enabled but user store is missing''))"

text \<open>\<open>api_key::post\<close>; the form gives permissions and a duration in milliseconds that is not zero. The
  body of the success page is the key.\<close>

definition api_key_build :: "http_env \<Rightarrow> permissions \<Rightarrow> 64 word \<Rightarrow> access_token" where
  "api_key_build env permissions duration =
     access_token_build permissions (duration div 1000) (he_now env) (he_nonce env)"

definition api_key_post ::
    "http_env \<Rightarrow> string \<Rightarrow> user_store option \<Rightarrow> user_session \<Rightarrow> string + (permissions \<times> 64 word) \<Rightarrow> response" where
  "api_key_post env base_path store session form =
     (case form of
        Inr (permissions, duration) \<Rightarrow>
          if (case store of Some s \<Rightarrow> contains_user s (us_username session) | None \<Rightarrow> False) then
            if has_permission (us_access_token session) permissions then
              plain 200 (he_encode env (sign_token (he_hmac env) (he_server_key env) access_token_as_bytes
                (api_key_build env permissions duration)))
            else insert_header ''HX-Reswap'' ''none'' (plain 200 ''User doesn't have the necessary permissions.'')
          else insert_header ''location'' (base_path @ ''/not-found'') (plain 308 [])
      | Inl err \<Rightarrow> plain 200 err)"

section \<open>Lemmas\<close>

lemma extract_bearer_sound:
  assumes "extract_bearer_token env header = Inr t"
  shows "\<exists>credentials. bearer_credentials env header = Inr credentials
    \<and> he_decode env credentials = Some (sign_token (he_hmac env) (he_server_key env) access_token_as_bytes t)
    \<and> is_active (he_now env) t"
proof -
  obtain cr bytes where c: "bearer_credentials env header = Inr cr" "he_decode env cr = Some bytes"
    "signer_from_bytes (he_hmac env) (he_server_key env) access_token_from_bytes bytes = Inr t" "is_active (he_now env) t"
    using assms by (auto simp: extract_bearer_token_def bind_res_def split: option.splits sum.splits if_splits)
  then show ?thesis using access.accepted_signed [OF c(3)] by auto
qed

lemma extract_session_sound:
  assumes "extract_user_session env store cookie = Inr s"
  shows "\<exists>v. cookie = Some v
    \<and> he_decode env v = Some (sign_token (he_hmac env) (he_server_key env) user_session_as_bytes s)
    \<and> is_active (he_now env) (us_access_token s) \<and> contains_user store (us_username s)"
proof -
  obtain v bytes where c: "cookie = Some v" "he_decode env v = Some bytes"
    "signer_from_bytes (he_hmac env) (he_server_key env) user_session_from_bytes bytes = Inr s"
    "is_active (he_now env) (us_access_token s)" "contains_user store (us_username s)"
    using assms by (auto simp: extract_user_session_def split: option.splits sum.splits if_splits)
  then show ?thesis using session.accepted_signed [OF c(3)] by auto
qed

section \<open>Properties\<close>

text \<open>C17: Nobody reaches a protected handler of the JSON API without a valid key. Behind the two
  layers that guard a write route, a request is answered with 401 or 403 without the handler, or
  its header carries a token signed with the server's key, active now and with every permission
  the route demands, and then the handler gets the request with exactly this token. A refusal
  leaves the state of the server as it is.\<close>

theorem api_guard:
  "api_auth_call env (authorize_api_call perms inner) req \<in> {respond unauthorized, respond (plain 403 ''Access denied'')}
   \<or> (\<exists>t credentials. bearer_credentials env (rq_authorization req) = Inr credentials
        \<and> he_decode env credentials = Some (sign_token (he_hmac env) (he_server_key env) access_token_as_bytes t)
        \<and> is_active (he_now env) t \<and> has_permission t perms
        \<and> api_auth_call env (authorize_api_call perms inner) req = inner (req\<lparr>rq_token := Some t\<rparr>))"
proof (cases "extract_bearer_token env (rq_authorization req)")
  case (Inl e)
  then show ?thesis by (simp add: api_auth_call_def)
next
  case (Inr t)
  then show ?thesis
    using extract_bearer_sound [OF Inr]
    by (cases "has_permission t perms") (auto simp: api_auth_call_def authorize_api_call_def)
qed

text \<open>C18: Nobody reaches a protected page without a session. Behind the layers that guard a write of the
  web interface (session, renewal, permission), the handler runs only for a cookie signed with
  the server's key whose session is active and belongs to a user of the store, and the session
  it runs with has the permission of the route: the one in the cookie or, when that is about to
  expire, a new one with the permissions the store has now. Otherwise the answer is a redirect
  to the login page or a refusal.\<close>

theorem web_guard:
  "let answer = user_auth_call env store login (renew_session_call env store d (authorize_user_call perms inner)) req in
   answer \<in> {respond (insert_header ''hx-redirect'' login (plain 200 [])), respond (insert_header ''location'' login (plain 303 []))}
   \<or> (\<exists>v s s' wrap. rq_cookie req = Some v
        \<and> he_decode env v = Some (sign_token (he_hmac env) (he_server_key env) user_session_as_bytes s)
        \<and> is_active (he_now env) (us_access_token s) \<and> contains_user store (us_username s)
        \<and> (s' = s \<and> wrap = id
           \<or> renew_session (he_now env) (he_nonce env) store (us_username s) = Inr s'
             \<and> wrap = after_answer (insert_header ''set-cookie'' (session_cookie env s')))
        \<and> answer = wrap (if has_permission (us_access_token s') perms then inner (req\<lparr>rq_session := Some s'\<rparr>)
             else if rq_hx_request req
             then respond (insert_header ''hx-reswap'' ''none'' (plain 200 ''User is not authorized for this action''))
             else respond (plain 403 ''Forbidden'')))"
proof (cases "extract_user_session env store (rq_cookie req)")
  case (Inl e)
  then show ?thesis by (simp add: user_auth_call_def Let_def)
next
  case (Inr s)
  obtain v where v: "rq_cookie req = Some v"
    "he_decode env v = Some (sign_token (he_hmac env) (he_server_key env) user_session_as_bytes s)"
    "is_active (he_now env) (us_access_token s)" "contains_user store (us_username s)"
    using extract_session_sound [OF Inr] by blast
  show ?thesis
  proof (cases "ttl (he_now env) (us_access_token s) \<le> d \<and> is_ok (renew_session (he_now env) (he_nonce env) store (us_username s))")
    case True
    then obtain s' where r: "renew_session (he_now env) (he_nonce env) store (us_username s) = Inr s'"
      by (auto simp: is_ok_iff)
    have "user_auth_call env store login (renew_session_call env store d (authorize_user_call perms inner)) req
        = after_answer (insert_header ''set-cookie'' (session_cookie env s')) (authorize_user_call perms inner (req\<lparr>rq_session := Some s'\<rparr>))"
      using Inr True r v(4) by (simp add: user_auth_call_def renew_session_call_def)
    then show ?thesis
      using v r unfolding Let_def authorize_user_call_def by fastforce
  next
    case False
    then have "user_auth_call env store login (renew_session_call env store d (authorize_user_call perms inner)) req
        = authorize_user_call perms inner (req\<lparr>rq_session := Some s\<rparr>)"
      using Inr by (auto simp: user_auth_call_def renew_session_call_def split: sum.split)
    then show ?thesis
      using v unfolding Let_def authorize_user_call_def by fastforce
  qed
qed

section \<open>Issued keys\<close>

lemma split_once_first: "\<not> list_ex P a \<Longrightarrow> P c \<Longrightarrow> split_once P (a @ c # b) = Some (a, b)"
  by (induction a) auto

lemma bearer_credentials_key:
  assumes "he_to_str env (''Bearer '' @ key) = Some (''Bearer '' @ key)" "key \<noteq> []" "visible (hd key)" "visible (last key)"
  shows "bearer_credentials env (Some (''Bearer '' @ key)) = Inr key"
proof -
  have t: "trim (''Bearer '' @ key) = ''Bearer '' @ key"
    using assms(2,4) by (intro trim_visible) (simp_all add: visible_def)
  have b: "trim ''Bearer'' = ''Bearer''"
    by (intro trim_visible) (simp_all add: visible_def)
  have "split_once is_ascii_whitespace (''Bearer'' @ CHR '' '' # key) = Some (''Bearer'', key)"
    by (rule split_once_first) (simp_all add: is_ascii_whitespace_def)
  moreover have "eq_ignore_ascii_case ''Bearer'' ''bearer''" by code_simp
  ultimately show ?thesis
    using assms t b trim_visible [of key] by (simp add: bearer_credentials_def)
qed

lemma flag_has_trans:
  "flag_has a b \<Longrightarrow> flag_has b c \<Longrightarrow> flag_has a (c :: 'a::len word)"
  unfolding flag_has_def by (metis and.assoc)

text \<open>What is documented of the header decoder and of base64: texts of visible characters and spaces are
  header texts, and encoding gives visible characters and is undone by decoding.\<close>

definition env_ok :: "http_env \<Rightarrow> bool" where
  "env_ok env \<longleftrightarrow>
     (\<forall>s. list_all (\<lambda>c. visible c \<or> c = CHR '' '') s \<longrightarrow> he_to_str env s = Some s)
     \<and> (\<forall>b. he_decode env (he_encode env b) = Some b)
     \<and> (\<forall>b. b \<noteq> [] \<longrightarrow> he_encode env b \<noteq> [] \<and> list_all visible (he_encode env b))
     \<and> (\<forall>k m. length (he_hmac env k m) = 32)"

text \<open>C20: A key carries no more than its issuer has. If the page hands out a key, the key is accepted as
  a bearer token while it is active, it opens exactly the routes whose permission was asked for,
  and its issuer has these permissions too: nobody can mint a key with a permission the session
  lacks.\<close>

theorem api_key_no_escalation:
  assumes "env_ok env" and "api_key_post env base store session (Inr (asked, duration)) = plain 200 key"
    and "rq_authorization req = Some (''Bearer '' @ key)" and "is_active later (api_key_build env asked duration)"
  shows "api_auth_call (env\<lparr>he_now := later\<rparr>) (authorize_api_call perms inner) req =
      (if flag_has asked perms then inner (req\<lparr>rq_token := Some (api_key_build env asked duration)\<rparr>) else respond (plain 403 ''Access denied''))
    \<and> (flag_has asked perms \<longrightarrow> has_permission (us_access_token session) perms)"
proof -
  let ?t = "api_key_build env asked duration"
  let ?signed = "sign_token (he_hmac env) (he_server_key env) access_token_as_bytes ?t"
  have issued: "key = he_encode env ?signed" "flag_has (at_permissions (us_access_token session)) asked"
    using assms(2) by (auto simp: api_key_post_def has_permission_def insert_header_def plain_def split: if_splits)
  have "?signed \<noteq> []" by (simp add: sign_token_def access_token_as_bytes_def)
  then have key: "key \<noteq> []" "list_all visible key" using assms(1) issued(1) by (auto simp: env_ok_def)
  then have "list_all (\<lambda>c. visible c \<or> c = CHR '' '') (''Bearer '' @ key)"
    by (auto simp: visible_def list_all_iff)
  then have "he_to_str (env\<lparr>he_now := later\<rparr>) (''Bearer '' @ key) = Some (''Bearer '' @ key)"
    using assms(1) by (simp add: env_ok_def)
  then have "bearer_credentials (env\<lparr>he_now := later\<rparr>) (Some (''Bearer '' @ key)) = Inr key"
    using key by (intro bearer_credentials_key) (simp_all add: list_all_iff)
  moreover have "signer_from_bytes (he_hmac env) (he_server_key env) access_token_from_bytes ?signed = Inr ?t"
    using assms(1) build_wf by (intro access.signed_accepted) (simp_all add: env_ok_def api_key_build_def)
  moreover have "he_decode env key = Some ?signed" using assms(1) issued(1) by (simp add: env_ok_def)
  ultimately have "extract_bearer_token (env\<lparr>he_now := later\<rparr>) (rq_authorization req) = Inr ?t"
    using assms(3,4) by (simp add: extract_bearer_token_def)
  moreover have "has_permission ?t perms = flag_has asked perms"
    by (simp add: has_permission_def api_key_build_def access_token_build_def)
  ultimately show ?thesis
    using flag_has_trans issued(2) by (auto simp: api_auth_call_def authorize_api_call_def has_permission_def)
qed

text \<open>An encoding that fits, two letters per byte, for the example.\<close>

definition demo_encode :: "bytes \<Rightarrow> string" where
  "demo_encode b = concat (map (\<lambda>x. [char_of (65 + unat x div 16), char_of (65 + unat x mod 16)]) b)"

fun demo_decode :: "string \<Rightarrow> bytes option" where
  "demo_decode (a # b # s) = map_option ((#) (of_nat ((byte a - 65) * 16 + (byte b - 65)))) (demo_decode s)"
| "demo_decode [] = Some []"
| "demo_decode _ = None"

definition demo_env :: http_env where
  "demo_env = \<lparr>he_to_str = Some, he_decode = demo_decode, he_encode = demo_encode, he_hmac = (\<lambda>k m. replicate 32 7),
     he_server_key = [1], he_now = 100, he_nonce = 5, he_cookie = (\<lambda>v t. v)\<rparr>"

lemma demo_nibbles:
  assumes "n < (256 :: nat)"
  shows "byte (char_of (65 + n div 16)) = 65 + n div 16 \<and> byte (char_of (65 + n mod 16)) = 65 + n mod 16
    \<and> visible (char_of (65 + n div 16)) \<and> visible (char_of (65 + n mod 16))"
proof -
  have "n div 16 < 16" "n mod 16 < 16" using assms by auto
  then show ?thesis by (simp add: visible_def)
qed

lemma demo_encode_ok: "demo_decode (demo_encode b) = Some b \<and> list_all visible (demo_encode b)"
proof (induction b)
  case (Cons x b)
  have "unat x < 256" by (rule unat_byte_lt)
  note x = demo_nibbles [OF this]
  have "(of_nat (unat x) :: 8 word) = x" by simp
  then have "(of_nat (unat x div 16 * 16 + unat x mod 16) :: 8 word) = x" by (simp only: div_mult_mod_eq)
  then show ?case
    using Cons x unfolding demo_encode_def
    by (simp only: list.map concat.simps append_Cons append_Nil demo_decode.simps list.pred_inject option.map
        diff_add_inverse simp_thms)
qed (simp add: demo_encode_def)

lemma demo_env_ok: "env_ok demo_env"
  using demo_encode_ok by (auto simp: env_ok_def demo_env_def demo_encode_def neq_Nil_conv)

theorem api_key_no_escalation_witness:
  "let env = demo_env;
       session = \<lparr>us_username = ''bob'', us_access_token = access_token_build P_INSTCMD 600 50 1\<rparr>;
       store = \<lparr>st_users = [''bob'' \<mapsto> \<lparr>u_profile = \<lparr>up_permissions = P_INSTCMD, up_username = ''bob''\<rparr>, u_salt = [], u_password_hash = []\<rparr>],
                st_session_duration = 600\<rparr>;
       key = rs_body (api_key_post env [] (Some store) session (Inr (P_INSTCMD, 60000)));
       req = \<lparr>rq_authorization = Some (''Bearer '' @ key), rq_cookie = None, rq_hx_request = False, rq_content_length = None,
              rq_token = None, rq_session = None\<rparr> in
   api_auth_call (env\<lparr>he_now := 120\<rparr>) (authorize_api_call P_FSD (\<lambda>_. respond (plain 202 []))) req (0 :: nat) = (Answer (plain 403 ''Access denied''), 0)"
proof -
  let ?s = "\<lparr>us_username = ''bob'', us_access_token = access_token_build P_INSTCMD 600 50 1\<rparr>"
  let ?st = "\<lparr>st_users = [''bob'' \<mapsto> \<lparr>u_profile = \<lparr>up_permissions = P_INSTCMD, up_username = ''bob''\<rparr>, u_salt = [], u_password_hash = []\<rparr>],
                st_session_duration = 600\<rparr>"
  have p: "\<exists>key. api_key_post demo_env [] (Some ?st) ?s (Inr (P_INSTCMD, 60000)) = plain 200 key"
    by (auto simp add: api_key_post_def contains_user_def has_permission_def access_token_build_def flag_has_def)
  then have k: "api_key_post demo_env [] (Some ?st) ?s (Inr (P_INSTCMD, 60000))
      = plain 200 (rs_body (api_key_post demo_env [] (Some ?st) ?s (Inr (P_INSTCMD, 60000))))"
    by (auto simp: plain_def)
  have a: "is_active 120 (api_key_build demo_env P_INSTCMD 60000)"
    by (simp add: is_active_def api_key_build_def access_token_build_def demo_env_def saturating_add_def)
  show ?thesis
    using api_key_no_escalation [OF demo_env_ok k _ a, of "\<lparr>rq_authorization = Some (''Bearer ''
        @ rs_body (api_key_post demo_env [] (Some ?st) ?s (Inr (P_INSTCMD, 60000)))), rq_cookie = None, rq_hx_request = False,
        rq_content_length = None, rq_token = None, rq_session = None\<rparr>" P_FSD "(\<lambda>_. respond (plain 202 [])) :: nat handler"]
    by (simp add: flag_has_def respond_def)
qed

text \<open>Sessions and keys cannot be exchanged. Both are signed with the same key, but no signed session
  is accepted as a bearer token and no signed key as a session, because their lengths differ.\<close>

theorem tokens_not_interchangeable:
  assumes "\<And>k m. length (hmac k m) = 32" and "us_username s \<noteq> []"
  shows "\<not> is_ok (signer_from_bytes hmac key access_token_from_bytes (sign_token hmac key user_session_as_bytes s))
    \<and> \<not> is_ok (signer_from_bytes hmac key user_session_from_bytes (sign_token hmac key access_token_as_bytes t))"
proof -
  have "length (user_session_as_bytes s) > 26"
    using assms(2) by (simp add: user_session_as_bytes_def access_token_as_bytes_def put_u64_le_def str_bytes_def)
  moreover have "length (access_token_as_bytes t) = 26"
    by (simp add: access_token_as_bytes_def put_u64_le_def)
  ultimately show ?thesis
    using assms(1) by (simp add: signer_from_bytes_def sign_token_def Let_def access_token_from_bytes_def user_session_from_bytes_def)
qed

theorem tokens_not_interchangeable_witness:
  "\<not> is_ok (signer_from_bytes (\<lambda>k m. replicate 32 7) [1] access_token_from_bytes
     (sign_token (\<lambda>k m. replicate 32 7) [1] user_session_as_bytes
        \<lparr>us_username = ''bob'', us_access_token = access_token_build P_FSD 60 1000 5\<rparr>))"
  using tokens_not_interchangeable [of "\<lambda>k m. replicate 32 7"
      "\<lparr>us_username = ''bob'', us_access_token = access_token_build P_FSD 60 1000 5\<rparr>" "[1]"] by simp

end
