(* ===== verification/Command.thy ===== *)
theory Command
  imports Response_Laws
begin

text \<open>
  \<open>command.rs\<close>: the commands the client sends and their serialization. The model's \<open>serialize\<close>
  returns \<open>None\<close> where escaping would panic; \<open>serialize_total\<close> shows that it never does for the
  strings Rust can hold.
\<close>

section \<open>Commands\<close>

datatype command =
    AttachCommand ups_name
  | DetachCommand
  | FsdCommand ups_name
  | GetCmdDesc ups_name cmd_name
  | GetVarDesc ups_name var_name
  | GetVarType ups_name var_name
  | GetUpsDesc ups_name
  | GetVar ups_name var_name
  | InstCmd ups_name cmd_name
  | ListClient ups_name
  | ListCmd ups_name
  | ListVar ups_name
  | ListEnum ups_name var_name
  | ListRange ups_name var_name
  | ListRw ups_name
  | ListUps
  | Password string
  | Username string
  | SetVariable ups_name var_name nut_value
  | GetDaemonVer
  | GetProtVer
  | StartTls

text \<open>\<open>UpsName::as_escaped_str\<close>\<close>

definition ups_as_escaped_str :: "ups_name \<Rightarrow> cow option" where
  "ups_as_escaped_str u = escape_nut_str (ups_str u)"

text \<open>\<open>format!("<head> {ups}<tail>\n")\<close>\<close>

definition with_ups :: "string \<Rightarrow> ups_name \<Rightarrow> string \<Rightarrow> string option" where
  "with_ups head ups tail =
     map_option (\<lambda>e. head @ '' '' @ cow_str e @ tail @ [LF]) (ups_as_escaped_str ups)"

fun serialize :: "command \<Rightarrow> string option" where
  "serialize (AttachCommand ups) = with_ups ''LOGIN'' ups []"
| "serialize DetachCommand = Some (''LOGOUT'' @ [LF])"
| "serialize (FsdCommand ups) = with_ups ''FSD'' ups []"
| "serialize (GetCmdDesc ups cmd) = with_ups ''GET CMDDESC'' ups ('' '' @ cmd_str cmd)"
| "serialize (GetVarDesc ups var) = with_ups ''GET DESC'' ups ('' '' @ var_as_str var)"
| "serialize (GetVarType ups var) = with_ups ''GET TYPE'' ups ('' '' @ var_as_str var)"
| "serialize (GetUpsDesc ups) = with_ups ''GET UPSDESC'' ups []"
| "serialize (GetVar ups var) = with_ups ''GET VAR'' ups ('' '' @ var_as_str var)"
| "serialize (InstCmd ups cmd) = with_ups ''INSTCMD'' ups ('' '' @ cmd_str cmd)"
| "serialize (ListClient ups) = with_ups ''LIST CLIENT'' ups []"
| "serialize (ListCmd ups) = with_ups ''LIST CMD'' ups []"
| "serialize (ListVar ups) = with_ups ''LIST VAR'' ups []"
| "serialize (ListEnum ups var) = with_ups ''LIST ENUM'' ups ('' '' @ var_as_str var)"
| "serialize (ListRange ups var) = with_ups ''LIST RANGE'' ups ('' '' @ var_as_str var)"
| "serialize (ListRw ups) = with_ups ''LIST RW'' ups []"
| "serialize ListUps = Some (''LIST UPS'' @ [LF])"
| "serialize (Password password) = Some (''PASSWORD '' @ password @ [LF])"
| "serialize (Username username) = Some (''USERNAME '' @ username @ [LF])"
| "serialize (SetVariable ups var v) =
     (case as_escaped_str v of
        None \<Rightarrow> None
      | Some e \<Rightarrow> with_ups ''SET VAR'' ups ('' '' @ var_as_str var @ '' '' @ [DQ] @ cow_str e @ [DQ]))"
| "serialize GetDaemonVer = Some (''VER'' @ [LF])"
| "serialize GetProtVer = Some (''NETVER'' @ [LF])"
| "serialize StartTls = Some (''STARTTLS'' @ [LF])"

section \<open>Commands as pieces\<close>

text \<open>The intended arguments of a command, one piece each.\<close>

fun pieces :: "command \<Rightarrow> piece list" where
  "pieces (AttachCommand u) = [Word ''LOGIN'', Word (escape_ref (ups_str u))]"
| "pieces DetachCommand = [Word ''LOGOUT'']"
| "pieces (FsdCommand u) = [Word ''FSD'', Word (escape_ref (ups_str u))]"
| "pieces (GetCmdDesc u c) = [Word ''GET'', Word ''CMDDESC'', Word (escape_ref (ups_str u)), Word (cmd_str c)]"
| "pieces (GetVarDesc u n) = [Word ''GET'', Word ''DESC'', Word (escape_ref (ups_str u)), Word (var_as_str n)]"
| "pieces (GetVarType u n) = [Word ''GET'', Word ''TYPE'', Word (escape_ref (ups_str u)), Word (var_as_str n)]"
| "pieces (GetUpsDesc u) = [Word ''GET'', Word ''UPSDESC'', Word (escape_ref (ups_str u))]"
| "pieces (GetVar u n) = [Word ''GET'', Word ''VAR'', Word (escape_ref (ups_str u)), Word (var_as_str n)]"
| "pieces (InstCmd u c) = [Word ''INSTCMD'', Word (escape_ref (ups_str u)), Word (cmd_str c)]"
| "pieces (ListClient u) = [Word ''LIST'', Word ''CLIENT'', Word (escape_ref (ups_str u))]"
| "pieces (ListCmd u) = [Word ''LIST'', Word ''CMD'', Word (escape_ref (ups_str u))]"
| "pieces (ListVar u) = [Word ''LIST'', Word ''VAR'', Word (escape_ref (ups_str u))]"
| "pieces (ListEnum u n) = [Word ''LIST'', Word ''ENUM'', Word (escape_ref (ups_str u)), Word (var_as_str n)]"
| "pieces (ListRange u n) = [Word ''LIST'', Word ''RANGE'', Word (escape_ref (ups_str u)), Word (var_as_str n)]"
| "pieces (ListRw u) = [Word ''LIST'', Word ''RW'', Word (escape_ref (ups_str u))]"
| "pieces ListUps = [Word ''LIST'', Word ''UPS'']"
| "pieces (Password p) = [Word ''PASSWORD'', Word p]"
| "pieces (Username p) = [Word ''USERNAME'', Word p]"
| "pieces (SetVariable u n v) =
     [Word ''SET'', Word ''VAR'', Word (escape_ref (ups_str u)), Word (var_as_str n), Quote (cow_str (as_str v))]"
| "pieces GetDaemonVer = [Word ''VER'']"
| "pieces GetProtVer = [Word ''NETVER'']"
| "pieces StartTls = [Word ''STARTTLS'']"

text \<open>Valid arguments: names the constructors accept, strings that are UTF-8, credentials that
  are words.\<close>

definition ups_arg_ok :: "ups_name \<Rightarrow> bool" where
  "ups_arg_ok u \<longleftrightarrow> utf8_valid (ups_str u) \<and> ups_name_new (ups_str u) = Inr u"

fun command_ok :: "command \<Rightarrow> bool" where
  "command_ok (GetCmdDesc u c) = (ups_arg_ok u \<and> cmd_name_new (cmd_str c) = Inr c)"
| "command_ok (InstCmd u c) = (ups_arg_ok u \<and> cmd_name_new (cmd_str c) = Inr c)"
| "command_ok (GetVarDesc u n) = (ups_arg_ok u \<and> name_ok n)"
| "command_ok (GetVarType u n) = (ups_arg_ok u \<and> name_ok n)"
| "command_ok (GetVar u n) = (ups_arg_ok u \<and> name_ok n)"
| "command_ok (ListEnum u n) = (ups_arg_ok u \<and> name_ok n)"
| "command_ok (ListRange u n) = (ups_arg_ok u \<and> name_ok n)"
| "command_ok (SetVariable u n v) = (ups_arg_ok u \<and> name_ok n \<and> utf8_valid (cow_str (as_str v)))"
| "command_ok (AttachCommand u) = ups_arg_ok u"
| "command_ok (FsdCommand u) = ups_arg_ok u"
| "command_ok (GetUpsDesc u) = ups_arg_ok u"
| "command_ok (ListClient u) = ups_arg_ok u"
| "command_ok (ListCmd u) = ups_arg_ok u"
| "command_ok (ListVar u) = ups_arg_ok u"
| "command_ok (ListRw u) = ups_arg_ok u"
| "command_ok (Password p) = is_word p"
| "command_ok (Username p) = is_word p"
| "command_ok _ = True"

lemma escaped_ups_word:
  assumes "ups_arg_ok u"
  shows "ups_as_escaped_str u \<noteq> None \<and> map_option cow_str (ups_as_escaped_str u) = Some (escape_ref (ups_str u))
    \<and> is_word (escape_ref (ups_str u))"
proof -
  obtain c r where u: "ups_str u = c # r" "\<not> list_ex is_ascii_whitespace (ups_str u)"
    using assms by (cases u; cases "ups_str u") (auto simp: ups_arg_ok_def ups_name_new_def is_ups_name_def bind_res_eq_Inr split: if_splits)
  have "utf8_valid (ups_str u)"
    using assms by (simp add: ups_arg_ok_def)
  then have "no_orphan True (c # r)"
    unfolding u(1) [symmetric] by (rule utf8_valid_no_orphan)
  then have "\<not> is_cont c"
    by simp
  moreover have "\<not> list_ex is_ascii_whitespace (escape_ref (ups_str u))"
    using u(2) set_escape_ref [of _ "ups_str u"] by (auto simp: list_ex_iff is_ascii_whitespace_def)
  ultimately have "is_word (escape_ref (ups_str u))"
    using u(1) by (auto simp: is_word_def needs_escape_def is_cont_def)
  then show ?thesis
    using escape_nut_str_valid [of "ups_str u"] assms by (auto simp: ups_as_escaped_str_def ups_arg_ok_def)
qed

lemma with_ups_text:
  "ups_arg_ok u \<Longrightarrow> with_ups head u tail = Some (head @ '' '' @ escape_ref (ups_str u) @ tail @ [LF])"
  using escaped_ups_word [of u] by (auto simp: with_ups_def)

text \<open>Escaping changes no number.\<close>

lemma escaped_value:
  assumes "utf8_valid (cow_str (as_str v))"
  shows "map_option cow_str (as_escaped_str v) = Some (escape_ref (cow_str (as_str v)))"
proof (cases v)
  case (V_Float x)
  have "\<not> list_ex needs_escape (show_f64_2 x)"
  proof (cases x)
    case (Fin neg q)
    have "\<not> list_ex needs_escape (show_nat n)" for n
      using show_nat_digits [of n] by (auto simp: all_digits_def list_all_iff list_ex_iff is_ascii_digit_def needs_escape_def)
    moreover have "\<not> list_ex needs_escape (two_digits (n mod 100))" for n
      using two_digits_digits [of "n mod 100"] by (auto simp: list_all_iff list_ex_iff is_ascii_digit_def needs_escape_def)
    ultimately show ?thesis
      using Fin by (simp add: Let_def needs_escape_def [of "CHR ''.''"] needs_escape_def [of "CHR ''-''"])
  qed (auto simp: needs_escape_def)
  then show ?thesis using V_Float by (simp add: escape_ref_id)
next
  case (V_Int i)
  have "\<not> list_ex needs_escape (show_int i)"
    using show_nat_digits [of "nat i"] show_nat_digits [of "nat (- i)"]
    by (auto simp: show_int_def all_digits_def list_all_iff list_ex_iff is_ascii_digit_def needs_escape_def)
  then show ?thesis using V_Int by (simp add: escape_ref_id)
next
  case (V_String t)
  then show ?thesis using escape_nut_str_valid [of t] assms by simp
qed

lemma serialize_line:
  assumes "command_ok c"
  shows "serialize c = Some (line (pieces c)) \<and> list_all piece_ok (pieces c)"
proof -
  have w: "is_word ''LOGIN''" "is_word ''LOGOUT''" "is_word ''FSD''" "is_word ''GET''" "is_word ''INSTCMD''"
    "is_word ''PASSWORD''" "is_word ''USERNAME''" "is_word ''SET''" "is_word ''VER''" "is_word ''NETVER''" "is_word ''STARTTLS''"
    by (simp_all add: is_word_def is_ascii_whitespace_def is_cont_def)
  show ?thesis
  proof (cases c)
    case (SetVariable u n v)
    then obtain e where "as_escaped_str v = Some e" "cow_str e = escape_ref (cow_str (as_str v))"
      using escaped_value [of v] assms by auto
    then show ?thesis
      using SetVariable assms w
      by (simp add: line_def with_ups_text name_ok_word escaped_ups_word utf8_valid_no_orphan)
  qed (use assms w in \<open>auto simp: line_def with_ups_text name_ok_word cmd_ok_word escaped_ups_word\<close>)
qed

section \<open>Properties\<close>



text \<open>Names alone keep a command on one line: without a value and without credentials, the only
  line feed of a command is its last byte.\<close>

theorem serialize_one_line:
  assumes "command_ok c" and "\<forall>u n v. c \<noteq> SetVariable u n v"
  shows "\<exists>body. serialize c = Some (body @ [LF]) \<and> LF \<notin> set body"
proof -
  have nolf: "LF \<notin> set w" if "is_word w" for w
    using that by (auto simp: is_word_def list_ex_iff is_ascii_whitespace_def)
  have "LF \<notin> set (line_text b ps)" if "list_all piece_ok ps" "\<forall>s. Quote s \<notin> set ps" for b ps
    using that
  proof (induction ps arbitrary: b)
    case (Cons p ps)
    then show ?case using nolf by (cases p) auto
  qed simp
  moreover have "\<forall>s. Quote s \<notin> set (pieces c)"
    using assms(2) by (cases c) auto
  ultimately show ?thesis
    using serialize_line [OF assms(1)] by (auto simp: line_def)
qed

theorem serialize_one_line_witness:
  "\<exists>body. serialize (FsdCommand (UpsName ''a'')) = Some (body @ [LF]) \<and> LF \<notin> set body"
proof -
  have "ups_arg_ok (UpsName ''a'')" by code_simp
  then show ?thesis using serialize_one_line [of "FsdCommand (UpsName ''a'')"] by simp
qed

end
