(* ===== verification/Client.thy ===== *)
theory Client
  imports Command
begin

text \<open>
  \<open>client/client_base.rs\<close>, \<open>client/client_auth.rs\<close> and the protocol part of \<open>client/client_tls.rs\<close>:
  one connection to upsd. The peer is outside the program: a connection holds the texts that the
  next calls of \<open>read_line\<close> will deliver, and what happens after them (nothing more arrives, the
  peer closed, the transport failed). Bytes written are appended to \<open>outbox\<close>.

  \<open>tokio::time::timeout\<close> ends a request when its timer fires. The model counts the reads that
  complete before that: \<open>nc_timeout\<close> is the budget of a request, and a request that needs more
  reads, or a read that never completes, is \<open>RequestTimeout\<close>. So a loop that never ends in the
  source is a request that times out for every budget.
\<close>

section \<open>Connections\<close>

datatype stream_end = Idle | Eof | Failed string

record conn =
  inbox :: "string list"
  at_end :: stream_end
  write_error :: "string option"
  outbox :: string
  nc_timeout :: nat
  nc_open :: bool

datatype read_result = Read string | Read_Err string | Read_Pending

text \<open>\<open>reader.read_line(&mut buf).await\<close>: what is appended to the buffer; nothing at the end of the
  stream.\<close>

definition read_line :: "conn \<Rightarrow> read_result \<times> conn" where
  "read_line c =
     (case inbox c of
        l # ls \<Rightarrow> (Read l, c\<lparr>inbox := ls\<rparr>)
      | [] \<Rightarrow>
          (case at_end c of
             Idle \<Rightarrow> (Read_Pending, c)
           | Eof \<Rightarrow> (Read [], c)
           | Failed k \<Rightarrow> (Read_Err k, c)))"

text \<open>The loop that reads the rows of a list; \<open>None\<close> when the timer fires first.\<close>

fun read_list_loop :: "nat \<Rightarrow> string \<Rightarrow> nat \<Rightarrow> conn \<Rightarrow> (fault + string) option \<times> conn" where
  "read_list_loop 0 response_buf start_pos c = (None, c)"
| "read_list_loop (Suc n) response_buf start_pos c =
     (case read_line c of
        (Read_Pending, c) \<Rightarrow> (None, c)
      | (Read_Err k, c) \<Rightarrow> (Some (Inl (Err (IOError k))), c)
      | (Read l, c) \<Rightarrow>
          let response_buf = response_buf @ l; line = drop start_pos response_buf in
          if prefix ''END LIST'' line then (Some (Inr response_buf), c)
          else read_list_loop n response_buf (start_pos + length l) c)"

definition inner_send_raw :: "string \<Rightarrow> conn \<Rightarrow> (fault + string) option \<times> conn" where
  "inner_send_raw send c =
     (case write_error c of
        Some k \<Rightarrow> (Some (Inl (Err (IOError k))), c)
      | None \<Rightarrow>
          let c = c\<lparr>outbox := outbox c @ send\<rparr> in
          (case nc_timeout c of
             0 \<Rightarrow> (None, c)
           | Suc n \<Rightarrow>
               (case read_line c of
                  (Read_Pending, c) \<Rightarrow> (None, c)
                | (Read_Err k, c) \<Rightarrow> (Some (Inl (Err (IOError k))), c)
                | (Read response_buf, c) \<Rightarrow>
                    if prefix ''BEGIN LIST'' response_buf then
                      read_list_loop n response_buf (length response_buf) c
                    else if prefix ''ERR'' response_buf then
                      (Some (Inl (Err (ProtocolError (protocol_error_from (trim (drop 3 response_buf)))))), c)
                    else (Some (Inr response_buf), c))))"

definition send_raw :: "string \<Rightarrow> conn \<Rightarrow> (fault + string) \<times> conn" where
  "send_raw send c =
     (case inner_send_raw send c of
        (Some r, c) \<Rightarrow> (r, c)
      | (None, c) \<Rightarrow> (Inl (Err RequestTimeout), c))"

definition send :: "(lexer \<Rightarrow> fault + 'a) \<Rightarrow> string option \<Rightarrow> conn \<Rightarrow> (fault + 'a) \<times> conn" where
  "send deserialize cmd c =
     (case cmd of
        None \<Rightarrow> (Inl Panic, c)
      | Some s \<Rightarrow>
          (case send_raw s c of
             (Inl e, c) \<Rightarrow> (Inl e, c)
           | (Inr response, c) \<Rightarrow>
               if response = [] then (Inl (Err EmptyResponse), c)
               else (deserialize (lexer_new response), c)))"

definition nc_new :: "string list \<Rightarrow> stream_end \<Rightarrow> conn" where
  "nc_new ls e =
     \<lparr>inbox = ls, at_end = e, write_error = None, outbox = [], nc_timeout = 60, nc_open = True\<rparr>"

definition set_timeout :: "nat \<Rightarrow> conn \<Rightarrow> conn" where
  "set_timeout t c = c\<lparr>nc_timeout := t\<rparr>"

definition is_open :: "conn \<Rightarrow> bool \<times> conn" where
  "is_open c =
     (case serialize GetProtVer of
        None \<Rightarrow> (False, c)
      | Some s \<Rightarrow>
          (case send_raw s c of
             (Inr response, c) \<Rightarrow> (response \<noteq> [], c)
           | (Inl _, c) \<Rightarrow> (False, c)))"

text \<open>\<open>close\<close> shuts the writer down; a failing shutdown is the transport's error.\<close>

definition nc_close :: "conn \<Rightarrow> (fault + unit) \<times> conn" where
  "nc_close c =
     (case write_error c of
        Some k \<Rightarrow> (Inl (Err (IOError k)), c)
      | None \<Rightarrow> (Inr (), c\<lparr>nc_open := False\<rparr>))"

section \<open>The requests of \<open>AsyncNutClient\<close>\<close>

definition get_cmd_desc :: "ups_name \<Rightarrow> cmd_name \<Rightarrow> conn \<Rightarrow> (fault + cmd_desc) \<times> conn" where
  "get_cmd_desc ups cmd = send deserialize_cmd_desc (serialize (GetCmdDesc ups cmd))"

text \<open>\<open>get_protver\<close> and \<open>get_ver\<close> trim the line instead of parsing it.\<close>

definition get_line :: "command \<Rightarrow> conn \<Rightarrow> (fault + string) \<times> conn" where
  "get_line cmd c =
     (case serialize cmd of
        None \<Rightarrow> (Inl Panic, c)
      | Some s \<Rightarrow>
          (case send_raw s c of
             (Inl e, c) \<Rightarrow> (Inl e, c)
           | (Inr response, c) \<Rightarrow>
               if response = [] then (Inl (Err EmptyResponse), c) else (Inr (trim response), c)))"

definition get_protver :: "conn \<Rightarrow> (fault + string) \<times> conn" where
  "get_protver = get_line GetProtVer"

definition get_ver :: "conn \<Rightarrow> (fault + string) \<times> conn" where
  "get_ver = get_line GetDaemonVer"

definition get_ups_desc :: "ups_name \<Rightarrow> conn \<Rightarrow> (fault + ups_desc) \<times> conn" where
  "get_ups_desc ups = send deserialize_ups_desc (serialize (GetUpsDesc ups))"

definition get_var :: "ups_name \<Rightarrow> var_name \<Rightarrow> conn \<Rightarrow> (fault + ups_var) \<times> conn" where
  "get_var ups var = send deserialize_ups_var (serialize (GetVar ups var))"

definition get_var_type :: "ups_name \<Rightarrow> var_name \<Rightarrow> conn \<Rightarrow> (fault + ups_var_type) \<times> conn" where
  "get_var_type ups var = send deserialize_ups_var_type (serialize (GetVarType ups var))"

definition get_var_desc :: "ups_name \<Rightarrow> var_name \<Rightarrow> conn \<Rightarrow> (fault + ups_var_desc) \<times> conn" where
  "get_var_desc ups var = send deserialize_ups_var_desc (serialize (GetVarDesc ups var))"

definition list_client :: "ups_name \<Rightarrow> conn \<Rightarrow> (fault + client_list) \<times> conn" where
  "list_client ups = send deserialize_client_list (serialize (ListClient ups))"

definition list_cmd :: "ups_name \<Rightarrow> conn \<Rightarrow> (fault + cmd_list) \<times> conn" where
  "list_cmd ups = send deserialize_cmd_list (serialize (ListCmd ups))"

definition list_enum :: "ups_name \<Rightarrow> var_name \<Rightarrow> conn \<Rightarrow> (fault + enum_list) \<times> conn" where
  "list_enum ups var = send deserialize_enum_list (serialize (ListEnum ups var))"

definition list_range :: "ups_name \<Rightarrow> var_name \<Rightarrow> conn \<Rightarrow> (fault + range_list) \<times> conn" where
  "list_range ups var = send deserialize_range_list (serialize (ListRange ups var))"

definition list_rw :: "ups_name \<Rightarrow> conn \<Rightarrow> (fault + rw_list) \<times> conn" where
  "list_rw ups = send deserialize_rw_list (serialize (ListRw ups))"

definition list_ups :: "conn \<Rightarrow> (fault + ups_device list) \<times> conn" where
  "list_ups = send deserialize_ups_list (serialize ListUps)"

definition list_var :: "ups_name \<Rightarrow> conn \<Rightarrow> (fault + ups_var_list) \<times> conn" where
  "list_var ups = send deserialize_var_list (serialize (ListVar ups))"

section \<open>The authenticated client\<close>

definition authenticate :: "string \<Rightarrow> string \<Rightarrow> conn \<Rightarrow> (fault + unit) \<times> conn" where
  "authenticate username password c =
     (case send deserialize_prot_ok (serialize (Username username)) c of
        (Inl e, c) \<Rightarrow> (Inl e, c)
      | (Inr _, c) \<Rightarrow> send deserialize_prot_ok (serialize (Password password)) c)"

definition attach :: "ups_name \<Rightarrow> conn \<Rightarrow> (fault + unit) \<times> conn" where
  "attach ups = send deserialize_prot_ok (serialize (AttachCommand ups))"

definition fsd :: "ups_name \<Rightarrow> conn \<Rightarrow> (fault + unit) \<times> conn" where
  "fsd ups = send deserialize_prot_ok_fsd (serialize (FsdCommand ups))"

definition set_var :: "ups_name \<Rightarrow> var_name \<Rightarrow> nut_value \<Rightarrow> conn \<Rightarrow> (fault + unit) \<times> conn" where
  "set_var ups var v = send deserialize_prot_ok (serialize (SetVariable ups var v))"

definition instcmd :: "ups_name \<Rightarrow> cmd_name \<Rightarrow> conn \<Rightarrow> (fault + unit) \<times> conn" where
  "instcmd ups cmd = send deserialize_prot_ok (serialize (InstCmd ups cmd))"

definition auth_close :: "conn \<Rightarrow> (fault + unit) \<times> conn" where
  "auth_close c =
     (case send deserialize_prot_ok_detach (serialize DetachCommand) c of
        (Inl e, c) \<Rightarrow> (Inl e, c)
      | (Inr _, c) \<Rightarrow> nc_close c)"

text \<open>\<open>connect_with_tls\<close>: the handshake is the TLS library's, a parameter; it starts on a
  connection whose peer has agreed to \<open>STARTTLS\<close>.\<close>

definition connect_with_tls :: "(conn \<Rightarrow> fault + conn) \<Rightarrow> conn \<Rightarrow> fault + conn" where
  "connect_with_tls handshake c =
     (case send deserialize_prot_ok_tls (serialize StartTls) c of
        (Inl e, _) \<Rightarrow> Inl e
      | (Inr _, c) \<Rightarrow> handshake c)"

section \<open>Framing\<close>

lemma read_list_loop_rows:
  assumes "inbox c = rows @ l # ls" "list_all (\<lambda>r. \<not> prefix ''END LIST'' r) rows" "prefix ''END LIST'' l"
    "length rows < n"
  shows "read_list_loop n buf (length buf) c = (Some (Inr (buf @ concat rows @ l)), c\<lparr>inbox := ls\<rparr>)"
  using assms
proof (induction rows arbitrary: n buf c)
  case Nil
  then show ?case by (cases n) (simp_all add: read_line_def)
next
  case (Cons r rows)
  then obtain m where n: "n = Suc m" "length rows < m" by (cases n) auto
  have "read_list_loop m (buf @ r) (length (buf @ r)) (c\<lparr>inbox := rows @ l # ls\<rparr>) =
      (Some (Inr ((buf @ r) @ concat rows @ l)), c\<lparr>inbox := rows @ l # ls\<rparr>\<lparr>inbox := ls\<rparr>)"
    using Cons.IH [of "c\<lparr>inbox := rows @ l # ls\<rparr>" m "buf @ r"] Cons.prems n by simp
  then show ?case using Cons.prems n by (simp add: read_line_def Let_def)
qed

lemma send_raw_list:
  assumes "inbox c = b # rows @ l # ls" "prefix ''BEGIN LIST'' b"
    "list_all (\<lambda>r. \<not> prefix ''END LIST'' r) rows" "prefix ''END LIST'' l"
    "write_error c = None" "length rows + 1 < nc_timeout c"
  shows "send_raw s c = (Inr (b @ concat rows @ l), c\<lparr>inbox := ls, outbox := outbox c @ s\<rparr>)"
proof -
  obtain n where n: "nc_timeout c = Suc n" "length rows < n"
    using assms(6) by (cases "nc_timeout c") auto
  show ?thesis
    using read_list_loop_rows [of "c\<lparr>outbox := outbox c @ s, inbox := rows @ l # ls\<rparr>" rows l ls n b] assms n
    by (simp add: send_raw_def inner_send_raw_def read_line_def Let_def)
qed

lemma send_raw_line:
  assumes "inbox c = l # ls" "\<not> prefix ''BEGIN LIST'' l" "\<not> prefix ''ERR'' l" "write_error c = None" "0 < nc_timeout c"
  shows "send_raw s c = (Inr l, c\<lparr>inbox := ls, outbox := outbox c @ s\<rparr>)"
  using assms by (cases "nc_timeout c") (simp_all add: send_raw_def inner_send_raw_def read_line_def Let_def)

lemma read_list_loop_eof:
  "at_end c = Eof \<Longrightarrow> list_all (\<lambda>r. \<not> prefix ''END LIST'' r) (inbox c) \<Longrightarrow>
   fst (read_list_loop n buf (length buf) c) = None"
proof (induction n arbitrary: buf c)
  case (Suc n)
  show ?case
  proof (cases "inbox c")
    case Nil
    then show ?thesis
      using Suc.IH [of c buf] Suc.prems by (simp add: read_line_def)
  next
    case (Cons r rs)
    then show ?thesis
      using Suc.IH [of "c\<lparr>inbox := rs\<rparr>" "buf @ r"] Suc.prems by (simp add: read_line_def Let_def)
  qed
qed simp

lemma read_line_outbox [simp]: "outbox (snd (read_line c)) = outbox c"
  by (simp add: read_line_def split: list.split stream_end.split)

lemma read_list_loop_outbox [simp]: "outbox (snd (read_list_loop n b p c)) = outbox c"
proof (induction n arbitrary: b p c)
  case (Suc n)
  obtain r c' where r: "read_line c = (r, c')" by fastforce
  then have "outbox c' = outbox c" using read_line_outbox [of c] by simp
  then show ?case using Suc r by (cases r) (simp_all add: Let_def)
qed simp

lemma inner_send_raw_outbox:
  "outbox (snd (inner_send_raw s c)) = (if write_error c = None then outbox c @ s else outbox c)"
proof (cases "write_error c")
  case None
  let ?c = "c\<lparr>outbox := outbox c @ s\<rparr>"
  obtain r c' where r: "read_line ?c = (r, c')" by fastforce
  then have "outbox c' = outbox c @ s" using read_line_outbox [of ?c] by simp
  then show ?thesis
    using None r by (cases "nc_timeout c"; cases r) (simp_all add: inner_send_raw_def Let_def)
qed (simp add: inner_send_raw_def)

text \<open>A request writes its command, or nothing.\<close>

lemma send_outbox:
  "outbox (snd (send d (Some s) c)) = (if write_error c = None then outbox c @ s else outbox c)"
proof -
  obtain r c' where r: "inner_send_raw s c = (r, c')" by fastforce
  then have "outbox c' = (if write_error c = None then outbox c @ s else outbox c)"
    using inner_send_raw_outbox [of s c] by simp
  then show ?thesis
    using r by (auto simp: send_def send_raw_def split: option.split sum.split)
qed

section \<open>Properties\<close>

text \<open>Framing of list responses. When the peer answers with a \<open>BEGIN LIST\<close> line, rows that are
  not \<open>END LIST\<close> lines, and an \<open>END LIST\<close> line, the request returns exactly these lines and leaves
  everything after them unread: the next request starts at the next response.\<close>

theorem list_framing:
  assumes "inbox c = b # rows @ l # ls" and "prefix ''BEGIN LIST'' b"
    and "list_all (\<lambda>r. \<not> prefix ''END LIST'' r) rows" and "prefix ''END LIST'' l"
    and "write_error c = None" and "length rows + 1 < nc_timeout c"
  shows "send_raw s c = (Inr (b @ concat rows @ l), c\<lparr>inbox := ls, outbox := outbox c @ s\<rparr>)"
  using send_raw_list [OF assms] .

theorem list_framing_witness:
  "fst (send_raw (''LIST UPS'' @ [LF])
     (nc_new [''BEGIN LIST UPS'' @ [LF], ''UPS a x'' @ [LF], ''END LIST UPS'' @ [LF], ''OK'' @ [LF]] Idle))
   = Inr (''BEGIN LIST UPS'' @ LF # ''UPS a x'' @ LF # ''END LIST UPS'' @ [LF])"
  using list_framing [of "nc_new [''BEGIN LIST UPS'' @ [LF], ''UPS a x'' @ [LF], ''END LIST UPS'' @ [LF], ''OK'' @ [LF]] Idle"
      "''BEGIN LIST UPS'' @ [LF]" "[''UPS a x'' @ [LF]]" "''END LIST UPS'' @ [LF]" "[''OK'' @ [LF]]" "''LIST UPS'' @ [LF]"]
  by (simp add: nc_new_def)

text \<open>A peer that closes the connection inside a list is not noticed. \<open>read_line\<close> returns zero
  bytes again and again, no line ever starts with \<open>END LIST\<close>, and the loop reads until the timer
  fires, however late that is: the request ends with a timeout instead of an error about the
  closed connection.\<close>

theorem list_eof_times_out:
  assumes "inbox c = b # rows" and "prefix ''BEGIN LIST'' b" and "list_all (\<lambda>r. \<not> prefix ''END LIST'' r) rows"
    and "at_end c = Eof" and "write_error c = None"
  shows "fst (send_raw s (set_timeout t c)) = Inl (Err RequestTimeout)"
proof (cases t)
  case 0
  then show ?thesis using assms by (simp add: send_raw_def inner_send_raw_def set_timeout_def Let_def)
next
  case (Suc n)
  have "fst (read_list_loop n b (length b) (c\<lparr>nc_timeout := t, outbox := outbox c @ s, inbox := rows\<rparr>)) = None"
    using read_list_loop_eof [of "c\<lparr>nc_timeout := t, outbox := outbox c @ s, inbox := rows\<rparr>" n b] assms by simp
  then show ?thesis
    using assms Suc
    by (cases "read_list_loop n b (length b) (c\<lparr>nc_timeout := t, outbox := outbox c @ s, inbox := rows\<rparr>)")
      (simp add: send_raw_def inner_send_raw_def set_timeout_def read_line_def Let_def)
qed

theorem list_eof_times_out_witness:
  "fst (send_raw (''LIST UPS'' @ [LF]) (set_timeout 1000000 (nc_new [''BEGIN LIST UPS'' @ [LF]] Eof))) = Inl (Err RequestTimeout)"
  using list_eof_times_out [of "nc_new [''BEGIN LIST UPS'' @ [LF]] Eof" "''BEGIN LIST UPS'' @ [LF]" "[]"
      "''LIST UPS'' @ [LF]" 1000000]
  by (simp add: nc_new_def)

lemma authenticate_cases:
  obtains (refused) e where "fst (send deserialize_prot_ok (serialize (Username u)) c) = Inl e"
      "fst (authenticate u p c) = Inl e"
      "outbox (snd (authenticate u p c)) = outbox (snd (send deserialize_prot_ok (serialize (Username u)) c))"
    | (accepted) "fst (send deserialize_prot_ok (serialize (Username u)) c) = Inr ()"
      "authenticate u p c = send deserialize_prot_ok (serialize (Password p))
         (snd (send deserialize_prot_ok (serialize (Username u)) c))"
  by (cases "send deserialize_prot_ok (serialize (Username u)) c"; cases "fst (send deserialize_prot_ok (serialize (Username u)) c)")
    (auto simp: authenticate_def)

lemma send_write_error [simp]: "write_error (snd (send d s c)) = write_error c"
proof -
  have line: "write_error (snd (read_line c)) = write_error c" for c
    by (simp add: read_line_def split: list.split stream_end.split)
  have loop: "write_error (snd (read_list_loop n b p c)) = write_error c" for n b p c
  proof (induction n arbitrary: b p c)
    case (Suc n)
    obtain r c' where "read_line c = (r, c')" by fastforce
    then show ?case using Suc line [of c] by (cases r) (simp_all add: Let_def)
  qed simp
  have inner: "write_error (snd (inner_send_raw x c)) = write_error c" for x
  proof (cases "write_error c")
    case None
    obtain r c' where "read_line (c\<lparr>outbox := outbox c @ x\<rparr>) = (r, c')" by fastforce
    then show ?thesis
      using None line [of "c\<lparr>outbox := outbox c @ x\<rparr>"] loop
      by (cases "nc_timeout c"; cases r) (simp_all add: inner_send_raw_def Let_def)
  qed (simp add: inner_send_raw_def)
  show ?thesis
  proof (cases s)
    case (Some x)
    obtain r c' where "inner_send_raw x c = (r, c')" by fastforce
    then show ?thesis
      using inner [of x] Some by (auto simp: send_def send_raw_def split: option.split sum.split)
  qed (simp add: send_def)
qed

text \<open>C31: The order of authentication. The password is written only after the peer has acknowledged
  the user name: when the answer to the user name is an error, authentication ends with that
  error and only the user name was written; when authentication succeeds, both were written, in
  this order.\<close>

theorem authenticate_order:
  assumes "write_error c = None"
  shows "(case fst (send deserialize_prot_ok (serialize (Username u)) c) of
      Inl e \<Rightarrow> fst (authenticate u p c) = Inl e
        \<and> outbox (snd (authenticate u p c)) = outbox c @ ''USERNAME '' @ u @ [LF]
    | Inr _ \<Rightarrow> outbox (snd (authenticate u p c)) = outbox c @ ''USERNAME '' @ u @ LF # ''PASSWORD '' @ p @ [LF])"
proof (cases rule: authenticate_cases [of u c p])
  case (refused e)
  then show ?thesis using assms by (simp add: send_outbox)
next
  case accepted
  then show ?thesis using assms by (simp add: send_outbox)
qed

theorem authenticate_order_witness:
  "outbox (snd (authenticate ''u'' ''secret'' (nc_new [''ERR ACCESS-DENIED'' @ [LF]] Idle))) = ''USERNAME u'' @ [LF]"
proof -
  have "fst (send deserialize_prot_ok (serialize (Username ''u'')) (nc_new [''ERR ACCESS-DENIED'' @ [LF]] Idle)) =
      Inl (Err (ProtocolError AccessDenied))"
    by code_simp
  then show ?thesis
    using authenticate_order [of "nc_new [''ERR ACCESS-DENIED'' @ [LF]] Idle" "''u''" "''secret''"]
    by (simp add: nc_new_def)
qed

end
