(* ===== verification/Item_Pool.thy ===== *)
theory Item_Pool
  imports Prelude "HOL-Library.Multiset"
begin

text \<open>
  \<open>internal/item_pool.rs\<close>: a pool of items behind a semaphore, twice. First the operations as
  functions of the pool, for one caller at a time; the allocator of the trait \<open>ItemAllocator\<close> is a
  parameter, and the locale \<open>item_allocator\<close> is its contract: a property of items that creating
  and checking establish is a property of every item the pool hands out. Then the pool as a
  transition system, in which any number of tasks interleave at every await point and may be
  cancelled there.
\<close>

section \<open>Operations\<close>

datatype 'i item_state = Ready 'i | Destroy 'i

datatype 'e item_pool_error = PoolClosed | AllocatorError 'e

text \<open>\<open>InnerPool\<close>: the queue and the semaphore (free permits, closed flag). \<open>ip_dealloc\<close> records the
  items given to \<open>dealloc\<close>.\<close>

record 'i item_pool =
  ip_items :: "'i list"
  ip_permits :: nat
  ip_closed :: bool
  ip_dealloc :: "'i list"

definition ip_new :: "nat \<Rightarrow> 'i item_pool" where
  "ip_new limit = \<lparr>ip_items = [], ip_permits = limit, ip_closed = False, ip_dealloc = []\<rparr>"

text \<open>\<open>acquire_owned().await?\<close>: \<open>None\<close> while it waits for a permit.\<close>

definition acquire :: "'i item_pool \<Rightarrow> ('e item_pool_error + 'i item_pool) option" where
  "acquire p =
     (if ip_closed p then Some (Inl PoolClosed)
      else if ip_permits p = 0 then None
      else Some (Inr (p\<lparr>ip_permits := ip_permits p - 1\<rparr>)))"

definition drop_permit :: "'i item_pool \<Rightarrow> 'i item_pool" where
  "drop_permit p = p\<lparr>ip_permits := ip_permits p + 1\<rparr>"

text \<open>\<open>allocator.init()\<close> with the permit in hand: the error path drops the permit.\<close>

definition ip_init ::
    "('w \<Rightarrow> ('e + 'i) \<times> 'w) \<Rightarrow> 'w \<Rightarrow> 'i item_pool \<Rightarrow> ('e item_pool_error + 'i) \<times> 'w \<times> 'i item_pool" where
  "ip_init init w p =
     (case init w of
        (Inr item, w) \<Rightarrow> (Inr item, w, p)
      | (Inl inner, w) \<Rightarrow> (Inl (AllocatorError inner), w, drop_permit p))"

definition ip_get ::
    "('w \<Rightarrow> ('e + 'i) \<times> 'w) \<Rightarrow> 'w \<Rightarrow> 'i item_pool \<Rightarrow> (('e item_pool_error + 'i) \<times> 'w \<times> 'i item_pool) option" where
  "ip_get init w p =
     (case acquire p of
        None \<Rightarrow> None
      | Some (Inl e) \<Rightarrow> Some (Inl e, w, p)
      | Some (Inr p) \<Rightarrow>
          (case ip_items p of
             item # rest \<Rightarrow> Some (Inr item, w, p\<lparr>ip_items := rest\<rparr>)
           | [] \<Rightarrow> Some (ip_init init w p)))"

text \<open>The loop of \<open>get_checked\<close>: it ends because every round takes an item from the queue.\<close>

function ip_check_loop ::
    "('w \<Rightarrow> ('e + 'i) \<times> 'w) \<Rightarrow> ('i \<Rightarrow> 'w \<Rightarrow> 'i item_state \<times> 'w) \<Rightarrow> 'w \<Rightarrow> 'i item_pool \<Rightarrow> ('e item_pool_error + 'i) \<times> 'w \<times> 'i item_pool" where
  "ip_check_loop init check w p =
     (case ip_items p of
        [] \<Rightarrow> ip_init init w p
      | item # rest \<Rightarrow>
          (case check item w of
             (Ready item, w) \<Rightarrow> (Inr item, w, p\<lparr>ip_items := rest\<rparr>)
           | (Destroy item, w) \<Rightarrow>
               ip_check_loop init check w (p\<lparr>ip_items := rest, ip_dealloc := ip_dealloc p @ [item]\<rparr>)))"
  by pat_completeness auto
termination
  by (relation "measure (\<lambda>(i, c, w, p). length (ip_items p))") auto

declare ip_check_loop.simps [simp del]

definition ip_get_checked ::
    "('w \<Rightarrow> ('e + 'i) \<times> 'w) \<Rightarrow> ('i \<Rightarrow> 'w \<Rightarrow> 'i item_state \<times> 'w) \<Rightarrow> 'w \<Rightarrow> 'i item_pool \<Rightarrow> (('e item_pool_error + 'i) \<times> 'w \<times> 'i item_pool) option" where
  "ip_get_checked init check w p =
     (case acquire p of
        None \<Rightarrow> None
      | Some (Inl e) \<Rightarrow> Some (Inl e, w, p)
      | Some (Inr p) \<Rightarrow> Some (ip_check_loop init check w p))"

definition inner_release :: "'i \<Rightarrow> 'i item_pool \<Rightarrow> 'i item_pool" where
  "inner_release item p =
     (if ip_closed p then p\<lparr>ip_dealloc := ip_dealloc p @ [item]\<rparr>
      else p\<lparr>ip_items := ip_items p @ [item]\<rparr>)"

text \<open>The three ways a guard ends: \<open>release\<close>, being dropped, and \<open>into_inner\<close>. All drop the permit.\<close>

definition guard_release :: "'i \<Rightarrow> 'i item_pool \<Rightarrow> 'i item_pool" where
  "guard_release item p = drop_permit (inner_release item p)"

definition guard_drop :: "'i \<Rightarrow> 'i item_pool \<Rightarrow> 'i item_pool" where
  "guard_drop item p = drop_permit p"

definition guard_into_inner :: "'i \<Rightarrow> 'i item_pool \<Rightarrow> 'i \<times> 'i item_pool" where
  "guard_into_inner item p = (item, drop_permit p)"

definition ip_clear :: "'i item_pool \<Rightarrow> 'i item_pool" where
  "ip_clear p = p\<lparr>ip_items := [], ip_dealloc := ip_dealloc p @ rev (ip_items p)\<rparr>"

definition ip_close :: "'i item_pool \<Rightarrow> 'i item_pool" where
  "ip_close p = ip_clear (p\<lparr>ip_closed := True\<rparr>)"

section \<open>The contract of the allocator\<close>

definition pool_all :: "('i \<Rightarrow> bool) \<Rightarrow> 'i item_pool \<Rightarrow> bool" where
  "pool_all ok p \<longleftrightarrow> list_all ok (ip_items p)"

locale item_allocator =
  fixes init :: "'w \<Rightarrow> ('e + 'i) \<times> 'w" and check :: "'i \<Rightarrow> 'w \<Rightarrow> 'i item_state \<times> 'w" and ok :: "'i \<Rightarrow> bool"
  assumes init_ok: "init w = (Inr i, w') \<Longrightarrow> ok i"
    and check_ok: "ok i \<Longrightarrow> check i w = (Ready j, w') \<Longrightarrow> ok j"
begin

lemma init_pool_ok:
  "pool_all ok p \<Longrightarrow> ip_init init w p = (r, w', p') \<Longrightarrow> pool_all ok p' \<and> (\<forall>i. r = Inr i \<longrightarrow> ok i)"
  by (auto simp: ip_init_def pool_all_def drop_permit_def split: prod.splits sum.splits dest: init_ok)

lemma get_ok:
  "pool_all ok p \<Longrightarrow> ip_get init w p = Some (r, w', p') \<Longrightarrow> pool_all ok p' \<and> (\<forall>i. r = Inr i \<longrightarrow> ok i)"
  by (auto simp: ip_get_def acquire_def pool_all_def split: if_splits list.splits
      dest!: init_pool_ok [unfolded pool_all_def, rotated])

lemma check_loop_ok:
  "pool_all ok p \<Longrightarrow> ip_check_loop init check w p = (r, w', p') \<Longrightarrow> pool_all ok p' \<and> (\<forall>i. r = Inr i \<longrightarrow> ok i)"
proof (induction "ip_items p" arbitrary: p w)
  case Nil
  then show ?case using init_pool_ok [of p w r w' p'] by (simp add: ip_check_loop.simps)
next
  case (Cons item rest)
  note items = Cons.hyps(2) [symmetric]
  obtain s w1 where c: "check item w = (s, w1)" by fastforce
  show ?case
  proof (cases s)
    case (Ready j)
    then show ?thesis
      using Cons.prems check_ok [of item w j w1] c items by (auto simp: ip_check_loop.simps [of _ _ _ p] pool_all_def)
  next
    case (Destroy j)
    then show ?thesis
      using Cons.hyps(1) [of "p\<lparr>ip_items := rest, ip_dealloc := ip_dealloc p @ [j]\<rparr>" w1] Cons.prems c items
      by (simp add: ip_check_loop.simps [of _ _ _ p] pool_all_def)
  qed
qed

lemma get_checked_ok:
  "pool_all ok p \<Longrightarrow> ip_get_checked init check w p = Some (r, w', p') \<Longrightarrow> pool_all ok p' \<and> (\<forall>i. r = Inr i \<longrightarrow> ok i)"
  by (auto simp: ip_get_checked_def acquire_def split: if_splits dest!: check_loop_ok [rotated])
    (auto simp: pool_all_def)

lemma release_pool_ok: "pool_all ok p \<Longrightarrow> ok i \<Longrightarrow> pool_all ok (guard_release i p)"
  by (simp add: guard_release_def inner_release_def drop_permit_def pool_all_def)

end

section \<open>The pool under concurrency\<close>

text \<open>The pool shared by tasks. A task that runs \<open>get\<close> or \<open>get_checked\<close> has a permit and is about to
  look at the queue (\<open>ps_acquired\<close> counts these), waits for \<open>prealloc_check\<close> of an item
  (\<open>ps_checking\<close>) or waits for \<open>init\<close> (\<open>ps_creating\<close> counts these); or it has a guard. A task that
  runs \<open>release\<close> has seen the pool open and waits for the lock (\<open>ps_releasing\<close>), or has pushed the
  item and still has its permit (\<open>ps_released\<close>). A check may hand back another value for the item, and a
  guard lends it out mutably (\<open>DerefMut\<close>). \<open>into_inner\<close> takes an item out of the pool's
  hands (\<open>ps_detached\<close>).\<close>

record 'i pool_state =
  ps_items :: "'i list"
  ps_free :: nat
  ps_closed :: bool
  ps_acquired :: nat
  ps_checking :: "'i multiset"
  ps_creating :: nat
  ps_guards :: "'i multiset"
  ps_releasing :: "'i multiset"
  ps_released :: nat
  ps_detached :: "'i multiset"

definition ps_new :: "nat \<Rightarrow> 'i pool_state" where
  "ps_new limit = \<lparr>ps_items = [], ps_free = limit, ps_closed = False, ps_acquired = 0, ps_checking = {#},
     ps_creating = 0, ps_guards = {#}, ps_releasing = {#}, ps_released = 0, ps_detached = {#}\<rparr>"

inductive pool_step :: "'i pool_state \<Rightarrow> 'i pool_state \<Rightarrow> bool" where
  Acquire: "\<not> ps_closed s \<Longrightarrow> ps_free s = Suc n \<Longrightarrow>
    pool_step s (s\<lparr>ps_free := n, ps_acquired := Suc (ps_acquired s)\<rparr>)"
| Pop: "ps_acquired s = Suc n \<Longrightarrow> ps_items s = i # rest \<Longrightarrow>
    pool_step s (s\<lparr>ps_acquired := n, ps_items := rest, ps_guards := add_mset i (ps_guards s)\<rparr>)"
| Pop_Check: "ps_acquired s = Suc n \<Longrightarrow> ps_items s = i # rest \<Longrightarrow>
    pool_step s (s\<lparr>ps_acquired := n, ps_items := rest, ps_checking := add_mset i (ps_checking s)\<rparr>)"
| Check_Ready: "ps_checking s = add_mset i m \<Longrightarrow>
    pool_step s (s\<lparr>ps_checking := m, ps_guards := add_mset j (ps_guards s)\<rparr>)"
| Check_Destroy: "ps_checking s = add_mset i m \<Longrightarrow>
    pool_step s (s\<lparr>ps_checking := m, ps_acquired := Suc (ps_acquired s)\<rparr>)"
| Pop_Empty: "ps_acquired s = Suc n \<Longrightarrow> ps_items s = [] \<Longrightarrow>
    pool_step s (s\<lparr>ps_acquired := n, ps_creating := Suc (ps_creating s)\<rparr>)"
| Init_Ok: "ps_creating s = Suc n \<Longrightarrow>
    pool_step s (s\<lparr>ps_creating := n, ps_guards := add_mset i (ps_guards s)\<rparr>)"
| Init_Err: "ps_creating s = Suc n \<Longrightarrow>
    pool_step s (s\<lparr>ps_creating := n, ps_free := Suc (ps_free s)\<rparr>)"
| Use: "ps_guards s = add_mset i m \<Longrightarrow>
    pool_step s (s\<lparr>ps_guards := add_mset j m\<rparr>)"
| Release_Closed: "ps_guards s = add_mset i m \<Longrightarrow> ps_closed s \<Longrightarrow>
    pool_step s (s\<lparr>ps_guards := m, ps_released := Suc (ps_released s)\<rparr>)"
| Release_Open: "ps_guards s = add_mset i m \<Longrightarrow> \<not> ps_closed s \<Longrightarrow>
    pool_step s (s\<lparr>ps_guards := m, ps_releasing := add_mset i (ps_releasing s)\<rparr>)"
| Release_Push: "ps_releasing s = add_mset i m \<Longrightarrow>
    pool_step s (s\<lparr>ps_releasing := m, ps_items := ps_items s @ [i], ps_released := Suc (ps_released s)\<rparr>)"
| Release_Done: "ps_released s = Suc n \<Longrightarrow>
    pool_step s (s\<lparr>ps_released := n, ps_free := Suc (ps_free s)\<rparr>)"
| Drop: "ps_guards s = add_mset i m \<Longrightarrow>
    pool_step s (s\<lparr>ps_guards := m, ps_free := Suc (ps_free s)\<rparr>)"
| Into_Inner: "ps_guards s = add_mset i m \<Longrightarrow>
    pool_step s (s\<lparr>ps_guards := m, ps_free := Suc (ps_free s), ps_detached := add_mset i (ps_detached s)\<rparr>)"
| Clear: "pool_step s (s\<lparr>ps_items := take k (ps_items s)\<rparr>)"
| Close: "pool_step s (s\<lparr>ps_closed := True\<rparr>)"
| Cancel_Acquired: "ps_acquired s = Suc n \<Longrightarrow> pool_step s (s\<lparr>ps_acquired := n, ps_free := Suc (ps_free s)\<rparr>)"
| Cancel_Creating: "ps_creating s = Suc n \<Longrightarrow> pool_step s (s\<lparr>ps_creating := n, ps_free := Suc (ps_free s)\<rparr>)"
| Cancel_Checking: "ps_checking s = add_mset i m \<Longrightarrow> pool_step s (s\<lparr>ps_checking := m, ps_free := Suc (ps_free s)\<rparr>)"
| Cancel_Releasing: "ps_releasing s = add_mset i m \<Longrightarrow> pool_step s (s\<lparr>ps_releasing := m, ps_free := Suc (ps_free s)\<rparr>)"

inductive_cases pool_stepE: "pool_step s s'"

abbreviation pool_reachable :: "nat \<Rightarrow> 'i pool_state \<Rightarrow> bool" where
  "pool_reachable limit \<equiv> pool_step\<^sup>*\<^sup>* (ps_new limit)"

text \<open>The permits in the hands of tasks, and the items the pool is responsible for (in the queue,
  with a task, or about to be created).\<close>

definition permits_out :: "'i pool_state \<Rightarrow> nat" where
  "permits_out s = ps_acquired s + size (ps_checking s) + ps_creating s + size (ps_guards s)
     + size (ps_releasing s) + ps_released s"

definition pooled :: "'i pool_state \<Rightarrow> nat" where
  "pooled s = length (ps_items s) + size (ps_checking s) + ps_creating s + size (ps_guards s) + size (ps_releasing s)"

definition pool_inv :: "nat \<Rightarrow> 'i pool_state \<Rightarrow> bool" where
  "pool_inv limit s \<longleftrightarrow> ps_free s + permits_out s = limit \<and> pooled s \<le> limit"

lemma pool_inv_step: "pool_step s s' \<Longrightarrow> pool_inv limit s \<Longrightarrow> pool_inv limit s'"
  by (induction rule: pool_step.induct) (auto simp: pool_inv_def permits_out_def pooled_def)

lemma pool_inv_new: "pool_inv limit (ps_new limit)"
  by (simp add: pool_inv_def permits_out_def pooled_def ps_new_def)

lemma pool_inv_reachable: "pool_reachable limit s \<Longrightarrow> pool_inv limit s"
  by (induction rule: rtranclp_induct) (auto intro: pool_inv_new pool_inv_step)

text \<open>One task: acquire, create, take the connection out. The state is as before, with one more
  detached item.\<close>

lemma detach_one:
  assumes "ps_free s = Suc n" "ps_items s = []" "\<not> ps_closed s"
  shows "pool_step\<^sup>*\<^sup>* s (s\<lparr>ps_detached := add_mset i (ps_detached s)\<rparr>)"
proof -
  let ?s1 = "s\<lparr>ps_free := n, ps_acquired := Suc (ps_acquired s)\<rparr>"
  let ?s2 = "?s1\<lparr>ps_acquired := ps_acquired s, ps_creating := Suc (ps_creating ?s1)\<rparr>"
  let ?s3 = "?s2\<lparr>ps_creating := ps_creating s, ps_guards := add_mset i (ps_guards ?s2)\<rparr>"
  let ?s4 = "?s3\<lparr>ps_guards := ps_guards s, ps_free := Suc (ps_free ?s3), ps_detached := add_mset i (ps_detached ?s3)\<rparr>"
  have "pool_step s ?s1" using assms by (intro pool_step.Acquire) simp_all
  moreover have "pool_step ?s1 ?s2" using assms by (intro pool_step.Pop_Empty) simp_all
  moreover have "pool_step ?s2 ?s3" by (intro pool_step.Init_Ok) simp
  moreover have "pool_step ?s3 ?s4" by (intro pool_step.Into_Inner) simp
  moreover have "?s4 = s\<lparr>ps_detached := add_mset i (ps_detached s)\<rparr>" using assms by simp
  ultimately show ?thesis by (metis (no_types, lifting) converse_rtranclp_into_rtranclp rtranclp.rtrancl_refl)
qed

section \<open>Properties\<close>

text \<open>C7: The limit of the pool. In every state the tasks can reach, by any interleaving and with
  tasks cancelled at any await point, each permit is free or with exactly one task, and the items
  the pool is responsible for (queued, checked, being created, behind a guard, being released)
  are never more than the limit. In particular no permit is lost: when no task has one, all are
  free.\<close>

theorem pool_limit:
  assumes "pool_step\<^sup>*\<^sup>* (ps_new limit) s"
  shows "ps_free s + permits_out s = limit \<and> pooled s \<le> limit"
  using pool_inv_reachable [OF assms] by (simp add: pool_inv_def)

theorem pool_limit_witness:
  "ps_free ((ps_new 3)\<lparr>ps_detached := {#True#}\<rparr>) + permits_out ((ps_new 3)\<lparr>ps_detached := {#True#}\<rparr>) = 3"
  using pool_limit [OF detach_one [of "ps_new 3" 2 True]] by (simp add: ps_new_def)

text \<open>Closing drains the pool. Once closed a pool stays closed, no permit is handed out any more,
  and the number of permits with tasks never grows.\<close>

theorem pool_close_drains:
  assumes "pool_step\<^sup>*\<^sup>* s s'" and "ps_closed s"
  shows "ps_closed s' \<and> permits_out s' \<le> permits_out s \<and> ps_free s \<le> ps_free s'"
  using assms
proof (induction rule: rtranclp_induct)
  case (step y z)
  have "pool_step y z \<Longrightarrow> ps_closed y \<Longrightarrow> ps_closed z \<and> permits_out z \<le> permits_out y \<and> ps_free y \<le> ps_free z"
    by (induction rule: pool_step.induct) (auto simp: permits_out_def)
  then show ?case using step by (meson order.trans)
qed simp

theorem pool_close_drains_witness:
  "permits_out ((ps_new 1 :: bool pool_state)\<lparr>ps_closed := True, ps_creating := 0, ps_free := 1\<rparr>)
   \<le> permits_out ((ps_new 1 :: bool pool_state)\<lparr>ps_closed := True, ps_creating := 1, ps_free := 0\<rparr>)"
proof -
  let ?s = "(ps_new 1 :: bool pool_state)\<lparr>ps_closed := True, ps_creating := 1, ps_free := 0\<rparr>"
  have "pool_step ?s (?s\<lparr>ps_creating := 0, ps_free := Suc (ps_free ?s)\<rparr>)"
    by (intro pool_step.Init_Err) simp
  then have "pool_step\<^sup>*\<^sup>* ?s ((ps_new 1)\<lparr>ps_closed := True, ps_creating := 0, ps_free := 1\<rparr>)"
    by simp
  then show ?thesis
    using pool_close_drains by fastforce
qed

text \<open>The limit does not bound the connections in use. \<open>NutPoolClient::get_client\<close>, which every
  authenticated request uses, takes the item out with \<open>into_inner\<close>, and that drops the permit
  while the connection lives on: for every number there is a run of a pool of any positive limit
  after which that many connections are in use outside the pool and all permits are free.\<close>

theorem pool_detached_unbounded:
  assumes "0 < limit"
  shows "\<exists>s :: unit pool_state. pool_step\<^sup>*\<^sup>* (ps_new limit) s \<and> size (ps_detached s) = n \<and> ps_free s = limit"
proof -
  have "pool_step\<^sup>*\<^sup>* (ps_new limit) ((ps_new limit)\<lparr>ps_detached := replicate_mset n ()\<rparr>)"
  proof (induction n)
    case 0
    then show ?case by (simp add: ps_new_def)
  next
    case (Suc n)
    let ?s = "(ps_new limit)\<lparr>ps_detached := replicate_mset n ()\<rparr>"
    have "pool_step\<^sup>*\<^sup>* ?s (?s\<lparr>ps_detached := add_mset () (ps_detached ?s)\<rparr>)"
      using assms by (intro detach_one [of _ "limit - 1"]) (simp_all add: ps_new_def)
    then show ?case using Suc by simp
  qed
  then show ?thesis
    by (intro exI [of _ "(ps_new limit)\<lparr>ps_detached := replicate_mset n ()\<rparr>"]) (simp add: ps_new_def)
qed

theorem pool_detached_unbounded_witness:
  "\<exists>s :: unit pool_state. pool_step\<^sup>*\<^sup>* (ps_new 1) s \<and> size (ps_detached s) = 100 \<and> ps_free s = 1"
  using pool_detached_unbounded [of 1 100] by simp

text \<open>Releasing races with closing. \<open>release\<close> looks at the closed flag before it takes the lock
  of the queue; a close in between lets it push an item into a closed pool, where nothing takes
  it out or deallocates it.\<close>

theorem pool_release_after_close:
  "\<exists>s :: unit pool_state. pool_step\<^sup>*\<^sup>* (ps_new 1) s \<and> ps_closed s \<and> ps_items s = [()] \<and> permits_out s = 0"
proof -
  let ?s0 = "ps_new 1 :: unit pool_state"
  let ?s1 = "?s0\<lparr>ps_free := 0, ps_acquired := 1\<rparr>"
  let ?s2 = "?s1\<lparr>ps_acquired := 0, ps_creating := 1\<rparr>"
  let ?s3 = "?s2\<lparr>ps_creating := 0, ps_guards := {#()#}\<rparr>"
  let ?s4 = "?s3\<lparr>ps_guards := {#}, ps_releasing := {#()#}\<rparr>"
  let ?s5 = "?s4\<lparr>ps_closed := True\<rparr>"
  let ?s6 = "?s5\<lparr>ps_items := take 0 (ps_items ?s5)\<rparr>"
  let ?s7 = "?s6\<lparr>ps_releasing := {#}, ps_items := [()], ps_released := 1\<rparr>"
  let ?s8 = "?s7\<lparr>ps_released := 0, ps_free := 1\<rparr>"
  have "pool_step ?s0 ?s1" using pool_step.Acquire [of ?s0 0] by (simp add: ps_new_def)
  moreover have "pool_step ?s1 ?s2" using pool_step.Pop_Empty [of ?s1 0] by (simp add: ps_new_def)
  moreover have "pool_step ?s2 ?s3" using pool_step.Init_Ok [of ?s2 0 "()"] by (simp add: ps_new_def)
  moreover have "pool_step ?s3 ?s4" using pool_step.Release_Open [of ?s3 "()" "{#}"] by (simp add: ps_new_def)
  moreover have "pool_step ?s4 ?s5" by (rule pool_step.Close)
  moreover have "pool_step ?s5 ?s6" by (rule pool_step.Clear)
  moreover have "pool_step ?s6 ?s7" using pool_step.Release_Push [of ?s6 "()" "{#}"] by (simp add: ps_new_def)
  moreover have "pool_step ?s7 ?s8" using pool_step.Release_Done [of ?s7 0] by (simp add: ps_new_def)
  ultimately have "pool_step\<^sup>*\<^sup>* ?s0 ?s8"
    by (meson converse_rtranclp_into_rtranclp rtranclp.rtrancl_refl)
  moreover have "ps_closed ?s8 \<and> ps_items ?s8 = [()] \<and> permits_out ?s8 = 0"
    by (simp add: ps_new_def permits_out_def)
  ultimately show ?thesis by blast
qed

end
