(* ===== verification/Client_Pool.thy ===== *)
theory Client_Pool
  imports Client Item_Pool
begin

text \<open>
  \<open>client/client_pool.rs\<close>: the pooled client. Opening a TCP connection (with the name resolution
  before it) and the TLS handshake are parameters. A pooled call takes a connection without
  checking it and, when that fails the way a stale connection fails, tries once more with a
  checked one.
\<close>

section \<open>The allocator\<close>

record client_allocator =
  ca_timeout :: "nat option"
  ca_tls :: bool

datatype server_addr = SocketAddr string | Host string

text \<open>\<open>Error::from(ItemPoolError<Error>)\<close>\<close>

fun error_from_pool :: "fault item_pool_error \<Rightarrow> fault" where
  "error_from_pool PoolClosed = Err ConnectionPoolClosed"
| "error_from_pool (AllocatorError inner) = inner"

definition allocator_init ::
    "('w \<Rightarrow> (fault + conn) \<times> 'w) \<Rightarrow> (conn \<Rightarrow> fault + conn) \<Rightarrow> client_allocator \<Rightarrow> 'w \<Rightarrow> (fault + conn) \<times> 'w" where
  "allocator_init connect handshake a w =
     (case connect w of
        (Inl e, w) \<Rightarrow> (Inl e, w)
      | (Inr c, w) \<Rightarrow>
          (case (if ca_tls a then connect_with_tls handshake (set_timeout 60 c) else Inr c) of
             Inl e \<Rightarrow> (Inl e, w)
           | Inr connection \<Rightarrow>
               let client = set_timeout 60 connection in
               (Inr (case ca_timeout a of Some t \<Rightarrow> set_timeout t client | None \<Rightarrow> client), w)))"

definition allocator_dealloc :: "conn \<Rightarrow> conn" where
  "allocator_dealloc item = snd (nc_close item)"

definition prealloc_check :: "conn \<Rightarrow> 'w \<Rightarrow> conn item_state \<times> 'w" where
  "prealloc_check item w =
     (case is_open item of (True, item) \<Rightarrow> (Ready item, w) | (False, item) \<Rightarrow> (Destroy item, w))"

record pool_builder = pb_allocator :: client_allocator  pb_limit :: nat

definition builder_new :: pool_builder where
  "builder_new = \<lparr>pb_allocator = \<lparr>ca_timeout = None, ca_tls = False\<rparr>, pb_limit = 1\<rparr>"

definition with_timeout :: "nat \<Rightarrow> pool_builder \<Rightarrow> pool_builder" where
  "with_timeout t b = b\<lparr>pb_allocator := (pb_allocator b)\<lparr>ca_timeout := Some t\<rparr>\<rparr>"

definition with_limit :: "nat \<Rightarrow> pool_builder \<Rightarrow> pool_builder" where
  "with_limit n b = b\<lparr>pb_limit := n\<rparr>"

definition with_tls :: "pool_builder \<Rightarrow> pool_builder" where
  "with_tls b = b\<lparr>pb_allocator := (pb_allocator b)\<lparr>ca_tls := True\<rparr>\<rparr>"

definition build :: "pool_builder \<Rightarrow> conn item_pool" where
  "build b = ip_new (pb_limit b)"

section \<open>Pooled calls\<close>

definition get_client ::
    "('w \<Rightarrow> (fault + conn) \<times> 'w) \<Rightarrow> 'w \<Rightarrow> conn item_pool \<Rightarrow> ((fault item_pool_error + conn) \<times> 'w \<times> conn item_pool) option" where
  "get_client init w p =
     (case ip_get_checked init prealloc_check w p of
        None \<Rightarrow> None
      | Some (Inl e, w, p) \<Rightarrow> Some (Inl e, w, p)
      | Some (Inr guard, w, p) \<Rightarrow>
          (case guard_into_inner guard p of (client, p) \<Rightarrow> Some (Inr client, w, p)))"

text \<open>The errors after which the connection is dropped, and those after which the call is tried
  again. A panic unwinds and drops the guard.\<close>

fun retires :: "fault \<Rightarrow> bool" where
  "retires (Err (IOError _)) = True"
| "retires (Err ConnectionPoolClosed) = True"
| "retires (Err EmptyResponse) = True"
| "retires (Err RequestTimeout) = True"
| "retires (Err _) = False"
| "retires Panic = True"

fun retries :: "fault \<Rightarrow> bool" where
  "retries (Err (IOError _)) = True"
| "retries (Err EmptyResponse) = True"
| "retries (Err RequestTimeout) = True"
| "retries _ = False"

definition pooled_action ::
    "(conn \<Rightarrow> (fault + 'r) \<times> conn) \<Rightarrow> conn \<Rightarrow> conn item_pool \<Rightarrow> (fault + 'r) \<times> conn item_pool" where
  "pooled_action f client p =
     (case f client of
        (Inr result, client) \<Rightarrow> (Inr result, guard_release client p)
      | (Inl err, client) \<Rightarrow>
          (Inl err, if retires err then guard_drop client p else guard_release client p))"

definition pooled_call ::
    "('w \<Rightarrow> (fault + conn) \<times> 'w) \<Rightarrow> (conn \<Rightarrow> (fault + 'r) \<times> conn) \<Rightarrow> 'w \<Rightarrow> conn item_pool
       \<Rightarrow> ((fault + 'r) \<times> 'w \<times> conn item_pool) option" where
  "pooled_call init f w p =
     (case ip_get init w p of
        None \<Rightarrow> None
      | Some (Inl e, w, p) \<Rightarrow> Some (Inl (error_from_pool e), w, p)
      | Some (Inr client, w, p) \<Rightarrow>
          (case pooled_action f client p of
             (Inr res, p) \<Rightarrow> Some (Inr res, w, p)
           | (Inl err, p) \<Rightarrow>
               if retries err then
                 (case ip_get_checked init prealloc_check w p of
                    None \<Rightarrow> None
                  | Some (Inl e, w, p) \<Rightarrow> Some (Inl (error_from_pool e), w, p)
                  | Some (Inr client, w, p) \<Rightarrow>
                      (case pooled_action f client p of (res, p) \<Rightarrow> Some (res, w, p)))
               else Some (Inl err, w, p)))"

text \<open>The requests of the pooled client: \<open>impl_pooled_call!\<close> on each request.\<close>

definition pool_get_cmd_desc ::
    "('w \<Rightarrow> (fault + conn) \<times> 'w) \<Rightarrow> ups_name \<Rightarrow> cmd_name \<Rightarrow> 'w \<Rightarrow> conn item_pool
       \<Rightarrow> ((fault + cmd_desc) \<times> 'w \<times> conn item_pool) option" where
  "pool_get_cmd_desc init ups cmd = pooled_call init (get_cmd_desc ups cmd)"

definition pool_get_protver ::
    "('w \<Rightarrow> (fault + conn) \<times> 'w) \<Rightarrow> 'w \<Rightarrow> conn item_pool
       \<Rightarrow> ((fault + string) \<times> 'w \<times> conn item_pool) option" where
  "pool_get_protver init = pooled_call init get_protver"

definition pool_get_ups_desc ::
    "('w \<Rightarrow> (fault + conn) \<times> 'w) \<Rightarrow> ups_name \<Rightarrow> 'w \<Rightarrow> conn item_pool
       \<Rightarrow> ((fault + ups_desc) \<times> 'w \<times> conn item_pool) option" where
  "pool_get_ups_desc init ups = pooled_call init (get_ups_desc ups)"

definition pool_get_var ::
    "('w \<Rightarrow> (fault + conn) \<times> 'w) \<Rightarrow> ups_name \<Rightarrow> var_name \<Rightarrow> 'w \<Rightarrow> conn item_pool
       \<Rightarrow> ((fault + ups_var) \<times> 'w \<times> conn item_pool) option" where
  "pool_get_var init ups var = pooled_call init (get_var ups var)"

definition pool_get_var_type ::
    "('w \<Rightarrow> (fault + conn) \<times> 'w) \<Rightarrow> ups_name \<Rightarrow> var_name \<Rightarrow> 'w \<Rightarrow> conn item_pool
       \<Rightarrow> ((fault + ups_var_type) \<times> 'w \<times> conn item_pool) option" where
  "pool_get_var_type init ups var = pooled_call init (get_var_type ups var)"

definition pool_get_var_desc ::
    "('w \<Rightarrow> (fault + conn) \<times> 'w) \<Rightarrow> ups_name \<Rightarrow> var_name \<Rightarrow> 'w \<Rightarrow> conn item_pool
       \<Rightarrow> ((fault + ups_var_desc) \<times> 'w \<times> conn item_pool) option" where
  "pool_get_var_desc init ups var = pooled_call init (get_var_desc ups var)"

definition pool_get_ver ::
    "('w \<Rightarrow> (fault + conn) \<times> 'w) \<Rightarrow> 'w \<Rightarrow> conn item_pool
       \<Rightarrow> ((fault + string) \<times> 'w \<times> conn item_pool) option" where
  "pool_get_ver init = pooled_call init get_ver"

definition pool_list_client ::
    "('w \<Rightarrow> (fault + conn) \<times> 'w) \<Rightarrow> ups_name \<Rightarrow> 'w \<Rightarrow> conn item_pool
       \<Rightarrow> ((fault + client_list) \<times> 'w \<times> conn item_pool) option" where
  "pool_list_client init ups = pooled_call init (list_client ups)"

definition pool_list_cmd ::
    "('w \<Rightarrow> (fault + conn) \<times> 'w) \<Rightarrow> ups_name \<Rightarrow> 'w \<Rightarrow> conn item_pool
       \<Rightarrow> ((fault + cmd_list) \<times> 'w \<times> conn item_pool) option" where
  "pool_list_cmd init ups = pooled_call init (list_cmd ups)"

definition pool_list_enum ::
    "('w \<Rightarrow> (fault + conn) \<times> 'w) \<Rightarrow> ups_name \<Rightarrow> var_name \<Rightarrow> 'w \<Rightarrow> conn item_pool
       \<Rightarrow> ((fault + enum_list) \<times> 'w \<times> conn item_pool) option" where
  "pool_list_enum init ups var = pooled_call init (list_enum ups var)"

definition pool_list_range ::
    "('w \<Rightarrow> (fault + conn) \<times> 'w) \<Rightarrow> ups_name \<Rightarrow> var_name \<Rightarrow> 'w \<Rightarrow> conn item_pool
       \<Rightarrow> ((fault + range_list) \<times> 'w \<times> conn item_pool) option" where
  "pool_list_range init ups var = pooled_call init (list_range ups var)"

definition pool_list_rw ::
    "('w \<Rightarrow> (fault + conn) \<times> 'w) \<Rightarrow> ups_name \<Rightarrow> 'w \<Rightarrow> conn item_pool
       \<Rightarrow> ((fault + rw_list) \<times> 'w \<times> conn item_pool) option" where
  "pool_list_rw init ups = pooled_call init (list_rw ups)"

definition pool_list_ups ::
    "('w \<Rightarrow> (fault + conn) \<times> 'w) \<Rightarrow> 'w \<Rightarrow> conn item_pool
       \<Rightarrow> ((fault + ups_device list) \<times> 'w \<times> conn item_pool) option" where
  "pool_list_ups init = pooled_call init list_ups"

definition pool_list_var ::
    "('w \<Rightarrow> (fault + conn) \<times> 'w) \<Rightarrow> ups_name \<Rightarrow> 'w \<Rightarrow> conn item_pool
       \<Rightarrow> ((fault + ups_var_list) \<times> 'w \<times> conn item_pool) option" where
  "pool_list_var init ups = pooled_call init (list_var ups)"

section \<open>Permits\<close>

text \<open>Taking an item uses one permit; failing to take one uses none.\<close>

definition took :: "'i item_pool \<Rightarrow> ('e + 'i) \<Rightarrow> 'i item_pool \<Rightarrow> bool" where
  "took p r p' \<longleftrightarrow> ip_closed p' = ip_closed p
     \<and> ip_permits p' + (if is_ok r then 1 else 0) = ip_permits p"

lemma ip_get_took:
  assumes "0 < ip_permits p" "\<not> ip_closed p"
  shows "\<exists>r w' p'. ip_get init w p = Some (r, w', p') \<and> took p r p'"
  using assms
  by (cases "ip_items p"; cases "init w"; cases "fst (init w)")
    (auto simp: ip_get_def acquire_def ip_init_def drop_permit_def took_def)

lemma ip_check_loop_took:
  "\<exists>r w' p'. ip_check_loop init check w p = (r, w', p') \<and> ip_closed p' = ip_closed p
     \<and> ip_permits p' = ip_permits p + (if is_ok r then 0 else 1)"
proof (induction init check w p rule: ip_check_loop.induct)
  case (1 init check w p)
  show ?case
  proof (cases "ip_items p")
    case Nil
    then show ?thesis
      by (cases "init w"; cases "fst (init w)") (auto simp: ip_check_loop.simps [of _ _ _ p] ip_init_def drop_permit_def)
  next
    case (Cons i rest)
    obtain s w1 where c: "check i w = (s, w1)" by fastforce
    show ?thesis
    proof (cases s)
      case (Ready j)
      then show ?thesis using Cons c by (auto simp: ip_check_loop.simps [of _ _ _ p])
    next
      case (Destroy j)
      then show ?thesis
        using "1.IH" [OF Cons c [symmetric] Destroy] Cons c by (simp add: ip_check_loop.simps [of _ _ _ p])
    qed
  qed
qed

lemma ip_get_checked_took:
  assumes "0 < ip_permits p" "\<not> ip_closed p"
  shows "\<exists>r w' p'. ip_get_checked init check w p = Some (r, w', p') \<and> took p r p'"
proof -
  obtain r w' p' where "ip_check_loop init check w (p\<lparr>ip_permits := ip_permits p - 1\<rparr>) = (r, w', p')"
    "ip_closed p' = ip_closed p" "ip_permits p' = ip_permits p - 1 + (if is_ok r then 0 else 1)"
    using ip_check_loop_took [of init check w "p\<lparr>ip_permits := ip_permits p - 1\<rparr>"] by auto
  then show ?thesis
    using assms by (auto simp: ip_get_checked_def acquire_def took_def)
qed

lemma pooled_action_permits:
  "\<exists>r p'. pooled_action f c p = (r, p') \<and> ip_permits p' = ip_permits p + 1 \<and> ip_closed p' = ip_closed p"
  by (cases "f c"; cases "fst (f c)")
    (auto simp: pooled_action_def guard_release_def guard_drop_def inner_release_def drop_permit_def)

section \<open>The configured timeout reaches every client\<close>

lemma send_raw_timeout [simp]: "nc_timeout (snd (send_raw s c)) = nc_timeout c"
proof -
  have line: "nc_timeout (snd (read_line c)) = nc_timeout c" for c
    by (simp add: read_line_def split: list.split stream_end.split)
  have loop: "nc_timeout (snd (read_list_loop n b p c)) = nc_timeout c" for n b p c
  proof (induction n arbitrary: b p c)
    case (Suc n)
    obtain r c' where "read_line c = (r, c')" by fastforce
    then show ?case using Suc line [of c] by (cases r) (simp_all add: Let_def)
  qed simp
  have "nc_timeout (snd (inner_send_raw s c)) = nc_timeout c"
  proof (cases "write_error c")
    case None
    obtain r c' where "read_line (c\<lparr>outbox := outbox c @ s\<rparr>) = (r, c')" by fastforce
    then show ?thesis
      using None line [of "c\<lparr>outbox := outbox c @ s\<rparr>"] loop
      by (cases "nc_timeout c"; cases r) (simp_all add: inner_send_raw_def Let_def)
  qed (simp add: inner_send_raw_def)
  then show ?thesis
    by (cases "inner_send_raw s c") (auto simp: send_raw_def split: option.split)
qed

lemma is_open_timeout: "is_open c = (b, c') \<Longrightarrow> nc_timeout c' = nc_timeout c"
  using send_raw_timeout [of "''NETVER'' @ [LF]" c]
  by (cases "send_raw (''NETVER'' @ [LF]) c") (auto simp: is_open_def split: sum.splits simp del: send_raw_timeout)

definition configured_timeout :: "client_allocator \<Rightarrow> nat" where
  "configured_timeout a = (case ca_timeout a of Some t \<Rightarrow> t | None \<Rightarrow> 60)"

interpretation clients: item_allocator "allocator_init connect handshake a" prealloc_check
  "\<lambda>c. nc_timeout c = configured_timeout a" for connect handshake a
proof
  show "allocator_init connect handshake a w = (Inr i, w') \<Longrightarrow> nc_timeout i = configured_timeout a" for w i w'
    by (auto simp: allocator_init_def configured_timeout_def set_timeout_def Let_def
        split: prod.splits sum.splits option.splits)
  show "nc_timeout i = configured_timeout a \<Longrightarrow> prealloc_check i w = (Ready j, w') \<Longrightarrow>
      nc_timeout j = configured_timeout a" for i j and w w' :: 'b
    by (auto simp: prealloc_check_def split: prod.splits bool.splits dest: is_open_timeout)
qed

section \<open>Properties\<close>



text \<open>Every connection the pool hands out has the configured timeout: the one given to the
  builder, or sixty seconds; it survives the check that \<open>get_client\<close> makes.\<close>

theorem get_client_timeout:
  assumes "list_all (\<lambda>c. nc_timeout c = configured_timeout a) (ip_items p)"
    and "get_client (allocator_init connect handshake a) w p = Some (Inr client, w', p')"
  shows "nc_timeout client = configured_timeout a
    \<and> list_all (\<lambda>c. nc_timeout c = configured_timeout a) (ip_items p')"
proof -
  obtain r w1 p1 where g: "ip_get_checked (allocator_init connect handshake a) prealloc_check w p = Some (r, w1, p1)"
    using assms(2) by (auto simp: get_client_def split: option.splits)
  then have "pool_all (\<lambda>c. nc_timeout c = configured_timeout a) p1"
    and "\<forall>i. r = Inr i \<longrightarrow> nc_timeout i = configured_timeout a"
    using clients.get_checked_ok [OF _ g] assms(1) by (auto simp: pool_all_def)
  then show ?thesis
    using assms(2) g by (auto simp: get_client_def guard_into_inner_def drop_permit_def pool_all_def split: sum.splits)
qed

theorem get_client_timeout_witness:
  "case get_client (allocator_init (\<lambda>w :: unit. (Inr (nc_new [] Idle), w)) Inr \<lparr>ca_timeout = Some 5, ca_tls = False\<rparr>) ()
      (ip_new 1) of Some (Inr client, _, _) \<Rightarrow> nc_timeout client = 5 | _ \<Rightarrow> False"
proof -
  let ?init = "allocator_init (\<lambda>w :: unit. (Inr (nc_new [] Idle), w)) Inr \<lparr>ca_timeout = Some 5, ca_tls = False\<rparr>"
  obtain client p' where g: "get_client ?init () (ip_new 1) = Some (Inr client, (), p')"
    by (simp add: get_client_def ip_get_checked_def acquire_def ip_new_def ip_check_loop.simps ip_init_def
        allocator_init_def guard_into_inner_def)
  then show ?thesis
    using get_client_timeout [OF _ g] by (simp add: ip_new_def configured_timeout_def)
qed

end
