(* ===== verification/Config.thy ===== *)
theory Config
  imports Users Std_Net Client_Pool "HOL-Library.AList"
begin

text \<open>
  \<open>config.rs\<close> and \<open>config/\<close>, with \<open>load_configs\<close>, \<open>create_pool\<close> and \<open>create_user_store\<close> of \<open>main.rs\<close>:
  the server's configuration, put together from a TOML file, environment variables and the
  command line over the defaults. Parsing TOML and command lines is the work of \<open>toml\<close> and \<open>clap\<close>:
  their results are arguments, as are the environment, the files and the random server key.
  Paths are texts. The locale \<open>config_layer\<close> is the contract of the trait \<open>ConfigLayer\<close>.
\<close>

section \<open>Base paths\<close>

datatype invalid_path_error = InvalidPathError

text \<open>\<open>LOOKUP_ASCII_URI\<close>; a byte outside ASCII is outside the table.\<close>

definition lookup_ascii_uri :: "char \<Rightarrow> bool option" where
  "lookup_ascii_uri c =
     (if byte c < 128 then
        Some (c \<in> set ''!$&()+,;='' \<or> c = CHR 0x27 \<or> c \<in> set ''-._~'' \<or> is_ascii_alphabetic c
              \<or> is_ascii_digit c \<or> c = CHR ''@'' \<or> c = CHR ''/'')
      else None)"

fun is_valid_path_from :: "char \<Rightarrow> string \<Rightarrow> bool" where
  "is_valid_path_from prev_chr [] = True"
| "is_valid_path_from prev_chr (chr # path) =
     (if chr = CHR ''/'' \<and> prev_chr = CHR ''/'' then False
      else if lookup_ascii_uri chr = Some True then is_valid_path_from chr path else False)"

definition is_valid_path :: "string \<Rightarrow> bool" where
  "is_valid_path = is_valid_path_from (CHR 0x00)"

text \<open>\<open>trim_end_matches(|char| char.is_whitespace() || char == '/')\<close>.\<close>

function trim_end_slashes :: "string \<Rightarrow> string" where
  "trim_end_slashes s =
     (if ws_tail s \<noteq> 0 then trim_end_slashes (take (length s - ws_tail s) s)
      else if s \<noteq> [] \<and> last s = CHR ''/'' then trim_end_slashes (butlast s) else s)"
  by pat_completeness auto
termination
  by (relation "measure length") (auto simp: ws_tail_def Let_def split: if_splits)

declare trim_end_slashes.simps [simp del]

definition uri_path_default :: string where
  "uri_path_default = []"

definition uri_path_new :: "string \<Rightarrow> invalid_path_error + string" where
  "uri_path_new path =
     (let normalized = trim_end_slashes (trim path) in
      if normalized = [] then Inr uri_path_default
      else if is_valid_path normalized then
        if hd normalized = CHR ''/'' then Inr normalized else Inr (CHR ''/'' # normalized)
      else Inl InvalidPathError)"

section \<open>TLS modes and log levels\<close>

datatype tls_mode = Disable | Strict | SkipVerify

datatype invalid_tls_mode_error = InvalidTlsModeError

definition tls_mode_from_str :: "string \<Rightarrow> invalid_tls_mode_error + tls_mode" where
  "tls_mode_from_str s =
     (let t = to_ascii_lowercase s in
      if t = ''disable'' then Inr Disable
      else if t = ''skip'' then Inr SkipVerify
      else if t = ''strict'' then Inr Strict
      else Inl InvalidTlsModeError)"

fun tls_mode_as_str :: "tls_mode \<Rightarrow> string" where
  "tls_mode_as_str Disable = ''disable''"
| "tls_mode_as_str Strict = ''strict''"
| "tls_mode_as_str SkipVerify = ''skip''"

text \<open>\<open>LevelFilter\<close> of \<open>tracing\<close>, and the visitor that reads one in a TOML file.\<close>

datatype level_filter = OFF | ERROR | WARN | INFO | DEBUG | TRACE

definition log_level_visit_str :: "string \<Rightarrow> string + level_filter" where
  "log_level_visit_str v =
     (let t = to_ascii_lowercase v in
      if t = ''debug'' then Inr DEBUG
      else if t = ''error'' then Inr ERROR
      else if t = ''warn'' then Inr WARN
      else if t = ''info'' then Inr INFO
      else if t = ''trace'' then Inr TRACE
      else Inl (''unsupported log level variant: '' @ v))"

section \<open>The configuration\<close>

text \<open>The hash map of the daemons is an association list with distinct keys.\<close>

record http_server_config =
  hc_listen :: ip_addr
  hc_port :: nat
  hc_base_path :: string
  hc_worker_count :: "nat option"

record upsd_config =
  uc_poll_freq :: nat
  uc_poll_interval :: nat
  uc_addr :: string
  uc_port :: nat
  uc_user :: "string option"
  uc_pass :: "string option"
  uc_max_conn :: nat
  uc_tls_mode :: tls_mode

record auth_config = ac_users_file :: string

record server_config =
  sv_config_file :: "string option"
  sv_default_theme :: "string option"
  sv_log_level :: level_filter
  sv_server_key :: bytes
  sv_http_server :: http_server_config
  sv_upsd :: "(string \<times> upsd_config) list"
  sv_auth :: "auth_config option"

definition http_server_default :: http_server_config where
  "http_server_default =
     \<lparr>hc_listen = V4 [0, 0, 0, 0], hc_port = 9000, hc_base_path = uri_path_default, hc_worker_count = None\<rparr>"

definition upsd_default :: upsd_config where
  "upsd_default =
     \<lparr>uc_poll_freq = 30, uc_poll_interval = 2, uc_addr = ''localhost'', uc_port = 3493, uc_user = None,
      uc_pass = None, uc_max_conn = 4, uc_tls_mode = Disable\<rparr>"

text \<open>\<open>rand_key\<close> are the 32 random bytes of \<open>rand_server_key_256bit\<close>.\<close>

definition server_default :: "bytes \<Rightarrow> server_config" where
  "server_default rand_key =
     \<lparr>sv_config_file = None, sv_default_theme = None, sv_log_level = INFO, sv_server_key = rand_key,
      sv_http_server = http_server_default, sv_upsd = [], sv_auth = None\<rparr>"

definition get_socket_addr :: "upsd_config \<Rightarrow> string" where
  "get_socket_addr c = uc_addr c @ CHR '':'' # show_nat (uc_port c)"

definition DEFAULT_UPSD_KEY :: string where
  "DEFAULT_UPSD_KEY = ''default''"

text \<open>\<open>override_opt_field!\<close>, for an optional field and for a plain one.\<close>

definition override_opt :: "'a option \<Rightarrow> 'a option \<Rightarrow> 'a option" where
  "override_opt v field = (if v \<noteq> None then v else field)"

definition override_inner :: "'a option \<Rightarrow> 'a \<Rightarrow> 'a" where
  "override_inner v field = (case v of Some inner \<Rightarrow> inner | None \<Rightarrow> field)"

section \<open>The layers\<close>

record http_section =
  hs_listen :: "ip_addr option"
  hs_port :: "nat option"
  hs_base_path :: "string option"
  hs_worker_count :: "nat option"

record upsd_section =
  se_address :: "string option"
  se_password :: "string option"
  se_poll_freq :: "nat option"
  se_poll_interval :: "nat option"
  se_port :: "nat option"
  se_username :: "string option"
  se_max_connection :: "nat option"
  se_tls_mode :: "tls_mode option"

record toml_args =
  ta_default_theme :: "string option"
  ta_log_level :: "level_filter option"
  ta_http_server :: "http_section option"
  ta_upsd :: "(string \<times> upsd_section) list option"
  ta_auth :: "string option"

definition toml_args_default :: toml_args where
  "toml_args_default =
     \<lparr>ta_default_theme = None, ta_log_level = None, ta_http_server = None, ta_upsd = None, ta_auth = None\<rparr>"

text \<open>The server of one \<open>[upsd.name]\<close> section.\<close>

definition section_config :: "upsd_section \<Rightarrow> upsd_config" where
  "section_config val =
     upsd_default\<lparr>
       uc_addr := override_inner (se_address val) (uc_addr upsd_default),
       uc_max_conn := override_inner (se_max_connection val) (uc_max_conn upsd_default),
       uc_pass := override_opt (se_password val) (uc_pass upsd_default),
       uc_poll_freq := override_inner (se_poll_freq val) (uc_poll_freq upsd_default),
       uc_poll_interval := override_inner (se_poll_interval val) (uc_poll_interval upsd_default),
       uc_port := override_inner (se_port val) (uc_port upsd_default),
       uc_tls_mode := override_inner (se_tls_mode val) (uc_tls_mode upsd_default),
       uc_user := override_opt (se_username val) (uc_user upsd_default)\<rparr>"

fun insert_sections :: "(string \<times> upsd_section) list \<Rightarrow> (string \<times> upsd_config) list \<Rightarrow> (string \<times> upsd_config) list" where
  "insert_sections [] upsd = upsd"
| "insert_sections ((key, val) # sections) upsd = insert_sections sections (AList.update key (section_config val) upsd)"

definition override_http ::
    "string option \<Rightarrow> ip_addr option \<Rightarrow> nat option \<Rightarrow> nat option \<Rightarrow> http_server_config \<Rightarrow> http_server_config" where
  "override_http base_path listen port worker_count h =
     h\<lparr>hc_base_path := override_inner base_path (hc_base_path h),
       hc_listen := override_inner listen (hc_listen h),
       hc_port := override_inner port (hc_port h),
       hc_worker_count := override_opt worker_count (hc_worker_count h)\<rparr>"

definition toml_apply_layer :: "toml_args \<Rightarrow> server_config \<Rightarrow> server_config" where
  "toml_apply_layer a config =
     (let config = config\<lparr>sv_default_theme := override_opt (ta_default_theme a) (sv_default_theme config)\<rparr>;
          config = config\<lparr>sv_log_level := override_inner (ta_log_level a) (sv_log_level config)\<rparr>;
          config = (case ta_upsd a of
             Some upsd_section \<Rightarrow>
               if upsd_section \<noteq> [] then config\<lparr>sv_upsd := insert_sections upsd_section (sv_upsd config)\<rparr> else config
           | None \<Rightarrow> config);
          config = (case ta_http_server a of
             Some h \<Rightarrow> config\<lparr>sv_http_server :=
               override_http (hs_base_path h) (hs_listen h) (hs_port h) (hs_worker_count h) (sv_http_server config)\<rparr>
           | None \<Rightarrow> config) in
      (case ta_auth a of
         Some users_file \<Rightarrow> config\<lparr>sv_auth := Some \<lparr>ac_users_file = users_file\<rparr>\<rparr>
       | None \<Rightarrow> config))"

record env_args =
  ea_auth_users_file :: "string option"
  ea_config_file :: "string option"
  ea_default_theme :: "string option"
  ea_http_base_path :: "string option"
  ea_http_listen :: "ip_addr option"
  ea_http_port :: "nat option"
  ea_http_worker_count :: "nat option"
  ea_log_level :: "level_filter option"
  ea_server_key :: "bytes option"
  ea_upsd_addr :: "string option"
  ea_upsd_max_conn :: "nat option"
  ea_upsd_name :: "string option"
  ea_upsd_pass :: "string option"
  ea_upsd_poll_freq :: "nat option"
  ea_upsd_poll_interval :: "nat option"
  ea_upsd_port :: "nat option"
  ea_upsd_tls :: "tls_mode option"
  ea_upsd_user :: "string option"

definition env_args_default :: env_args where
  "env_args_default =
     \<lparr>ea_auth_users_file = None, ea_config_file = None, ea_default_theme = None, ea_http_base_path = None,
      ea_http_listen = None, ea_http_port = None, ea_http_worker_count = None, ea_log_level = None,
      ea_server_key = None, ea_upsd_addr = None, ea_upsd_max_conn = None, ea_upsd_name = None,
      ea_upsd_pass = None, ea_upsd_poll_freq = None, ea_upsd_poll_interval = None, ea_upsd_port = None,
      ea_upsd_tls = None, ea_upsd_user = None\<rparr>"

definition env_upsd :: "env_args \<Rightarrow> upsd_config \<Rightarrow> upsd_config" where
  "env_upsd a u =
     u\<lparr>uc_addr := override_inner (ea_upsd_addr a) (uc_addr u),
       uc_max_conn := override_inner (ea_upsd_max_conn a) (uc_max_conn u),
       uc_pass := override_opt (ea_upsd_pass a) (uc_pass u),
       uc_poll_freq := override_inner (ea_upsd_poll_freq a) (uc_poll_freq u),
       uc_poll_interval := override_inner (ea_upsd_poll_interval a) (uc_poll_interval u),
       uc_port := override_inner (ea_upsd_port a) (uc_port u),
       uc_tls_mode := override_inner (ea_upsd_tls a) (uc_tls_mode u),
       uc_user := override_opt (ea_upsd_user a) (uc_user u)\<rparr>"

definition env_key :: "env_args \<Rightarrow> string" where
  "env_key a = (case ea_upsd_name a of Some v \<Rightarrow> v | None \<Rightarrow> DEFAULT_UPSD_KEY)"

definition env_apply_layer :: "env_args \<Rightarrow> server_config \<Rightarrow> server_config" where
  "env_apply_layer a config =
     (let config = config\<lparr>
            sv_config_file := override_opt (ea_config_file a) (sv_config_file config),
            sv_default_theme := override_opt (ea_default_theme a) (sv_default_theme config),
            sv_log_level := override_inner (ea_log_level a) (sv_log_level config),
            sv_server_key := override_inner (ea_server_key a) (sv_server_key config),
            sv_http_server := override_http (ea_http_base_path a) (ea_http_listen a) (ea_http_port a)
              (ea_http_worker_count a) (sv_http_server config)\<rparr>;
          config = (case ea_auth_users_file a of
             Some users_file \<Rightarrow> config\<lparr>sv_auth := Some \<lparr>ac_users_file = users_file\<rparr>\<rparr>
           | None \<Rightarrow> config);
          default_upsd_key = env_key a;
          config =
            (if ea_upsd_addr a \<noteq> None \<and> map_of (sv_upsd config) default_upsd_key = None
             then config\<lparr>sv_upsd := AList.update default_upsd_key upsd_default (sv_upsd config)\<rparr> else config) in
      (case map_of (sv_upsd config) default_upsd_key of
         Some default_upsd \<Rightarrow> config\<lparr>sv_upsd := AList.update default_upsd_key (env_upsd a default_upsd) (sv_upsd config)\<rparr>
       | None \<Rightarrow> config))"

record cli_args =
  cl_listen :: "ip_addr option"
  cl_port :: "nat option"
  cl_base_path :: "string option"
  cl_log_level :: "level_filter option"
  cl_default_theme :: "string option"
  cl_config_file :: "string option"
  cl_allow_env :: bool
  cl_server_key :: "string option"
  cl_with_auth :: "string option"
  cl_worker_count :: "nat option"

definition cli_apply_layer :: "cli_args \<Rightarrow> server_config \<Rightarrow> server_config" where
  "cli_apply_layer a config =
     (let config = config\<lparr>
            sv_config_file := override_opt (cl_config_file a) (sv_config_file config),
            sv_default_theme := override_opt (cl_default_theme a) (sv_default_theme config),
            sv_log_level := override_inner (cl_log_level a) (sv_log_level config),
            sv_server_key := override_inner (map_option str_bytes (cl_server_key a)) (sv_server_key config),
            sv_http_server := override_http (cl_base_path a) (cl_listen a) (cl_port a) (cl_worker_count a)
              (sv_http_server config)\<rparr> in
      (case cl_with_auth a of
         Some users_file \<Rightarrow> config\<lparr>sv_auth := Some \<lparr>ac_users_file = users_file\<rparr>\<rparr>
       | None \<Rightarrow> config))"

text \<open>\<open>FallbackArgs\<close>.\<close>

definition fallback_apply_layer :: "server_config \<Rightarrow> server_config" where
  "fallback_apply_layer config =
     (if sv_upsd config = [] then config\<lparr>sv_upsd := AList.update DEFAULT_UPSD_KEY upsd_default (sv_upsd config)\<rparr> else config)"

section \<open>Loading\<close>

text \<open>The environment and the files. \<open>env::var\<close> on a variable that is not UTF-8 is \<open>NotUnicode\<close>.\<close>

datatype env_var = NotPresent | NotUnicode string | Present string

record os =
  os_var :: "string \<Rightarrow> env_var"
  os_is_file :: "string \<Rightarrow> bool"
  os_read :: "string \<Rightarrow> string + string"

datatype env_config_error =
    EnvIOError string
  | InvalidAddrFormat
  | InvalidLogLevelFormat
  | InvalidNumericFormat
  | InvalidTlsMode
  | InvalidUriPath
  | NonUnicodeVar string

datatype toml_config_error = TomlIOError string | TomlParseError string | TomlInvalidVersion

datatype config_error = FileError toml_config_error | EnvironmentError env_config_error | ArgumentsError string

definition load_from_env :: "os \<Rightarrow> string \<Rightarrow> env_config_error + string option" where
  "load_from_env os key =
     (case os_var os key of
        Present value \<Rightarrow>
          if value = [] then Inr None
          else if os_is_file os value then
            (case os_read os value of Inl e \<Rightarrow> Inl (EnvIOError e) | Inr buffer \<Rightarrow> Inr (Some buffer))
          else Inr (Some value)
      | NotUnicode variable \<Rightarrow> Inl (NonUnicodeVar variable)
      | NotPresent \<Rightarrow> Inr None)"

text \<open>\<open>load_var!\<close>: texts, paths and values with a parser. The target field is empty before.\<close>

definition load_parsed :: "os \<Rightarrow> (string \<Rightarrow> env_config_error + 'a) \<Rightarrow> string \<Rightarrow> env_config_error + 'a option" where
  "load_parsed os parse key =
     bind_res (load_from_env os key) (\<lambda>v.
       case v of None \<Rightarrow> Inr None | Some value \<Rightarrow> bind_res (parse (trim value)) (\<lambda>x. Inr (Some x)))"

definition load_str :: "os \<Rightarrow> string \<Rightarrow> env_config_error + string option" where
  "load_str os = load_parsed os Inr"

definition load_path_buf :: "os \<Rightarrow> string \<Rightarrow> string option" where
  "load_path_buf os key =
     (case os_var os key of
        Present value \<Rightarrow> let path_str = trim value in if path_str = [] then None else Some path_str
      | _ \<Rightarrow> None)"

definition parse_num :: "nat \<Rightarrow> nat \<Rightarrow> string \<Rightarrow> env_config_error + nat" where
  "parse_num lo hi s =
     (case parse_unsigned hi s of
        Some n \<Rightarrow> if lo \<le> n then Inr n else Inl InvalidNumericFormat
      | None \<Rightarrow> Inl InvalidNumericFormat)"

abbreviation "u16_max \<equiv> (65535 :: nat)"
abbreviation "u64_max \<equiv> (18446744073709551615 :: nat)"

text \<open>\<open>ServerEnvArgs::load\<close>; reading a log level is \<open>tracing\<close>'s parser.\<close>

definition env_load :: "(string \<Rightarrow> level_filter option) \<Rightarrow> os \<Rightarrow> env_config_error + env_args" where
  "env_load parse_level os =
     bind_res (load_str os ''NUTWG__DEFAULT_THEME'') (\<lambda>default_theme.
     bind_res (load_parsed os (\<lambda>s. case parse_level s of Some l \<Rightarrow> Inr l | None \<Rightarrow> Inl InvalidLogLevelFormat)
       ''NUTWG__LOG_LEVEL'') (\<lambda>log_level.
     bind_res (load_parsed os (\<lambda>s. Inr (str_bytes s)) ''NUTWG__SERVER_KEY'') (\<lambda>server_key.
     bind_res (load_parsed os (\<lambda>s. map_err (\<lambda>_. InvalidUriPath) (uri_path_new s)) ''NUTWG__HTTP_SERVER__BASE_PATH'') (\<lambda>base_path.
     bind_res (load_parsed os (\<lambda>s. case parse_ip_addr s of Some ip \<Rightarrow> Inr ip | None \<Rightarrow> Inl InvalidAddrFormat)
       ''NUTWG__HTTP_SERVER__LISTEN'') (\<lambda>listen.
     bind_res (load_parsed os (parse_num 0 u16_max) ''NUTWG__HTTP_SERVER__PORT'') (\<lambda>port.
     bind_res (load_parsed os (parse_num 1 u64_max) ''NUTWG__HTTP_SERVER__WORKER_COUNT'') (\<lambda>worker_count.
     bind_res (load_str os ''NUTWG__UPSD__NAME'') (\<lambda>upsd_name.
     bind_res (load_str os ''NUTWG__UPSD__ADDRESS'') (\<lambda>upsd_addr.
     bind_res (load_parsed os (parse_num 1 u64_max) ''NUTWG__UPSD__MAX_CONNECTION'') (\<lambda>max_conn.
     bind_res (load_str os ''NUTWG__UPSD__PASSWORD'') (\<lambda>pass.
     bind_res (load_parsed os (parse_num 0 u64_max) ''NUTWG__UPSD__POLL_FREQ'') (\<lambda>poll_freq.
     bind_res (load_parsed os (parse_num 0 u64_max) ''NUTWG__UPSD__POLL_INTERVAL'') (\<lambda>poll_interval.
     bind_res (load_parsed os (parse_num 0 u16_max) ''NUTWG__UPSD__PORT'') (\<lambda>upsd_port.
     bind_res (load_parsed os (\<lambda>s. map_err (\<lambda>_. InvalidTlsMode) (tls_mode_from_str s)) ''NUTWG__UPSD__TLS_MODE'') (\<lambda>tls.
     bind_res (load_str os ''NUTWG__UPSD__USERNAME'') (\<lambda>user.
     Inr \<lparr>ea_auth_users_file = load_path_buf os ''NUTWG__AUTH__USERS_FILE'',
          ea_config_file = load_path_buf os ''NUTWG__CONFIG_FILE'',
          ea_default_theme = default_theme, ea_http_base_path = base_path, ea_http_listen = listen,
          ea_http_port = port, ea_http_worker_count = worker_count, ea_log_level = log_level,
          ea_server_key = server_key, ea_upsd_addr = upsd_addr, ea_upsd_max_conn = max_conn,
          ea_upsd_name = upsd_name, ea_upsd_pass = pass, ea_upsd_poll_freq = poll_freq,
          ea_upsd_poll_interval = poll_interval, ea_upsd_port = upsd_port, ea_upsd_tls = tls,
          ea_upsd_user = user\<rparr>))))))))))))))))"

text \<open>A parsed TOML document: its \<open>version\<close>, and its reading as \<open>ServerTomlArgs\<close>.\<close>

datatype toml_value = TomlString string | TomlOther

record toml_root =
  tr_version :: "toml_value option"
  tr_args :: "string + toml_args"

definition toml_load :: "(string \<Rightarrow> string + toml_root) \<Rightarrow> os \<Rightarrow> string \<Rightarrow> toml_config_error + toml_args" where
  "toml_load parse os path =
     bind_res (map_err TomlIOError (os_read os path)) (\<lambda>buffer.
     bind_res (map_err TomlParseError (parse buffer)) (\<lambda>root.
       case tr_version root of
         None \<Rightarrow> map_err TomlParseError (tr_args root)
       | Some (TomlString ver) \<Rightarrow>
           if ver = ''1'' then map_err TomlParseError (tr_args root) else Inl TomlInvalidVersion
       | Some _ \<Rightarrow> Inl TomlInvalidVersion))"

definition load_configs ::
    "(string \<Rightarrow> level_filter option) \<Rightarrow> (string \<Rightarrow> string + toml_root) \<Rightarrow> os \<Rightarrow> bytes \<Rightarrow> string + cli_args
       \<Rightarrow> config_error + server_config" where
  "load_configs parse_level parse_toml os rand_key cli =
     bind_res (map_err ArgumentsError cli) (\<lambda>cli_args.
     bind_res (if cl_allow_env cli_args then map_err EnvironmentError (env_load parse_level os) else Inr env_args_default) (\<lambda>env_args.
     bind_res (case (case cl_config_file cli_args of Some p \<Rightarrow> Some p | None \<Rightarrow> ea_config_file env_args) of
                 Some path \<Rightarrow> map_err FileError (toml_load parse_toml os path)
               | None \<Rightarrow> Inr toml_args_default) (\<lambda>toml_args.
     Inr (fallback_apply_layer (cli_apply_layer cli_args (env_apply_layer env_args
       (toml_apply_layer toml_args (server_default rand_key))))))))"

section \<open>What \<open>main\<close> builds of it\<close>

text \<open>\<open>create_pool\<close>; the certificate verifier of the platform and the check of a server name for TLS
  are arguments, and may fail.\<close>

definition create_pool ::
    "(unit \<Rightarrow> string + unit) \<Rightarrow> (string \<Rightarrow> string + unit) \<Rightarrow> upsd_config \<Rightarrow> string + pool_builder" where
  "create_pool platform_verifier server_name config =
     bind_res (case uc_tls_mode config of
                 Disable \<Rightarrow> Inr None
               | Strict \<Rightarrow> bind_res (platform_verifier ()) (\<lambda>_. Inr (Some ()))
               | SkipVerify \<Rightarrow> bind_res (platform_verifier ()) (\<lambda>_. Inr (Some ()))) (\<lambda>tls_client_conf.
     let builder = with_limit (uc_max_conn config) (with_timeout (uc_poll_freq config) builder_new) in
     (case tls_client_conf of
        Some tls_config \<Rightarrow> bind_res (server_name (uc_addr config)) (\<lambda>_. Inr (with_tls builder))
      | None \<Rightarrow> Inr builder))"

text \<open>The users file, and the loop of its visitor: a later entry replaces an earlier one.\<close>

record user_config =
  cu_password :: string
  cu_permissions :: "permissions option"

fun visit_users :: "(string \<times> user_config) list \<Rightarrow> (string \<times> user_config) list \<Rightarrow> (string \<times> user_config) list" where
  "visit_users [] users = users"
| "visit_users ((k, v) # entries) users = visit_users entries (AList.update k v users)"

definition users_load ::
    "(string \<Rightarrow> string + (string \<times> user_config) list) \<Rightarrow> os \<Rightarrow> string \<Rightarrow> string + (string \<times> user_config) list" where
  "users_load parse os path =
     bind_res (os_read os path) (\<lambda>buffer. bind_res (parse buffer) (\<lambda>entries. Inr (visit_users entries [])))"

text \<open>The loop of \<open>create_user_store\<close>; every user has a salt of its own. \<open>None\<close> is a panic.\<close>

fun add_users ::
    "(bytes \<Rightarrow> bytes \<Rightarrow> bytes option) \<Rightarrow> (string \<Rightarrow> bytes) \<Rightarrow> (string \<times> user_config) list \<Rightarrow> user_store_builder
       \<Rightarrow> user_store_builder option" where
  "add_users scrypt salt [] builder = Some builder"
| "add_users scrypt salt ((username, c) # users) builder =
     (case add_user scrypt (salt username)
             \<lparr>up_permissions = (case cu_permissions c of Some p \<Rightarrow> p | None \<Rightarrow> 0), up_username = username\<rparr>
             (str_bytes (cu_password c)) builder of
        None \<Rightarrow> None
      | Some (_, builder) \<Rightarrow> add_users scrypt salt users builder)"

definition AUTH_COOKIE_DURATION :: "64 word" where
  "AUTH_COOKIE_DURATION = 3600 * 24 * 30"

definition create_user_store ::
    "(bytes \<Rightarrow> bytes \<Rightarrow> bytes option) \<Rightarrow> (string \<Rightarrow> bytes) \<Rightarrow> (string \<Rightarrow> string + (string \<times> user_config) list) \<Rightarrow> os
       \<Rightarrow> server_config \<Rightarrow> (string + user_store option) option" where
  "create_user_store scrypt salt parse os config =
     (case sv_auth config of
        Some auth \<Rightarrow>
          (case users_load parse os (ac_users_file auth) of
             Inl e \<Rightarrow> Some (Inl e)
           | Inr users \<Rightarrow>
               (case add_users scrypt salt users (with_session_duration AUTH_COOKIE_DURATION builder_store_new) of
                  None \<Rightarrow> None
                | Some builder \<Rightarrow> Some (Inr (Some (store_build builder)))))
      | None \<Rightarrow> Some (Inr None))"

section \<open>Lemmas on base paths\<close>

lemma trim_end_slashes_end: "trim_end_slashes s = [] \<or> last (trim_end_slashes s) \<noteq> CHR ''/''"
proof (induction s rule: trim_end_slashes.induct)
  case (1 s)
  then show ?case by (subst (1 2) trim_end_slashes.simps) auto
qed

lemma trim_end_slashes_id:
  assumes "s \<noteq> []" "visible (last s)" "last s \<noteq> CHR ''/''" shows "trim_end_slashes s = s"
  using assms ws_tail_visible [of s] by (subst trim_end_slashes.simps) simp

lemma lookup_visible: "lookup_ascii_uri c = Some True \<Longrightarrow> visible c"
  by (auto simp: lookup_ascii_uri_def visible_def is_ascii_alphabetic_def is_ascii_uppercase_def
      is_ascii_lowercase_def is_ascii_digit_def split: if_splits)

lemma is_valid_path_from_iff:
  "is_valid_path_from p s \<longleftrightarrow>
     list_all (\<lambda>c. lookup_ascii_uri c = Some True) s \<and> successively (\<lambda>a b. \<not> (a = CHR ''/'' \<and> b = CHR ''/'')) (p # s)"
  by (induction p s rule: is_valid_path_from.induct) auto

text \<open>A normal base path: empty, or segments after single slashes, without one at the end.\<close>

definition path_normal :: "string \<Rightarrow> bool" where
  "path_normal p \<longleftrightarrow> p = [] \<or>
     (hd p = CHR ''/'' \<and> last p \<noteq> CHR ''/'' \<and> list_all (\<lambda>c. lookup_ascii_uri c = Some True) p
      \<and> successively (\<lambda>a b. \<not> (a = CHR ''/'' \<and> b = CHR ''/'')) p)"

lemma uri_path_new_normal: "uri_path_new s = Inr p \<Longrightarrow> path_normal p"
  using trim_end_slashes_end [of "trim s"]
  by (auto simp: uri_path_new_def uri_path_default_def path_normal_def is_valid_path_def is_valid_path_from_iff Let_def
      lookup_ascii_uri_def successively_Cons split: if_splits)

lemma uri_path_new_id: "path_normal p \<Longrightarrow> uri_path_new p = Inr p"
proof (cases "p = []")
  case True
  then show ?thesis
    by (simp add: uri_path_new_def uri_path_default_def trim_end_slashes.simps trim_def trim_start.simps trim_end.simps)
next
  case False
  assume n: "path_normal p"
  then have v: "visible (hd p)" "visible (last p)"
    using False lookup_visible by (auto simp: path_normal_def list_all_iff) (simp add: visible_def)
  then have "trim_end_slashes (trim p) = p"
    using n False by (simp add: trim_visible trim_end_slashes_id path_normal_def)
  moreover have "is_valid_path p"
    using n False by (auto simp: is_valid_path_def is_valid_path_from_iff path_normal_def successively_Cons)
  ultimately show ?thesis
    using n False by (simp add: uri_path_new_def path_normal_def)
qed

section \<open>The contract of a layer\<close>

text \<open>What a layer says of the settings outside the daemon table, and what a configuration holds.\<close>

record settings =
  g_config_file :: "string option"
  g_default_theme :: "string option"
  g_log_level :: "level_filter option"
  g_server_key :: "bytes option"
  g_listen :: "ip_addr option"
  g_port :: "nat option"
  g_base_path :: "string option"
  g_worker_count :: "nat option"
  g_auth :: "auth_config option"

definition held :: "server_config \<Rightarrow> settings" where
  "held c =
     \<lparr>g_config_file = sv_config_file c, g_default_theme = sv_default_theme c, g_log_level = Some (sv_log_level c),
      g_server_key = Some (sv_server_key c), g_listen = Some (hc_listen (sv_http_server c)),
      g_port = Some (hc_port (sv_http_server c)), g_base_path = Some (hc_base_path (sv_http_server c)),
      g_worker_count = hc_worker_count (sv_http_server c), g_auth = sv_auth c\<rparr>"

definition over :: "settings \<Rightarrow> settings \<Rightarrow> settings" where
  "over s t =
     \<lparr>g_config_file = override_opt (g_config_file s) (g_config_file t),
      g_default_theme = override_opt (g_default_theme s) (g_default_theme t),
      g_log_level = override_opt (g_log_level s) (g_log_level t),
      g_server_key = override_opt (g_server_key s) (g_server_key t),
      g_listen = override_opt (g_listen s) (g_listen t), g_port = override_opt (g_port s) (g_port t),
      g_base_path = override_opt (g_base_path s) (g_base_path t),
      g_worker_count = override_opt (g_worker_count s) (g_worker_count t), g_auth = override_opt (g_auth s) (g_auth t)\<rparr>"

definition toml_says :: "toml_args \<Rightarrow> settings" where
  "toml_says a =
     \<lparr>g_config_file = None, g_default_theme = ta_default_theme a, g_log_level = ta_log_level a, g_server_key = None,
      g_listen = Option.bind (ta_http_server a) hs_listen, g_port = Option.bind (ta_http_server a) hs_port,
      g_base_path = Option.bind (ta_http_server a) hs_base_path,
      g_worker_count = Option.bind (ta_http_server a) hs_worker_count,
      g_auth = map_option auth_config.make (ta_auth a)\<rparr>"

definition env_says :: "env_args \<Rightarrow> settings" where
  "env_says a =
     \<lparr>g_config_file = ea_config_file a, g_default_theme = ea_default_theme a, g_log_level = ea_log_level a,
      g_server_key = ea_server_key a, g_listen = ea_http_listen a, g_port = ea_http_port a,
      g_base_path = ea_http_base_path a, g_worker_count = ea_http_worker_count a,
      g_auth = map_option auth_config.make (ea_auth_users_file a)\<rparr>"

definition cli_says :: "cli_args \<Rightarrow> settings" where
  "cli_says a =
     \<lparr>g_config_file = cl_config_file a, g_default_theme = cl_default_theme a, g_log_level = cl_log_level a,
      g_server_key = map_option str_bytes (cl_server_key a), g_listen = cl_listen a, g_port = cl_port a,
      g_base_path = cl_base_path a, g_worker_count = cl_worker_count a,
      g_auth = map_option auth_config.make (cl_with_auth a)\<rparr>"

definition silent :: settings where
  "silent = \<lparr>g_config_file = None, g_default_theme = None, g_log_level = None, g_server_key = None, g_listen = None,
     g_port = None, g_base_path = None, g_worker_count = None, g_auth = None\<rparr>"

lemma override_opt_simps [simp]: "override_opt None x = x" "override_opt (Some v) x = Some v" "override_opt x None = x"
  by (cases x; simp add: override_opt_def)+

lemma override_opt_assoc: "override_opt a (override_opt b c) = override_opt (override_opt a b) c"
  by (cases a) simp_all

lemma override_inner_opt [simp]: "Some (override_inner v x) = override_opt v (Some x)"
  by (simp add: override_inner_def override_opt_def split: option.split)

lemma over_silent [simp]: "over silent s = s" "over s silent = s"
  by (simp_all add: over_def silent_def)

lemma over_assoc: "over a (over b c) = over (over a b) c"
  by (simp add: over_def override_opt_assoc)

locale config_layer =
  fixes apply_layer :: "'l \<Rightarrow> server_config \<Rightarrow> server_config" and says :: "'l \<Rightarrow> settings"
  assumes apply_says: "held (apply_layer l c) = over (says l) (held c)"
begin

lemma apply_silent: "says l = silent \<Longrightarrow> held (apply_layer l c) = held c"
  by (simp add: apply_says)

end

locale two_layers = outer: config_layer apply1 says1 + inner: config_layer apply2 says2
  for apply1 :: "'l \<Rightarrow> server_config \<Rightarrow> server_config" and says1
  and apply2 :: "'m \<Rightarrow> server_config \<Rightarrow> server_config" and says2
begin

sublocale both: config_layer "\<lambda>(l, m) c. apply1 l (apply2 m c)" "\<lambda>(l, m). over (says1 l) (says2 m)"
  by unfold_locales (auto simp: outer.apply_says inner.apply_says over_assoc)

end

lemmas layer_defs = held_def over_def silent_def override_http_def auth_config.make_def

interpretation toml: config_layer toml_apply_layer toml_says
  by unfold_locales (simp add: toml_apply_layer_def toml_says_def layer_defs Let_def split: option.split)

interpretation env: config_layer env_apply_layer env_says
  by unfold_locales (simp add: env_apply_layer_def env_says_def layer_defs Let_def split: option.split)

interpretation cli: config_layer cli_apply_layer cli_says
  by unfold_locales (simp add: cli_apply_layer_def cli_says_def layer_defs Let_def split: option.split)

interpretation fallback: config_layer "\<lambda>_ :: unit. fallback_apply_layer" "\<lambda>_. silent"
  by unfold_locales (simp add: fallback_apply_layer_def layer_defs)

interpretation cli_env: two_layers cli_apply_layer cli_says env_apply_layer env_says ..

section \<open>What a loaded configuration was loaded from\<close>

definition loaded ::
    "(string \<Rightarrow> level_filter option) \<Rightarrow> (string \<Rightarrow> string + toml_root) \<Rightarrow> os \<Rightarrow> cli_args \<Rightarrow> env_args \<Rightarrow> toml_args \<Rightarrow> bool" where
  "loaded parse_level parse_toml os cli env toml \<longleftrightarrow>
     (if cl_allow_env cli then env_load parse_level os = Inr env else env = env_args_default)
     \<and> (case override_opt (cl_config_file cli) (ea_config_file env) of
          Some path \<Rightarrow> toml_load parse_toml os path = Inr toml
        | None \<Rightarrow> toml = toml_args_default)"

lemma load_configs_loaded:
  assumes "load_configs parse_level parse_toml os key (Inr cli) = Inr c"
  obtains env toml where "loaded parse_level parse_toml os cli env toml"
    "c = fallback_apply_layer (cli_apply_layer cli (env_apply_layer env (toml_apply_layer toml (server_default key))))"
proof -
  obtain env toml where e: "(if cl_allow_env cli then map_err EnvironmentError (env_load parse_level os) else Inr env_args_default) = Inr env"
    and t: "(case (case cl_config_file cli of Some p \<Rightarrow> Some p | None \<Rightarrow> ea_config_file env) of
        Some path \<Rightarrow> map_err FileError (toml_load parse_toml os path) | None \<Rightarrow> Inr toml_args_default) = Inr toml"
    and c: "c = fallback_apply_layer (cli_apply_layer cli (env_apply_layer env (toml_apply_layer toml (server_default key))))"
    using assms unfolding load_configs_def by (auto simp: bind_res_eq_Inr)
  from e t have "loaded parse_level parse_toml os cli env toml"
    unfolding loaded_def by (auto split: if_splits option.splits)
  with c show ?thesis by (rule that[rotated])
qed

text \<open>The first of some sources that gives a value.\<close>

fun first_given :: "'a option list \<Rightarrow> 'a option" where
  "first_given [] = None"
| "first_given (x # xs) = (case x of Some v \<Rightarrow> Some v | None \<Rightarrow> first_given xs)"

lemma first_given_override: "first_given (x # xs) = override_opt x (first_given xs)"
  by (cases x) simp_all

section \<open>The table of daemons\<close>

definition toml_daemons :: "toml_args \<Rightarrow> (string \<rightharpoonup> upsd_config)" where
  "toml_daemons a = map_of (map (\<lambda>(k, v). (k, section_config v)) (rev (case ta_upsd a of Some sections \<Rightarrow> sections | None \<Rightarrow> [])))"

definition env_daemons :: "env_args \<Rightarrow> (string \<rightharpoonup> upsd_config) \<Rightarrow> (string \<rightharpoonup> upsd_config)" where
  "env_daemons a t =
     (case (t (env_key a), ea_upsd_addr a) of
        (Some u, _) \<Rightarrow> t(env_key a \<mapsto> env_upsd a u)
      | (None, Some _) \<Rightarrow> t(env_key a \<mapsto> env_upsd a upsd_default)
      | (None, None) \<Rightarrow> t)"

lemma map_of_insert_sections:
  "map_of (insert_sections sections l) = map_of l ++ map_of (map (\<lambda>(k, v). (k, section_config v)) (rev sections))"
  by (induction sections l rule: insert_sections.induct) (auto simp: update_conv' map_add_def split: option.split)

lemma distinct_insert_sections: "distinct (map fst l) \<Longrightarrow> distinct (map fst (insert_sections sections l))"
  by (induction sections l rule: insert_sections.induct) (simp_all add: distinct_update)

lemma toml_daemons_applied:
  "map_of (sv_upsd (toml_apply_layer a (server_default key))) = toml_daemons a
   \<and> distinct (map fst (sv_upsd (toml_apply_layer a (server_default key))))"
  using distinct_insert_sections [of "[]"]
  by (auto simp: toml_apply_layer_def toml_daemons_def server_default_def Let_def map_of_insert_sections split: option.split)

lemma env_daemons_applied:
  "map_of (sv_upsd (env_apply_layer a c)) = env_daemons a (map_of (sv_upsd c))
   \<and> (distinct (map fst (sv_upsd c)) \<longrightarrow> distinct (map fst (sv_upsd (env_apply_layer a c))))"
  by (auto simp: env_apply_layer_def env_daemons_def Let_def update_conv' distinct_update split: option.split)

lemma cli_daemons_applied [simp]: "sv_upsd (cli_apply_layer a c) = sv_upsd c"
  by (simp add: cli_apply_layer_def Let_def split: option.split)

lemma map_of_empty_iff: "map_of l = Map.empty \<longleftrightarrow> l = []"
  by (cases l) (auto simp: fun_eq_iff)

section \<open>Types\<close>

definition upsd_ok :: "upsd_config \<Rightarrow> bool" where
  "upsd_ok u \<longleftrightarrow> uc_port u \<le> u16_max \<and> 1 \<le> uc_max_conn u \<and> uc_max_conn u \<le> u64_max
     \<and> uc_poll_freq u \<le> u64_max \<and> uc_poll_interval u \<le> u64_max"

definition settings_ok :: "settings \<Rightarrow> bool" where
  "settings_ok s \<longleftrightarrow> pred_option (\<lambda>p. p \<le> u16_max) (g_port s) \<and> pred_option path_normal (g_base_path s)
     \<and> pred_option (\<lambda>n. 1 \<le> n \<and> n \<le> u64_max) (g_worker_count s)"

definition config_ok :: "server_config \<Rightarrow> bool" where
  "config_ok c \<longleftrightarrow> settings_ok (held c) \<and> sv_upsd c \<noteq> [] \<and> distinct (map fst (sv_upsd c))
     \<and> (\<forall>u\<in>ran (map_of (sv_upsd c)). upsd_ok u)"

definition section_ok :: "upsd_section \<Rightarrow> bool" where
  "section_ok s \<longleftrightarrow> pred_option (\<lambda>p. p \<le> u16_max) (se_port s) \<and> pred_option (\<lambda>n. 1 \<le> n \<and> n \<le> u64_max) (se_max_connection s)
     \<and> pred_option (\<lambda>n. n \<le> u64_max) (se_poll_freq s) \<and> pred_option (\<lambda>n. n \<le> u64_max) (se_poll_interval s)"

definition toml_ok :: "toml_args \<Rightarrow> bool" where
  "toml_ok a \<longleftrightarrow> settings_ok (toml_says a) \<and> pred_option (list_all (section_ok \<circ> snd)) (ta_upsd a)"

definition env_ok_args :: "env_args \<Rightarrow> bool" where
  "env_ok_args a \<longleftrightarrow> settings_ok (env_says a) \<and> pred_option (\<lambda>p. p \<le> u16_max) (ea_upsd_port a)
     \<and> pred_option (\<lambda>n. 1 \<le> n \<and> n \<le> u64_max) (ea_upsd_max_conn a)
     \<and> pred_option (\<lambda>n. n \<le> u64_max) (ea_upsd_poll_freq a) \<and> pred_option (\<lambda>n. n \<le> u64_max) (ea_upsd_poll_interval a)"

lemma settings_ok_over: "settings_ok s \<Longrightarrow> settings_ok t \<Longrightarrow> settings_ok (over s t)"
  by (auto simp: settings_ok_def over_def override_opt_def)

lemma section_config_ok: "section_ok s \<Longrightarrow> upsd_ok (section_config s)"
  by (auto simp: section_ok_def upsd_ok_def section_config_def upsd_default_def override_inner_def split: option.splits)

lemma env_upsd_ok: "env_ok_args a \<Longrightarrow> upsd_ok u \<Longrightarrow> upsd_ok (env_upsd a u)"
  by (auto simp: env_ok_args_def upsd_ok_def env_upsd_def override_inner_def split: option.splits)

lemma upsd_default_ok: "upsd_ok upsd_default"
  by (simp add: upsd_ok_def upsd_default_def)

lemma load_parsed_ok:
  assumes "load_parsed os parse key = Inr v" "\<And>s x. parse s = Inr x \<Longrightarrow> P x" shows "pred_option P v"
proof (cases v)
  case (Some x)
  then obtain y where "parse (trim y) = Inr x"
    using assms(1) by (auto simp: load_parsed_def bind_res_eq_Inr split: option.splits)
  then show ?thesis using Some assms(2) by simp
qed simp

lemma parse_num_range: "parse_num lo hi s = Inr n \<Longrightarrow> lo \<le> n \<and> n \<le> hi"
  by (auto simp: parse_num_def parse_unsigned_def Let_def split: option.splits if_splits)

lemma load_num_range: "load_parsed os (parse_num lo hi) key = Inr v \<Longrightarrow> pred_option (\<lambda>n. lo \<le> n \<and> n \<le> hi) v"
  by (erule load_parsed_ok) (rule parse_num_range)

lemma load_path_normal:
  "load_parsed os (\<lambda>s. map_err (\<lambda>_. InvalidUriPath) (uri_path_new s)) key = Inr v \<Longrightarrow> pred_option path_normal v"
  by (erule load_parsed_ok) (simp add: uri_path_new_normal)

lemma env_load_ok: "env_load parse_level os = Inr a \<Longrightarrow> env_ok_args a"
  unfolding env_load_def
  by (elim bind_resE, drule sym)
    (auto simp: env_ok_args_def settings_ok_def env_says_def dest!: load_num_range load_path_normal)

lemma settings_ok_default: "settings_ok (held (server_default key))" "settings_ok silent"
  by (simp_all add: settings_ok_def held_def server_default_def http_server_default_def uri_path_default_def path_normal_def silent_def)

lemma env_default_silent: "env_says env_args_default = silent" "env_ok_args env_args_default"
  by (simp_all add: env_ok_args_def settings_ok_def env_says_def env_args_default_def silent_def)

lemma toml_default_silent: "toml_says toml_args_default = silent" "toml_ok toml_args_default"
  by (simp_all add: toml_ok_def settings_ok_def toml_says_def toml_args_default_def silent_def)

lemma toml_load_args:
  assumes "toml_load parse os path = Inr toml"
  shows "\<exists>buffer root. parse buffer = Inr root \<and> tr_args root = Inr toml"
proof -
  obtain buffer root where r: "os_read os path = Inr buffer" "parse buffer = Inr root"
    using assms by (auto simp: toml_load_def bind_res_eq_Inr)
  then have "tr_args root = Inr toml"
    using assms by (cases "tr_version root"; cases "the (tr_version root)") (auto simp: toml_load_def split: if_splits)
  with r show ?thesis by blast
qed

lemma toml_daemons_ok: "toml_ok a \<Longrightarrow> u \<in> ran (toml_daemons a) \<Longrightarrow> upsd_ok u"
  by (fastforce simp: toml_ok_def toml_daemons_def ran_def list_all_iff dest!: map_of_SomeD intro!: section_config_ok split: option.splits)

lemma env_daemons_ok:
  assumes "env_ok_args a" "\<And>u. u \<in> ran t \<Longrightarrow> upsd_ok u" "u \<in> ran (env_daemons a t)"
  shows "upsd_ok u"
  using assms env_upsd_ok [OF assms(1)] upsd_default_ok
  by (auto simp: env_daemons_def ran_def split: option.splits if_splits)

lemma held_layers:
  "held (fallback_apply_layer (cli_apply_layer cli (env_apply_layer env (toml_apply_layer toml c))))
   = over (over (cli_says cli) (env_says env)) (over (toml_says toml) (held c))"
  using fallback.apply_silent cli_env.both.apply_says [of "(cli, env)"] by (simp add: toml.apply_says)

section \<open>Properties\<close>

text \<open>An example: a file with a log level, a port and one daemon, and a command line with a port.\<close>

definition demo_cli :: cli_args where
  "demo_cli = \<lparr>cl_listen = None, cl_port = Some 8080, cl_base_path = None, cl_log_level = None, cl_default_theme = None,
     cl_config_file = Some ''c.toml'', cl_allow_env = False, cl_server_key = None, cl_with_auth = None, cl_worker_count = None\<rparr>"

definition demo_os :: os where
  "demo_os = \<lparr>os_var = (\<lambda>_. Present ''x''), os_is_file = (\<lambda>_. False), os_read = (\<lambda>_. Inr [])\<rparr>"

definition demo_toml :: "string \<Rightarrow> string + toml_root" where
  "demo_toml _ = Inr \<lparr>tr_version = Some (TomlString ''1''), tr_args = Inr (toml_args_default\<lparr>ta_log_level := Some DEBUG,
     ta_http_server := Some \<lparr>hs_listen = None, hs_port = Some 80, hs_base_path = None, hs_worker_count = None\<rparr>,
     ta_upsd := Some [(''rack'', \<lparr>se_address = Some ''10.0.0.2'', se_password = None, se_poll_freq = None, se_poll_interval = None,
       se_port = None, se_username = None, se_max_connection = Some 2, se_tls_mode = Some Strict\<rparr>)]\<rparr>)\<rparr>"

lemmas demo_defs = demo_cli_def demo_os_def demo_toml_def toml_load_def toml_args_default_def

lemma demo_loads: "\<exists>c. load_configs (\<lambda>_. None) demo_toml demo_os [7] (Inr demo_cli) = Inr c"
  by (simp add: load_configs_def demo_defs)



text \<open>The daemons of a loaded configuration. The table holds one daemon per \<open>[upsd.name]\<close> section with
  the section's values over the defaults; the variables \<open>NUTWG__UPSD__*\<close> override the daemon they
  name, and make a new one only when an address is among them; when nothing is left, there is the
  default daemon, so the table is never empty.\<close>

theorem config_daemons:
  assumes "load_configs parse_level parse_toml os key (Inr cli) = Inr c"
  shows "\<exists>env toml. loaded parse_level parse_toml os cli env toml
    \<and> distinct (map fst (sv_upsd c)) \<and> sv_upsd c \<noteq> []
    \<and> map_of (sv_upsd c) =
        (let daemons = env_daemons env (toml_daemons toml) in
         if daemons = Map.empty then [DEFAULT_UPSD_KEY \<mapsto> upsd_default] else daemons)"
proof -
  obtain env toml where l: "loaded parse_level parse_toml os cli env toml"
    and c: "c = fallback_apply_layer (cli_apply_layer cli (env_apply_layer env (toml_apply_layer toml (server_default key))))"
    using assms by (rule load_configs_loaded)
  have e: "map_of (sv_upsd (env_apply_layer env (toml_apply_layer toml (server_default key)))) = env_daemons env (toml_daemons toml)"
    "distinct (map fst (sv_upsd (env_apply_layer env (toml_apply_layer toml (server_default key)))))"
    using env_daemons_applied toml_daemons_applied by simp_all
  have "distinct (map fst (sv_upsd c)) \<and> sv_upsd c \<noteq> [] \<and> map_of (sv_upsd c) =
        (let daemons = env_daemons env (toml_daemons toml) in
         if daemons = Map.empty then [DEFAULT_UPSD_KEY \<mapsto> upsd_default] else daemons)"
    unfolding c fallback_apply_layer_def using e(2) by (simp add: e(1) [symmetric] map_of_empty_iff Let_def)
  with l show ?thesis by blast
qed

theorem config_daemons_witness:
  "\<exists>c. load_configs (\<lambda>_. None) demo_toml demo_os [7] (Inr demo_cli) = Inr c
     \<and> map_option uc_addr (map_of (sv_upsd c) ''rack'') = Some ''10.0.0.2'' \<and> map_of (sv_upsd c) ''default'' = None"
proof -
  obtain c where c: "load_configs (\<lambda>_. None) demo_toml demo_os [7] (Inr demo_cli) = Inr c" using demo_loads by blast
  show ?thesis
    using config_daemons [OF c]
    by (intro exI [of _ c] conjI c) (auto simp: loaded_def demo_defs env_args_default_def env_daemons_def toml_daemons_def env_key_def
        DEFAULT_UPSD_KEY_def section_config_def override_inner_def Let_def fun_eq_iff split: if_splits)
qed

text \<open>C32: Loaded configurations are well-typed. Whatever the environment holds, a loaded configuration has
  ports of sixteen bits, at least one worker and one connection per daemon where they are set,
  and a normal base path; the values that \<open>clap\<close> and \<open>toml\<close> produce have the types of their fields.
  So every pool built from it has as many permits as the daemon's limit, at least one, the
  polling period as its timeout, and TLS exactly when the daemon's mode asks for it.\<close>

theorem config_types:
  assumes "load_configs parse_level parse_toml os key (Inr cli) = Inr c"
    and "settings_ok (cli_says cli)"
    and "\<And>buffer root args. parse_toml buffer = Inr root \<Longrightarrow> tr_args root = Inr args \<Longrightarrow> toml_ok args"
  shows "config_ok c
    \<and> (\<forall>name u b. map_of (sv_upsd c) name = Some u \<longrightarrow> create_pool platform_verifier server_name u = Inr b \<longrightarrow>
         1 \<le> ip_permits (build b) \<and> ip_permits (build b) = uc_max_conn u
         \<and> configured_timeout (pb_allocator b) = uc_poll_freq u \<and> ca_tls (pb_allocator b) = (uc_tls_mode u \<noteq> Disable))"
proof -
  obtain env toml where l: "loaded parse_level parse_toml os cli env toml"
    and c: "c = fallback_apply_layer (cli_apply_layer cli (env_apply_layer env (toml_apply_layer toml (server_default key))))"
    using assms(1) by (rule load_configs_loaded)
  have env: "env_ok_args env"
    using l env_load_ok env_default_silent by (auto simp: loaded_def split: if_splits)
  have toml: "toml_ok toml"
    using l assms(3) toml_load_args toml_default_silent unfolding loaded_def by (auto split: option.splits) metis
  have e: "map_of (sv_upsd (env_apply_layer env (toml_apply_layer toml (server_default key)))) = env_daemons env (toml_daemons toml)"
    "distinct (map fst (sv_upsd (env_apply_layer env (toml_apply_layer toml (server_default key)))))"
    using env_daemons_applied toml_daemons_applied by simp_all
  have "settings_ok (held c)"
    using assms(2) env toml settings_ok_default unfolding c held_layers env_ok_args_def toml_ok_def
    by (blast intro: settings_ok_over)
  moreover have "upsd_ok u" if "u \<in> ran (env_daemons env (toml_daemons toml))" for u
    using env toml_daemons_ok [OF toml] that by (rule env_daemons_ok)
  ultimately have ok: "config_ok c"
    using e upsd_default_ok unfolding config_ok_def c
    by (auto simp: fallback_apply_layer_def map_of_empty_iff)
  show ?thesis
  proof (intro conjI ok allI impI)
    fix name u b
    assume u: "map_of (sv_upsd c) name = Some u" and b: "create_pool platform_verifier server_name u = Inr b"
    have "u \<in> ran (map_of (sv_upsd c))" using u by (rule ranI)
    then have "upsd_ok u" using ok unfolding config_ok_def by blast
    then have "1 \<le> uc_max_conn u" by (simp add: upsd_ok_def)
    then show "1 \<le> ip_permits (build b)" "ip_permits (build b) = uc_max_conn u"
      "configured_timeout (pb_allocator b) = uc_poll_freq u" "ca_tls (pb_allocator b) = (uc_tls_mode u \<noteq> Disable)"
      using b by (auto simp: create_pool_def bind_res_eq_Inr build_def ip_new_def with_limit_def with_timeout_def with_tls_def
          builder_new_def configured_timeout_def Let_def split: tls_mode.splits option.splits)
  qed
qed

theorem config_types_witness:
  "\<exists>c. load_configs (\<lambda>_. None) demo_toml demo_os [7] (Inr demo_cli) = Inr c \<and> config_ok c"
proof -
  obtain c where c: "load_configs (\<lambda>_. None) demo_toml demo_os [7] (Inr demo_cli) = Inr c" using demo_loads by blast
  have "settings_ok (cli_says demo_cli)" by (simp add: settings_ok_def cli_says_def demo_cli_def)
  moreover have "toml_ok args" if "demo_toml buffer = Inr root" "tr_args root = Inr args" for buffer root args
    using that by (auto simp: demo_defs toml_ok_def settings_ok_def toml_says_def section_ok_def)
  ultimately show ?thesis using config_types [OF c] c by blast
qed

text \<open>Base paths. What \<open>UriPath::new\<close> accepts is brought into normal form: empty, or made of segments
  of allowed bytes, each after a single slash, with none at the end; and a normal path is left as
  it is, so printing a base path and reading it again changes nothing.\<close>

theorem uri_path_normal_form:
  "(\<forall>s p. uri_path_new s = Inr p \<longrightarrow> path_normal p \<and> uri_path_new p = Inr p)
   \<and> (\<forall>p. uri_path_new p = Inr p \<longleftrightarrow> path_normal p)"
  using uri_path_new_normal uri_path_new_id by blast

theorem uri_path_normal_form_witness:
  "uri_path_new ''nut/ups/ '' = Inr ''/nut/ups'' \<and> path_normal ''/nut/ups'' \<and> uri_path_new ''/nut/ups'' = Inr ''/nut/ups''"
proof -
  have "uri_path_new ''nut/ups/ '' = Inr ''/nut/ups''" by code_simp
  then show ?thesis using uri_path_normal_form by blast
qed

end
