(* ===== verification/Http_Api.thy ===== *)
theory Http_Api
  imports Http_Auth Config Daemon_State
begin

text \<open>
  The routes that act on devices: \<open>http/json_api/route\<close> with its middleware for the daemon's state,
  \<open>http/hypermedia/route/ups\<close> (the same actions on web pages), the probes of \<open>http/probe.rs\<close>, and how
  \<open>http.rs\<close> stacks the layers. A handler works on a \<open>server\<close>: the daemons with their device tables
  and connection pools, the world in which connections are opened, and a log of the connections
  that handlers took out of the pools, in their last state, so that what was written on them can
  be stated. Extractors have run: their rejections are arguments. Problem details keep their
  title and status; the explanatory text is left out.
\<close>

record upsd_state =
  up_config :: upsd_config
  up_state :: daemon_state
  up_pool :: "conn item_pool"

record 'w server =
  sr_servers :: "(string \<times> upsd_state) list"
  sr_world :: 'w
  sr_used :: "conn list"

type_synonym 'w connector = "upsd_config \<Rightarrow> 'w \<Rightarrow> (fault + conn) \<times> 'w"

section \<open>Problem details\<close>

record problem_detail =
  pd_title :: string
  pd_status :: nat

abbreviation problem :: "string \<Rightarrow> nat \<Rightarrow> problem_detail" where
  "problem title status \<equiv> \<lparr>pd_title = title, pd_status = status\<rparr>"

definition problem_response :: "problem_detail \<Rightarrow> response" where
  "problem_response p = plain (pd_status p) (pd_title p)"

fun problem_from_error :: "error_kind \<Rightarrow> problem_detail" where
  "problem_from_error EmptyResponse = problem ''UPSD empty response'' 500"
| "problem_from_error (IOError _) = problem ''UPSD IO error'' 500"
| "problem_from_error (ParseError _ _) = problem ''Invalid UPSD response'' 500"
| "problem_from_error (ProtocolError _) = problem ''UPSD protocol error'' 500"
| "problem_from_error ConnectionPoolClosed = problem ''UPSD connection pool error'' 500"
| "problem_from_error RequestTimeout = problem ''Request timeout'' 500"

text \<open>The rejections of axum's extractors, with the status they carry.\<close>

datatype path_rejection = FailedToDeserializePathParams nat | MissingPathParams nat | OtherPathRejection nat

fun problem_from_path :: "path_rejection \<Rightarrow> problem_detail" where
  "problem_from_path (FailedToDeserializePathParams status) = problem ''Unable to deserialize path parameter'' status"
| "problem_from_path (MissingPathParams status) = problem ''Missing path parameter'' status"
| "problem_from_path (OtherPathRejection status) = problem ''Invalid path'' status"

datatype json_rejection =
    JsonDataError nat
  | JsonSyntaxError nat
  | MissingJsonContentType nat
  | BytesRejection nat
  | OtherJsonRejection nat

fun problem_from_json :: "json_rejection \<Rightarrow> problem_detail" where
  "problem_from_json (JsonDataError status) = problem ''Json data error'' status"
| "problem_from_json (JsonSyntaxError status) = problem ''Json syntax error'' status"
| "problem_from_json (MissingJsonContentType status) = problem ''Missing content type'' status"
| "problem_from_json (BytesRejection status) = problem ''Bytes rejection'' status"
| "problem_from_json (OtherJsonRejection status) = problem ''Json content issue'' status"

section \<open>Connections of handlers\<close>

text \<open>\<open>upsd.connection_pool.get_client().await\<close>: \<open>None\<close> while it waits for a permit.\<close>

definition take_client ::
    "'w connector \<Rightarrow> string \<Rightarrow> upsd_state \<Rightarrow> 'w server \<Rightarrow> ((fault item_pool_error + conn) \<times> 'w server) option" where
  "take_client init ns upsd s =
     map_option (\<lambda>(r, w, p). (r, s\<lparr>sr_servers := AList.update ns (upsd\<lparr>up_pool := p\<rparr>) (sr_servers s), sr_world := w\<rparr>))
       (get_client (init (up_config upsd)) (sr_world s) (up_pool upsd))"

definition drop_client :: "conn \<Rightarrow> 'w server \<Rightarrow> 'w server" where
  "drop_client c s = s\<lparr>sr_used := sr_used s @ [c]\<rparr>"

text \<open>An operation on an authenticated client, and \<open>_ = client.close().await\<close> after it.\<close>

definition run_and_close :: "(conn \<Rightarrow> (fault + unit) \<times> conn) \<Rightarrow> conn \<Rightarrow> (fault + unit) \<times> conn" where
  "run_and_close op c =
     (case op c of
        (Inl Panic, c) \<Rightarrow> (Inl Panic, c)
      | (result, c) \<Rightarrow> (case auth_close c of (Inl Panic, c) \<Rightarrow> (Inl Panic, c) | (_, c) \<Rightarrow> (result, c)))"

section \<open>The JSON API\<close>

definition extract_upsd :: "'w server \<Rightarrow> string \<Rightarrow> problem_detail + upsd_state" where
  "extract_upsd s ns =
     (case map_of (sr_servers s) ns of
        Some upsd \<Rightarrow> Inr upsd
      | None \<Rightarrow> Inl (problem ''Upsd namespace does not exists'' 404))"

text \<open>\<open>request_auth_client!\<close>: a client, or the answer of the handler.\<close>

definition request_auth_client ::
    "'w connector \<Rightarrow> string \<Rightarrow> upsd_state \<Rightarrow> 'w server \<Rightarrow> (answer + conn) \<times> 'w server" where
  "request_auth_client init ns upsd s =
     (case (uc_pass (up_config upsd), uc_user (up_config upsd)) of
        (Some pass, Some user) \<Rightarrow>
          (case take_client init ns upsd s of
             None \<Rightarrow> (Inl Waiting, s)
           | Some (Inr client, s) \<Rightarrow>
               (case authenticate user pass client of
                  (Inr _, c) \<Rightarrow> (Inr c, s)
                | (Inl (Err _), c) \<Rightarrow> (Inl (Answer (problem_response (problem ''Unable to authenticate'' 500))), drop_client c s)
                | (Inl Panic, c) \<Rightarrow> (Inl Unwound, drop_client c s))
           | Some (Inl e, s) \<Rightarrow>
               (case error_from_pool e of
                  Panic \<Rightarrow> (Inl Unwound, s)
                | Err _ \<Rightarrow> (Inl (Answer (problem_response (problem ''Unable to get UPSD client'' 500))), s)))
      | _ \<Rightarrow> (Inl (Answer (problem_response (problem ''Insufficient UPSD configuration'' 403))), s))"

text \<open>The end of the three write handlers: the operation on an authenticated client, closed after
  it, and 202 when the daemon has accepted.\<close>

definition json_operation ::
    "'w connector \<Rightarrow> string \<Rightarrow> upsd_state \<Rightarrow> (conn \<Rightarrow> (fault + unit) \<times> conn) \<Rightarrow> 'w server \<Rightarrow> answer \<times> 'w server" where
  "json_operation init ns upsd op s =
     (case request_auth_client init ns upsd s of
        (Inl a, s) \<Rightarrow> (a, s)
      | (Inr client, s) \<Rightarrow>
          (case run_and_close op client of (result, c) \<Rightarrow>
             (case result of
                Inr _ \<Rightarrow> Answer (plain 202 [])
              | Inl (Err e) \<Rightarrow> Answer (problem_response (problem_from_error e))
              | Inl Panic \<Rightarrow> Unwound, drop_client c s)))"

definition check_rw_value :: "var_detail option \<Rightarrow> nut_value \<Rightarrow> problem_detail + unit" where
  "check_rw_value detail v =
     (case detail of
        Some VD_Number \<Rightarrow> if is_numeric v then Inr () else Inl (problem ''Invalid value type'' 400)
      | Some (VD_String max_len) \<Rightarrow>
          if is_text v then
            (let trimmed = trim (cow_str (as_str v)) in
             if trimmed = [] then Inl (problem ''Empty value'' 400)
             else if length trimmed > max_len then Inl (problem ''Out of range'' 400)
             else Inr ())
          else Inl (problem ''Invalid value type'' 400)
      | Some (VD_Enum options) \<Rightarrow>
          if list_ex (\<lambda>option. value_eq option v) options then Inr () else Inl (problem ''Invalid option'' 400)
      | Some (VD_Range lo hi) \<Rightarrow>
          if is_numeric v then
            (case (as_lossly_f64 lo, as_lossly_f64 hi) of
               (Some lo, Some hi) \<Rightarrow>
                 (let valuef64 = (case as_lossly_f64 v of Some x \<Rightarrow> x | None \<Rightarrow> f64_of_int 0) in
                  if f64_le lo valuef64 \<and> f64_le valuef64 hi then Inr () else Inl (problem ''Out of range'' 400))
             | _ \<Rightarrow> Inl (problem ''Malformed driver response'' 500))
          else Inl (problem ''Invalid value type'' 400)
      | None \<Rightarrow> Inl (problem ''Invalid RW variable'' 400))"

definition json_rw_patch ::
    "'w connector \<Rightarrow> path_rejection + string \<times> ups_name \<Rightarrow> json_rejection + var_name \<times> nut_value \<Rightarrow> 'w server handler" where
  "json_rw_patch init paths body req s =
     (case paths of
        Inl rejection \<Rightarrow> respond (problem_response (problem_from_path rejection)) s
      | Inr (namespace, ups_name) \<Rightarrow>
          (case body of
             Inl rejection \<Rightarrow> respond (problem_response (problem_from_json rejection)) s
           | Inr (variable, v) \<Rightarrow>
               (case extract_upsd s namespace of
                  Inl p \<Rightarrow> respond (problem_response p) s
                | Inr upsd \<Rightarrow>
                    (case (case map_of (ds_devices (up_state upsd)) ups_name of
                             Some device \<Rightarrow> check_rw_value (de_rw_variables device variable) v
                           | None \<Rightarrow> Inl (problem ''Device not found'' 404)) of
                       Inl p \<Rightarrow> respond (problem_response p) s
                     | Inr _ \<Rightarrow> json_operation init namespace upsd (set_var ups_name variable v) s))))"

definition json_instcmd_post ::
    "'w connector \<Rightarrow> path_rejection + string \<times> ups_name \<Rightarrow> json_rejection + cmd_name \<Rightarrow> 'w server handler" where
  "json_instcmd_post init paths body req s =
     (case paths of
        Inl rejection \<Rightarrow> respond (problem_response (problem_from_path rejection)) s
      | Inr (namespace, ups_name) \<Rightarrow>
          (case body of
             Inl rejection \<Rightarrow> respond (problem_response (problem_from_json rejection)) s
           | Inr cmd \<Rightarrow>
               (case extract_upsd s namespace of
                  Inl p \<Rightarrow> respond (problem_response p) s
                | Inr upsd \<Rightarrow>
                    (case (case map_of (ds_devices (up_state upsd)) ups_name of
                             Some device \<Rightarrow>
                               if cmd \<in> set (de_commands device) then Inr () else Inl (problem ''Invalid INSTCMD'' 400)
                           | None \<Rightarrow> Inl (problem ''Device not found'' 404)) of
                       Inl p \<Rightarrow> respond (problem_response p) s
                     | Inr _ \<Rightarrow> json_operation init namespace upsd (instcmd ups_name cmd) s))))"

definition json_fsd_post :: "'w connector \<Rightarrow> path_rejection + string \<times> ups_name \<Rightarrow> 'w server handler" where
  "json_fsd_post init paths req s =
     (case paths of
        Inl rejection \<Rightarrow> respond (problem_response (problem_from_path rejection)) s
      | Inr (namespace, ups_name) \<Rightarrow>
          (case extract_upsd s namespace of
             Inl p \<Rightarrow> respond (problem_response p) s
           | Inr upsd \<Rightarrow>
               (case (if map_of (ds_devices (up_state upsd)) ups_name \<noteq> None then Inr ()
                      else Inl (problem ''Device not found'' 404)) of
                  Inl p \<Rightarrow> respond (problem_response p) s
                | Inr _ \<Rightarrow> json_operation init namespace upsd (fsd ups_name) s)))"

text \<open>\<open>DaemonStateService::call\<close>; \<open>params\<close> is the namespace among the path parameters, if there are any,
  or the status of the rejection.\<close>

definition daemon_state_call :: "nat + string option \<Rightarrow> 'w server handler \<Rightarrow> 'w server handler" where
  "daemon_state_call params inner req s =
     (case (case params of
              Inr (Some namespace) \<Rightarrow>
                (case map_of (sr_servers s) namespace of
                   Some upsd \<Rightarrow>
                     (case ds_status (up_state upsd) of
                        Online \<Rightarrow> Inr ()
                      | Dead \<Rightarrow> Inl (problem ''No UPSD connection'' 503)
                      | NotReady \<Rightarrow> Inl (problem ''Upsd state is not ready'' 503))
                 | None \<Rightarrow> Inr ())
            | Inr None \<Rightarrow> Inr ()
            | Inl status \<Rightarrow> Inl (problem ''Unexpected path rejection'' status)) of
        Inr _ \<Rightarrow> inner req s
      | Inl p \<Rightarrow> respond (problem_response p) s)"

text \<open>The layers of \<open>create_data_routes\<close> around a write route; without a user store there is no
  authentication. CORS and the check of the accept header come before them.\<close>

definition option_layer :: "bool \<Rightarrow> ('h \<Rightarrow> 'h) \<Rightarrow> 'h \<Rightarrow> 'h" where
  "option_layer present layer = (if present then layer else id)"

definition data_layers ::
    "http_env \<Rightarrow> user_store option \<Rightarrow> nat + string option \<Rightarrow> permissions \<Rightarrow> 'w server handler \<Rightarrow> 'w server handler" where
  "data_layers env store params perms handler =
     option_layer (store \<noteq> None) (api_auth_call env)
       (daemon_state_call params (option_layer (store \<noteq> None) (authorize_api_call perms) handler))"

definition in_namespace :: "string \<Rightarrow> path_rejection + ups_name \<Rightarrow> path_rejection + string \<times> ups_name" where
  "in_namespace namespace ups = (case ups of Inl rejection \<Rightarrow> Inl rejection | Inr ups_name \<Rightarrow> Inr (namespace, ups_name))"

definition rw_route ::
    "http_env \<Rightarrow> user_store option \<Rightarrow> 'w connector \<Rightarrow> string \<Rightarrow> path_rejection + ups_name
       \<Rightarrow> json_rejection + var_name \<times> nut_value \<Rightarrow> 'w server handler" where
  "rw_route env store init namespace ups body =
     data_layers env store (Inr (Some namespace)) P_SETVAR (json_rw_patch init (in_namespace namespace ups) body)"

definition instcmd_route ::
    "http_env \<Rightarrow> user_store option \<Rightarrow> 'w connector \<Rightarrow> string \<Rightarrow> path_rejection + ups_name
       \<Rightarrow> json_rejection + cmd_name \<Rightarrow> 'w server handler" where
  "instcmd_route env store init namespace ups body =
     data_layers env store (Inr (Some namespace)) P_INSTCMD (json_instcmd_post init (in_namespace namespace ups) body)"

definition fsd_route ::
    "http_env \<Rightarrow> user_store option \<Rightarrow> 'w connector \<Rightarrow> string \<Rightarrow> path_rejection + ups_name \<Rightarrow> 'w server handler" where
  "fsd_route env store init namespace ups =
     data_layers env store (Inr (Some namespace)) P_FSD
       (validate_empty_content_length (json_fsd_post init (in_namespace namespace ups)))"

section \<open>The web pages\<close>

definition redirect_not_found :: "string \<Rightarrow> response" where
  "redirect_not_found base_path = insert_header ''location'' (base_path @ ''/not-found'') (plain 308 [])"

definition htmx_swap_none :: "response \<Rightarrow> response" where
  "htmx_swap_none = insert_header ''HX-Reswap'' ''none''"

abbreviation error_page :: response where
  "error_page \<equiv> plain 500 ''error.html''"

datatype validation_result = Valid nut_value | Invalid nut_value string

definition validate_request :: "string \<Rightarrow> var_detail \<Rightarrow> validation_result" where
  "validate_request request_value detail =
     (case detail of
        VD_String max_len \<Rightarrow>
          if trim request_value = [] then Invalid (V_String request_value) ''input is empty''
          else if length request_value > max_len then Invalid (V_String request_value) ''input is too long''
          else Valid (V_String request_value)
      | VD_Number \<Rightarrow>
          (case infer_number_from request_value of
             Inr v \<Rightarrow> Valid v
           | Inl _ \<Rightarrow> Invalid (V_String request_value) ''input is not a number'')
      | VD_Enum options \<Rightarrow>
          (let v = V_String request_value in
           if list_ex (\<lambda>option. value_eq option v) options then Valid v else Invalid v ''invalid option'')
      | VD_Range lo hi \<Rightarrow>
          (case infer_number_from request_value of
             Inr v \<Rightarrow>
               (case (as_lossly_f64 lo, as_lossly_f64 hi) of
                  (Some lo, Some hi) \<Rightarrow>
                    (let valuef64 = (case as_lossly_f64 v of Some x \<Rightarrow> x | None \<Rightarrow> f64_of_int 0) in
                     if f64_le lo valuef64 \<and> f64_le valuef64 hi then Valid v
                     else Invalid (V_String request_value) ''value is not in range'')
                | _ \<Rightarrow> Invalid (V_String request_value) ''driver reported min-max values are not numeric values'')
           | Inl _ \<Rightarrow> Invalid (V_String request_value) ''input is not a number''))"

text \<open>The part the three pages share: an authenticated client, the operation on it, and the result;
  without credentials the answer is \<open>read_only\<close>. \<open>shown\<close> makes the page of the result.\<close>

definition web_operation ::
    "'w connector \<Rightarrow> string \<Rightarrow> upsd_state \<Rightarrow> response \<Rightarrow> (fault + unit \<Rightarrow> response) \<Rightarrow> (error_kind \<Rightarrow> response)
       \<Rightarrow> (conn \<Rightarrow> (fault + unit) \<times> conn) \<Rightarrow> 'w server \<Rightarrow> answer \<times> 'w server" where
  "web_operation init ns upsd read_only shown login_failed op s =
     (case (uc_pass (up_config upsd), uc_user (up_config upsd)) of
        (Some pass, Some user) \<Rightarrow>
          (case take_client init ns upsd s of
             None \<Rightarrow> (Waiting, s)
           | Some (Inl e, s) \<Rightarrow> (if error_from_pool e = Panic then Unwound else Answer error_page, s)
           | Some (Inr client, s) \<Rightarrow>
               (case authenticate user pass client of
                  (Inr _, client) \<Rightarrow>
                    (case run_and_close op client of (result, c) \<Rightarrow>
                       (if result = Inl Panic then Unwound else Answer (shown result), drop_client c s))
                | (Inl (Err e), c) \<Rightarrow> (Answer (login_failed e), drop_client c s)
                | (Inl Panic, c) \<Rightarrow> (Unwound, drop_client c s)))
      | _ \<Rightarrow> (Answer read_only, s))"

definition READ_ONLY :: string where
  "READ_ONLY = ''No username or password configured for UPS daemon. Server is in read-only mode.''"

fun fault_text :: "fault + unit \<Rightarrow> string \<Rightarrow> string \<Rightarrow> string" where
  "fault_text (Inr _) success failure = success"
| "fault_text (Inl (Err e)) success failure = failure @ error_fmt e"
| "fault_text (Inl Panic) success failure = []"

definition web_rw_patch ::
    "'w connector \<Rightarrow> string \<Rightarrow> string \<Rightarrow> ups_name \<Rightarrow> var_name \<Rightarrow> string \<Rightarrow> 'w server handler" where
  "web_rw_patch init base_path namespace ups_name name request_value req s =
     (case map_of (sr_servers s) namespace of
        None \<Rightarrow> respond (redirect_not_found base_path) s
      | Some upsd \<Rightarrow>
          (case map_of (ds_devices (up_state upsd)) ups_name of
             None \<Rightarrow> respond (redirect_not_found base_path) s
           | Some device \<Rightarrow>
               (case de_rw_variables device name of
                  None \<Rightarrow> respond (htmx_swap_none (plain 200 (''device driver does not support write on '' @ var_as_str name))) s
                | Some detail \<Rightarrow>
                    (case validate_request request_value detail of
                       Invalid _ message \<Rightarrow> respond (plain 200 message) s
                     | Valid v \<Rightarrow>
                         web_operation init namespace upsd (htmx_swap_none (plain 200 READ_ONLY))
                           (\<lambda>result. plain 200 (fault_text result ''Set var request is accepted'' ''Set var request failed, ''))
                           (\<lambda>e. htmx_swap_none (plain 200 (''client authentication failed, '' @ error_fmt e)))
                           (set_var ups_name name v) s))))"

definition web_instcmd_post ::
    "'w connector \<Rightarrow> string \<Rightarrow> string \<Rightarrow> ups_name \<Rightarrow> cmd_name \<Rightarrow> 'w server handler" where
  "web_instcmd_post init base_path namespace ups_name cmd req s =
     (case map_of (sr_servers s) namespace of
        None \<Rightarrow> respond (redirect_not_found base_path) s
      | Some upsd \<Rightarrow>
          if map_of (ds_devices (up_state upsd)) ups_name = None then respond (redirect_not_found base_path) s
          else web_operation init namespace upsd (plain 200 READ_ONLY)
            (\<lambda>result. plain 200 (fault_text result
               (CHR 0x27 # cmd_str cmd @ CHR 0x27 # '' successfully executed on '' @ ups_str ups_name @ ''.'')
               ''INSTCMD call failed, ''))
            (\<lambda>e. plain 200 (''INSTCMD call failed, '' @ error_fmt e))
            (instcmd ups_name cmd) s)"

definition web_fsd_post ::
    "'w connector \<Rightarrow> string \<Rightarrow> string \<Rightarrow> ups_name \<Rightarrow> 'w server handler" where
  "web_fsd_post init base_path namespace ups_name req s =
     (case map_of (sr_servers s) namespace of
        None \<Rightarrow> respond (redirect_not_found base_path) s
      | Some upsd \<Rightarrow>
          if map_of (ds_devices (up_state upsd)) ups_name = None then respond (redirect_not_found base_path) s
          else web_operation init namespace upsd (plain 200 READ_ONLY)
            (\<lambda>result. plain 200 (fault_text result (''FSD flag set on '' @ ups_str ups_name @ ''.'') ''FSD failed, ''))
            (\<lambda>e. plain 200 (''FSD failed, '' @ error_fmt e))
            (fsd ups_name) s)"

text \<open>The layers of \<open>create_hypermedia_routes\<close> around a write route.\<close>

definition AUTH_COOKIE_RENEW :: "64 word" where
  "AUTH_COOKIE_RENEW = 3600 * 24 * 7"

definition web_layers ::
    "http_env \<Rightarrow> string \<Rightarrow> user_store option \<Rightarrow> permissions \<Rightarrow> 'w server handler \<Rightarrow> 'w server handler" where
  "web_layers env base_path store perms handler =
     htmx_redirect_call
       (case store of
          Some st \<Rightarrow>
            user_auth_call env st (base_path @ ''/login'')
              (renew_session_call env st AUTH_COOKIE_RENEW (authorize_user_call perms handler))
        | None \<Rightarrow> handler)"

text \<open>\<open>normalize_id\<close>: an identifier for the browser.\<close>

definition is_id_byte :: "char \<Rightarrow> bool" where
  "is_id_byte c \<longleftrightarrow> is_ascii_alphabetic c \<or> is_ascii_digit c \<or> c = CHR ''_'' \<or> c = CHR ''-'' \<or> c = CHR ''.''"

text \<open>\<open>replace\<close> works on characters: one underscore for all the bytes of a character.\<close>

fun replace_chars :: "string \<Rightarrow> string" where
  "replace_chars [] = []"
| "replace_chars (c # s) =
     (if is_id_byte c then c # replace_chars s
      else if is_cont c then replace_chars s
      else CHR ''_'' # replace_chars s)"

definition normalize_id :: "string \<Rightarrow> string" where
  "normalize_id input =
     (let input = (case input of c # _ \<Rightarrow> if is_ascii_digit c then CHR ''_'' # input else input | [] \<Rightarrow> input) in
      if list_ex (\<lambda>ch. \<not> is_id_byte ch) input then replace_chars input else input)"

section \<open>Probes\<close>

datatype health_status = Degraded | HealthOk | HealthDead

datatype readiness = ProbeReady | ProbeNotReady

fun health_response :: "health_status \<Rightarrow> response" where
  "health_response Degraded = plain 200 ''DEGRADED''"
| "health_response HealthOk = plain 200 ''OK''"
| "health_response HealthDead = plain 500 ''DEAD''"

fun readiness_response :: "readiness \<Rightarrow> response" where
  "readiness_response ProbeReady = plain 200 ''READY''"
| "readiness_response ProbeNotReady = plain 503 ''NOT-READY''"

fun count_active :: "(string \<times> upsd_state) list \<Rightarrow> nat \<Rightarrow> nat" where
  "count_active [] active_count = active_count"
| "count_active ((_, upsd) # servers) active_count =
     count_active servers (if ds_status (up_state upsd) \<noteq> Dead then active_count + 1 else active_count)"

definition get_health :: "'w server \<Rightarrow> health_status" where
  "get_health s =
     (let active_count = count_active (sr_servers s) 0 in
      if active_count = length (sr_servers s) then HealthOk
      else if active_count > 0 then Degraded
      else HealthDead)"

fun find_ready :: "(string \<times> upsd_state) list \<Rightarrow> readiness" where
  "find_ready [] = ProbeNotReady"
| "find_ready ((_, upsd) # servers) = (if ds_status (up_state upsd) = Online then ProbeReady else find_ready servers)"

definition get_readiness :: "'w server \<Rightarrow> readiness" where
  "get_readiness s = find_ready (sr_servers s)"

definition get_namespace_health :: "string \<Rightarrow> 'w server \<Rightarrow> response" where
  "get_namespace_health namespace s =
     (case map_of (sr_servers s) namespace of
        Some upsd \<Rightarrow> health_response (if ds_status (up_state upsd) \<noteq> Dead then HealthOk else HealthDead)
      | None \<Rightarrow> plain 404 ''UPSD NAMESPACE DOES NOT EXIST'')"

definition get_namespace_readiness :: "string \<Rightarrow> 'w server \<Rightarrow> response" where
  "get_namespace_readiness namespace s =
     (case map_of (sr_servers s) namespace of
        Some upsd \<Rightarrow> readiness_response (if ds_status (up_state upsd) = Online then ProbeReady else ProbeNotReady)
      | None \<Rightarrow> plain 404 ''UPSD NAMESPACE DOES NOT EXIST'')"

end
