(* ===== verification/Http_Api_Laws.thy ===== *)
theory Http_Api_Laws
  imports Http_Api
begin

text \<open>
  What the routes of \<open>Http_Api\<close> may do: which commands a handler writes, on which connection, and
  for whom. The locale \<open>auth_operation\<close> is what the handlers rely on of an authenticated client: each
  of its operations sends one command.
\<close>

section \<open>What is written on a connection\<close>

definition wrote :: "conn \<Rightarrow> command list \<Rightarrow> conn \<Rightarrow> bool" where
  "wrote c0 cmds c \<longleftrightarrow> list_all (\<lambda>cmd. serialize cmd \<noteq> None) cmds
     \<and> outbox c = outbox c0 @ concat (map (\<lambda>cmd. the (serialize cmd)) cmds)"

lemma wrote_Nil: "wrote c0 [] c \<longleftrightarrow> outbox c = outbox c0"
  by (simp add: wrote_def)

lemma wrote_trans: "wrote a xs b \<Longrightarrow> wrote b ys c \<Longrightarrow> wrote a (xs @ ys) c"
  by (simp add: wrote_def)

lemma send_ok_writable: "is_ok (fst (send d m c)) \<Longrightarrow> write_error c = None"
  by (cases m; cases "write_error c") (auto simp: send_def send_raw_def inner_send_raw_def)

lemma send_wrote:
  assumes "send d (serialize cmd) c = (r, c')"
  shows "write_error c' = write_error c \<and> (\<exists>k\<le>1. wrote c (take k [cmd]) c' \<and> (is_ok r \<or> write_error c = None \<and> serialize cmd \<noteq> None \<longrightarrow> k = 1))"
proof (cases "serialize cmd")
  case None
  then show ?thesis using assms by (auto simp: send_def wrote_def intro!: exI [of _ 0])
next
  case (Some x)
  have "outbox c' = (if write_error c = None then outbox c @ x else outbox c)" "write_error c' = write_error c"
    using send_outbox [of d x c] send_write_error [of d "Some x" c] assms Some by (simp_all del: send_write_error)
  then show ?thesis
    using send_ok_writable [of d "Some x" c] assms Some
    by (intro conjI exI [of _ "if write_error c = None then 1 else 0"]) (auto simp: wrote_def)
qed

lemma authenticate_wrote:
  assumes "authenticate user pass c0 = (r, c)"
  shows "\<exists>k\<le>2. wrote c0 (take k [Username user, Password pass]) c \<and> (is_ok r \<longrightarrow> k = 2 \<and> write_error c = None)"
proof -
  obtain r1 c1 where s1: "send deserialize_prot_ok (serialize (Username user)) c0 = (r1, c1)" by fastforce
  obtain k1 where k1: "k1 \<le> 1" "wrote c0 (take k1 [Username user]) c1" "is_ok r1 \<longrightarrow> k1 = 1"
    using send_wrote [OF s1] by blast
  show ?thesis
  proof (cases r1)
    case (Inl e)
    then have "c = c1" "r = Inl e" using assms s1 by (auto simp: authenticate_def)
    then show ?thesis using k1 by (intro exI [of _ k1]) (auto simp: le_Suc_eq)
  next
    case (Inr u)
    then have s2: "send deserialize_prot_ok (serialize (Password pass)) c1 = (r, c)"
      using assms s1 by (simp add: authenticate_def)
    obtain k2 where k2: "k2 \<le> 1" "wrote c1 (take k2 [Password pass]) c" "is_ok r \<longrightarrow> k2 = 1"
      using send_wrote [OF s2] by blast
    have "is_ok r \<longrightarrow> write_error c = None"
      using send_ok_writable [of deserialize_prot_ok "serialize (Password pass)" c1] send_wrote [OF s2] s2 by auto
    moreover have "wrote c0 (take (1 + k2) [Username user, Password pass]) c"
      using wrote_trans [OF k1(2) k2(2)] k1 Inr by simp
    ultimately show ?thesis using k2 by (intro exI [of _ "1 + k2"]) auto
  qed
qed

lemma auth_close_wrote:
  assumes "auth_close c = (r, c')" "write_error c = None"
  shows "wrote c [DetachCommand] c'"
proof -
  obtain r1 c1 where s1: "send deserialize_prot_ok_detach (serialize DetachCommand) c = (r1, c1)" by fastforce
  then have "wrote c [DetachCommand] c1"
    using send_wrote [OF s1] assms(2) by auto
  moreover have "outbox c' = outbox c1"
    using assms(1) s1 by (auto simp: auth_close_def nc_close_def split: sum.splits option.splits)
  ultimately show ?thesis by (simp add: wrote_def)
qed

text \<open>The operations of an authenticated client send one command.\<close>

locale auth_operation =
  fixes op :: "conn \<Rightarrow> (fault + unit) \<times> conn" and cmd :: command
  assumes op_sends: "\<exists>d. \<forall>c. op c = send d (serialize cmd) c"
begin

lemma run_wrote:
  assumes "run_and_close op c = (r, c')" "write_error c = None"
  shows "\<exists>k\<le>2. wrote c (take k [cmd, DetachCommand]) c' \<and> (is_ok r \<longrightarrow> k = 2)"
proof -
  obtain d where d: "op c = send d (serialize cmd) c" using op_sends by blast
  obtain r1 c1 where o: "op c = (r1, c1)" by fastforce
  obtain k1 where k1: "k1 \<le> 1" "wrote c (take k1 [cmd]) c1" "is_ok r1 \<or> serialize cmd \<noteq> None \<longrightarrow> k1 = 1"
    and e: "write_error c1 = None"
    using send_wrote [of d cmd c r1 c1] o d assms(2) by auto
  obtain r2 c2 where a: "auth_close c1 = (r2, c2)" by fastforce
  have "serialize cmd = None \<Longrightarrow> r1 = Inl Panic" using o d by (auto simp: send_def)
  show ?thesis
  proof (cases "r1 = Inl Panic")
    case True
    then show ?thesis using assms(1) o k1 by (intro exI [of _ k1]) (auto simp: run_and_close_def le_Suc_eq)
  next
    case False
    then have "k1 = 1" using k1 \<open>serialize cmd = None \<Longrightarrow> r1 = Inl Panic\<close> by blast
    moreover have "c' = c2"
      using assms(1) o a False by (auto simp: run_and_close_def split: sum.splits fault.splits)
    ultimately show ?thesis
      using wrote_trans [OF k1(2) auth_close_wrote [OF a e]] by (intro exI [of _ 2]) simp
  qed
qed

end

interpretation set_var_op: auth_operation "set_var ups var v" "SetVariable ups var v" for ups var v
  by unfold_locales (auto simp: set_var_def)

interpretation instcmd_op: auth_operation "instcmd ups cmd" "InstCmd ups cmd" for ups cmd
  by unfold_locales (auto simp: instcmd_def)

interpretation fsd_op: auth_operation "fsd ups" "FsdCommand ups" for ups
  by unfold_locales (auto simp: fsd_def)

section \<open>What a handler may do\<close>

lemma problem_response_accepted: "problem_response p = plain 202 [] \<longleftrightarrow> p = problem [] 202"
  by (cases p) (auto simp: problem_response_def plain_def)

lemma plain_406: "plain 406 [] \<noteq> plain 202 []"
  by (simp add: plain_def)

lemma error_not_accepted [simp]: "problem_response (problem_from_error e) \<noteq> plain 202 []"
  unfolding problem_response_accepted by (cases e) simp_all

definition session_commands :: "string \<Rightarrow> string \<Rightarrow> command \<Rightarrow> command list" where
  "session_commands user pass cmd = [Username user, Password pass, cmd, DetachCommand]"

text \<open>A handler that acts for \<open>cmd\<close> uses no connection, or exactly one, taken from the daemon's pool, on
  which it writes an initial part of the commands of a session, and all of them when it has been
  \<open>accepted\<close>.\<close>

definition acted ::
    "'w connector \<Rightarrow> string \<Rightarrow> upsd_state \<Rightarrow> command \<Rightarrow> bool \<Rightarrow> 'w server \<Rightarrow> 'w server \<Rightarrow> bool" where
  "acted init ns upsd cmd accepted s s' \<longleftrightarrow>
     (sr_used s' = sr_used s \<and> \<not> accepted)
     \<or> (\<exists>user pass c0 s1 c k. uc_user (up_config upsd) = Some user \<and> uc_pass (up_config upsd) = Some pass
          \<and> take_client init ns upsd s = Some (Inr c0, s1) \<and> sr_used s' = sr_used s @ [c]
          \<and> wrote c0 (take k (session_commands user pass cmd)) c \<and> (accepted \<longrightarrow> k = 4))"

lemma take_client_used: "take_client init ns upsd s = Some (r, s1) \<Longrightarrow> sr_used s1 = sr_used s"
  by (auto simp: take_client_def)

lemma acted_login:
  assumes "uc_user (up_config upsd) = Some user" "uc_pass (up_config upsd) = Some pass"
    "take_client init ns upsd s = Some (Inr c0, s1)" "authenticate user pass c0 = (r, c)"
  shows "acted init ns upsd cmd False s (drop_client c s1)"
proof -
  obtain k where "k \<le> 2" "wrote c0 (take k [Username user, Password pass]) c"
    using authenticate_wrote [OF assms(4)] by blast
  then have "wrote c0 (take k (session_commands user pass cmd)) c"
    by (simp add: session_commands_def take_Cons split: nat.split_asm nat.split)
  then show ?thesis
    using assms take_client_used [OF assms(3)] by (auto simp: acted_def drop_client_def)
qed

context auth_operation
begin

lemma acted_run:
  assumes "uc_user (up_config upsd) = Some user" "uc_pass (up_config upsd) = Some pass"
    "take_client init ns upsd s = Some (Inr c0, s1)" "authenticate user pass c0 = (Inr u, c1)"
    "run_and_close op c1 = (r, c)"
  shows "acted init ns upsd cmd (is_ok r) s (drop_client c s1)"
proof -
  have a: "wrote c0 [Username user, Password pass] c1" "write_error c1 = None"
    using authenticate_wrote [OF assms(4)] by auto
  obtain k where "k \<le> 2" "wrote c1 (take k [cmd, DetachCommand]) c" "is_ok r \<longrightarrow> k = 2"
    using run_wrote [OF assms(5) a(2)] by blast
  then have "wrote c0 (take (2 + k) (session_commands user pass cmd)) c" "is_ok r \<longrightarrow> 2 + k = 4"
    using wrote_trans [OF a(1)] by (auto simp: session_commands_def)
  then show ?thesis
    using assms take_client_used [OF assms(3)] unfolding acted_def drop_client_def by fastforce
qed

lemma json_operation_acted:
  assumes "json_operation init ns upsd op s = (a, s')"
  shows "acted init ns upsd cmd (a = Answer (plain 202 [])) s s'"
proof (cases "uc_user (up_config upsd) = None \<or> uc_pass (up_config upsd) = None")
  case True
  then show ?thesis
    using assms by (auto simp: json_operation_def request_auth_client_def acted_def problem_response_def plain_def split: option.splits)
next
  case False
  then obtain user pass where u: "uc_user (up_config upsd) = Some user" "uc_pass (up_config upsd) = Some pass" by auto
  consider (waits) "take_client init ns upsd s = None"
    | (failed) e s1 where "take_client init ns upsd s = Some (Inl e, s1)"
    | (got) c0 s1 where "take_client init ns upsd s = Some (Inr c0, s1)"
    by (metis old.sum.exhaust option.exhaust surj_pair)
  then show ?thesis
  proof cases
    case waits
    then show ?thesis using assms u by (auto simp: json_operation_def request_auth_client_def acted_def)
  next
    case failed
    then show ?thesis
      using assms u take_client_used [OF failed]
      by (auto simp: json_operation_def request_auth_client_def acted_def problem_response_def plain_def split: fault.splits)
  next
    case got
    obtain r1 c1 where l: "authenticate user pass c0 = (r1, c1)" by fastforce
    show ?thesis
    proof (cases r1)
      case (Inl e)
      then have "s' = drop_client c1 s1" "a \<noteq> Answer (plain 202 [])"
        using assms u got l by (auto simp: json_operation_def request_auth_client_def problem_response_def plain_def split: fault.splits)
      then show ?thesis using acted_login [OF u got l] by simp
    next
      case (Inr x)
      obtain r c where r: "run_and_close op c1 = (r, c)" by fastforce
      have "s' = drop_client c s1" "(a = Answer (plain 202 [])) = is_ok r"
        using assms u got l Inr r by (auto simp: json_operation_def request_auth_client_def split: sum.splits fault.splits)
      then show ?thesis using acted_run [OF u got l [unfolded Inr] r] by simp
    qed
  qed
qed

lemma web_operation_acted:
  assumes "web_operation init ns upsd read_only shown login_failed op s = (a, s')"
  shows "acted init ns upsd cmd False s s'"
proof (cases "uc_user (up_config upsd) = None \<or> uc_pass (up_config upsd) = None")
  case True
  then show ?thesis
    using assms by (auto simp: web_operation_def acted_def split: option.splits)
next
  case False
  then obtain user pass where u: "uc_user (up_config upsd) = Some user" "uc_pass (up_config upsd) = Some pass" by auto
  consider (waits) "take_client init ns upsd s = None"
    | (failed) e s1 where "take_client init ns upsd s = Some (Inl e, s1)"
    | (got) c0 s1 where "take_client init ns upsd s = Some (Inr c0, s1)"
    by (metis old.sum.exhaust option.exhaust surj_pair)
  then show ?thesis
  proof cases
    case waits
    then show ?thesis using assms u by (auto simp: web_operation_def acted_def)
  next
    case failed
    then show ?thesis using assms u take_client_used [OF failed] by (auto simp: web_operation_def acted_def)
  next
    case got
    obtain r1 c1 where l: "authenticate user pass c0 = (r1, c1)" by fastforce
    show ?thesis
    proof (cases r1)
      case (Inl e)
      then have "s' = drop_client c1 s1"
        using assms u got l by (auto simp: web_operation_def split: fault.splits)
      then show ?thesis using acted_login [OF u got l] by simp
    next
      case (Inr x)
      obtain r c where r: "run_and_close op c1 = (r, c)" by fastforce
      have "s' = drop_client c s1" using assms u got l Inr r by (simp add: web_operation_def)
      then show ?thesis using acted_run [OF u got l [unfolded Inr] r] by (auto simp: acted_def)
    qed
  qed
qed

end

section \<open>The layers\<close>

definition authorized :: "http_env \<Rightarrow> user_store option \<Rightarrow> permissions \<Rightarrow> request \<Rightarrow> bool" where
  "authorized env store perms req \<longleftrightarrow>
     store = None \<or> (\<exists>t. extract_bearer_token env (rq_authorization req) = Inr t \<and> has_permission t perms)"

text \<open>What a request meets before the handler of a write route: the daemon is online if it is known.\<close>

definition daemon_online :: "'w server \<Rightarrow> string \<Rightarrow> bool" where
  "daemon_online s ns \<longleftrightarrow> pred_option (\<lambda>upsd. ds_status (up_state upsd) = Online) (map_of (sr_servers s) ns)"

lemma daemon_state_passed:
  assumes "daemon_state_call (Inr (Some ns)) h req s = (a, s')"
  obtains (refused) "s' = s" "a \<noteq> Answer (plain 202 [])" | (passed) "daemon_online s ns" "h req s = (a, s')"
  using assms
  by (cases "map_of (sr_servers s) ns"; cases "ds_status (up_state (the (map_of (sr_servers s) ns)))")
    (auto simp: daemon_state_call_def daemon_online_def respond_def problem_response_def plain_def)

lemma data_layers_passed:
  assumes "data_layers env store (Inr (Some ns)) perms h req s = (a, s')"
  obtains (refused) "s' = s" "a \<noteq> Answer (plain 202 [])"
    | (passed) req' where "authorized env store perms req" "daemon_online s ns" "h req' s = (a, s')"
      "rq_content_length req' = rq_content_length req"
proof (cases store)
  case None
  then have "daemon_state_call (Inr (Some ns)) h req s = (a, s')"
    using assms by (simp add: data_layers_def option_layer_def)
  then show ?thesis
    by (cases rule: daemon_state_passed) (auto intro: that simp: None authorized_def)
next
  case (Some st)
  then have d: "api_auth_call env (daemon_state_call (Inr (Some ns)) (authorize_api_call perms h)) req s = (a, s')"
    using assms by (simp add: data_layers_def option_layer_def)
  show ?thesis
  proof (cases "extract_bearer_token env (rq_authorization req)")
    case (Inl e)
    then show ?thesis
      using d by (intro refused) (auto simp: api_auth_call_def respond_def unauthorized_def insert_header_def plain_def)
  next
    case (Inr t)
    then have "daemon_state_call (Inr (Some ns)) (authorize_api_call perms h) (req\<lparr>rq_token := Some t\<rparr>) s = (a, s')"
      using d by (simp add: api_auth_call_def)
    then show ?thesis
    proof (cases rule: daemon_state_passed)
      case refused
      then show ?thesis by (rule that)
    next
      case passed
      show ?thesis
      proof (cases "has_permission t perms")
        case True
        then show ?thesis
          using passed Inr by (intro that(2) [of "req\<lparr>rq_token := Some t\<rparr>"]) (auto simp: authorized_def authorize_api_call_def)
      next
        case False
        then show ?thesis
          using passed by (intro that(1)) (auto simp: authorize_api_call_def respond_def plain_def)
      qed
    qed
  qed
qed

text \<open>The values a variable accepts.\<close>

fun detail_allows :: "var_detail \<Rightarrow> nut_value \<Rightarrow> bool" where
  "detail_allows VD_Number v = is_numeric v"
| "detail_allows (VD_String n) v = (\<exists>t. v = V_String t \<and> trim t \<noteq> [] \<and> length (trim t) \<le> n)"
| "detail_allows (VD_Enum options) v = (\<exists>option\<in>set options. value_eq option v)"
| "detail_allows (VD_Range lo hi) v =
     (\<exists>a b x. as_lossly_f64 lo = Some a \<and> as_lossly_f64 hi = Some b \<and> as_lossly_f64 v = Some x \<and> f64_le a x \<and> f64_le x b)"

lemma is_numeric_f64: "is_numeric v \<Longrightarrow> \<exists>x. as_lossly_f64 v = Some x"
  by (cases v) simp_all

lemma check_rw_value_iff: "check_rw_value detail v = Inr () \<longleftrightarrow> (\<exists>d. detail = Some d \<and> detail_allows d v)"
proof (cases detail)
  case (Some d)
  show ?thesis
  proof (cases d)
    case (VD_Range lo hi)
    then show ?thesis
      using Some by (cases v; cases "as_lossly_f64 lo"; cases "as_lossly_f64 hi") (auto simp: check_rw_value_def Let_def split: if_splits)
  qed (use Some in \<open>cases v; auto simp: check_rw_value_def list_ex_iff Let_def\<close>)+
qed (simp add: check_rw_value_def)

lemma json_rw_patch_acted:
  assumes "json_rw_patch init (in_namespace ns ups) body req s = (a, s')"
  obtains (refused) "s' = s" "a \<noteq> Answer (plain 202 [])"
    | (acted) upsd ups_name var v device detail where "ups = Inr ups_name" "body = Inr (var, v)"
      "map_of (sr_servers s) ns = Some upsd" "map_of (ds_devices (up_state upsd)) ups_name = Some device"
      "de_rw_variables device var = Some detail" "detail_allows detail v"
      "acted init ns upsd (SetVariable ups_name var v) (a = Answer (plain 202 [])) s s'"
proof (cases "is_ok ups \<and> is_ok body")
  case False
  then show ?thesis
    using assms
    by (intro refused) (auto simp: json_rw_patch_def in_namespace_def respond_def problem_response_accepted is_ok_def
        split: sum.splits elim!: problem_from_path.elims problem_from_json.elims)
next
  case True
  then obtain ups_name var v where i: "ups = Inr ups_name" "body = Inr (var, v)" by (auto simp: is_ok_iff)
  show ?thesis
  proof (cases "\<exists>upsd device. map_of (sr_servers s) ns = Some upsd \<and> map_of (ds_devices (up_state upsd)) ups_name = Some device
      \<and> check_rw_value (de_rw_variables device var) v = Inr ()")
    case True
    then obtain upsd device where u: "map_of (sr_servers s) ns = Some upsd" "map_of (ds_devices (up_state upsd)) ups_name = Some device"
      "check_rw_value (de_rw_variables device var) v = Inr ()" by blast
    then have "json_operation init ns upsd (set_var ups_name var v) s = (a, s')"
      using assms i by (simp add: json_rw_patch_def in_namespace_def extract_upsd_def)
    from set_var_op.json_operation_acted [OF this] u i show ?thesis
      by (auto simp: check_rw_value_iff intro: that(2))
  next
    case False
    have "check_rw_value d v \<noteq> Inl (problem [] 202)" for d
      by (auto simp: check_rw_value_def Let_def split: option.splits var_detail.splits)
    then show ?thesis
      using assms i False
      by (intro refused) (auto simp: json_rw_patch_def in_namespace_def extract_upsd_def respond_def problem_response_accepted split: option.splits sum.splits)
  qed
qed

lemma json_instcmd_post_acted:
  assumes "json_instcmd_post init (in_namespace ns ups) body req s = (a, s')"
  obtains (refused) "s' = s" "a \<noteq> Answer (plain 202 [])"
    | (acted) upsd ups_name cmd device where "ups = Inr ups_name" "body = Inr cmd"
      "map_of (sr_servers s) ns = Some upsd" "map_of (ds_devices (up_state upsd)) ups_name = Some device"
      "cmd \<in> set (de_commands device)" "acted init ns upsd (InstCmd ups_name cmd) (a = Answer (plain 202 [])) s s'"
proof (cases "\<exists>ups_name cmd upsd device. ups = Inr ups_name \<and> body = Inr cmd \<and> map_of (sr_servers s) ns = Some upsd
    \<and> map_of (ds_devices (up_state upsd)) ups_name = Some device \<and> cmd \<in> set (de_commands device)")
  case True
  then obtain ups_name cmd upsd device where u: "ups = Inr ups_name" "body = Inr cmd" "map_of (sr_servers s) ns = Some upsd"
    "map_of (ds_devices (up_state upsd)) ups_name = Some device" "cmd \<in> set (de_commands device)" by blast
  then have "json_operation init ns upsd (instcmd ups_name cmd) s = (a, s')"
    using assms by (simp add: json_instcmd_post_def in_namespace_def extract_upsd_def)
  from instcmd_op.json_operation_acted [OF this] u show ?thesis by (auto intro: that(2))
next
  case False
  then show ?thesis
    using assms
    by (intro refused) (auto simp: json_instcmd_post_def in_namespace_def extract_upsd_def respond_def problem_response_accepted
        split: sum.splits option.splits if_splits elim!: problem_from_path.elims problem_from_json.elims)
qed

lemma json_fsd_post_acted:
  assumes "validate_empty_content_length (json_fsd_post init (in_namespace ns ups)) req s = (a, s')"
  obtains (refused) "s' = s" "a \<noteq> Answer (plain 202 [])"
    | (acted) upsd ups_name where "ups = Inr ups_name" "map_of (sr_servers s) ns = Some upsd"
      "map_of (ds_devices (up_state upsd)) ups_name \<noteq> None" "rq_content_length req \<in> {None, Some ''0''}"
      "acted init ns upsd (FsdCommand ups_name) (a = Answer (plain 202 [])) s s'"
proof (cases "\<exists>ups_name upsd. ups = Inr ups_name \<and> map_of (sr_servers s) ns = Some upsd
    \<and> map_of (ds_devices (up_state upsd)) ups_name \<noteq> None \<and> rq_content_length req \<in> {None, Some ''0''}")
  case True
  then obtain ups_name upsd where u: "ups = Inr ups_name" "map_of (sr_servers s) ns = Some upsd"
    "map_of (ds_devices (up_state upsd)) ups_name \<noteq> None" "rq_content_length req \<in> {None, Some ''0''}" by blast
  then have "json_operation init ns upsd (fsd ups_name) s = (a, s')"
    using assms by (auto simp: validate_empty_content_length_def json_fsd_post_def in_namespace_def extract_upsd_def)
  from fsd_op.json_operation_acted [OF this] u show ?thesis by (auto intro: that(2))
next
  case False
  then show ?thesis
    using assms
    by (intro refused) (auto simp: validate_empty_content_length_def json_fsd_post_def in_namespace_def extract_upsd_def respond_def
        problem_response_accepted plain_406 split: sum.splits option.splits if_splits elim!: problem_from_path.elims)
qed

section \<open>Web layers\<close>

lemma validate_request_allows: "validate_request input detail = Valid v \<Longrightarrow> detail_allows detail v"
  using length_trim [of input] infer_number_from_valid [of input] is_numeric_f64
  by (cases detail)
    (fastforce simp: validate_request_def list_ex_iff Let_def split: if_splits sum.splits option.splits)+

definition session_authorized :: "http_env \<Rightarrow> user_store option \<Rightarrow> permissions \<Rightarrow> request \<Rightarrow> bool" where
  "session_authorized env store perms req \<longleftrightarrow>
     store = None
     \<or> (\<exists>st session current. store = Some st \<and> extract_user_session env st (rq_cookie req) = Inr session
          \<and> (current = session \<or> renew_session (he_now env) (he_nonce env) st (us_username session) = Inr current)
          \<and> has_permission (us_access_token current) perms)"

lemma after_answer_state: "after_answer f h s = (a, s') \<Longrightarrow> \<exists>a'. h s = (a', s')"
  by (auto simp: after_answer_def split: prod.splits)

lemma authorize_user_passed:
  assumes "authorize_user_call perms h req s = (a, s')"
  obtains (refused) "s' = s"
    | (passed) session where "rq_session req = Some session" "has_permission (us_access_token session) perms" "h req s = (a, s')"
  using assms by (auto simp: authorize_user_call_def respond_def split: if_splits option.splits)

lemma renew_passed:
  assumes "renew_session_call env st d h (req\<lparr>rq_session := Some session\<rparr>) s = (a, s')"
  obtains current a' where "h (req\<lparr>rq_session := Some current\<rparr>) s = (a', s')"
    "current = session \<or> renew_session (he_now env) (he_nonce env) st (us_username session) = Inr current"
  using assms
  by (auto simp: renew_session_call_def split: if_splits sum.splits dest!: after_answer_state intro: that)

lemma web_layers_passed:
  assumes "web_layers env base store perms h req s = (a, s')"
  obtains (refused) "s' = s"
    | (passed) req' a' where "session_authorized env store perms req" "h req' s = (a', s')"
proof -
  obtain a1 where l: "(case store of
          Some st \<Rightarrow> user_auth_call env st (base @ ''/login'')
              (renew_session_call env st AUTH_COOKIE_RENEW (authorize_user_call perms h))
        | None \<Rightarrow> h) req s = (a1, s')"
    using assms by (auto simp: web_layers_def htmx_redirect_call_def split: if_splits dest!: after_answer_state)
  show ?thesis
  proof (cases store)
    case None
    then show ?thesis using l by (intro passed) (auto simp: session_authorized_def)
  next
    case (Some st)
    show ?thesis
    proof (cases "extract_user_session env st (rq_cookie req)")
      case (Inl e)
      then show ?thesis using l Some by (intro refused) (auto simp: user_auth_call_def respond_def split: if_splits)
    next
      case (Inr session)
      then have "renew_session_call env st AUTH_COOKIE_RENEW (authorize_user_call perms h) (req\<lparr>rq_session := Some session\<rparr>) s = (a1, s')"
        using l Some by (simp add: user_auth_call_def)
      then obtain current a2 where c: "authorize_user_call perms h (req\<lparr>rq_session := Some current\<rparr>) s = (a2, s')"
        "current = session \<or> renew_session (he_now env) (he_nonce env) st (us_username session) = Inr current"
        by (rule renew_passed)
      from c(1) show ?thesis
      proof (cases rule: authorize_user_passed)
        case refused
        then show ?thesis by (rule that)
      next
        case (passed x)
        then show ?thesis using Some Inr c(2) by (intro that(2)) (auto simp: session_authorized_def)
      qed
    qed
  qed
qed

section \<open>Properties\<close>

text \<open>An example: one daemon with one device, without authentication, and a peer that accepts everything.\<close>

definition demo_connect :: "unit connector" where
  "demo_connect _ w = (Inr (nc_new [''OK'' @ [LF], ''OK'' @ [LF], ''OK'' @ [LF], ''OK Goodbye'' @ [LF]] Idle), w)"

definition demo_device :: device_entry where
  "demo_device = \<lparr>de_attached = [], de_commands = [CmdName ''beeper.off''], de_desc = [], de_last_modified = 0, de_name = UpsName ''a'',
     de_rw_variables = [Custom ''x.y'' \<mapsto> VD_Number], de_status = 0, de_variables = Map.empty\<rparr>"

definition demo_server :: "unit server" where
  "demo_server = \<lparr>sr_servers = [(''rack'', \<lparr>up_config = upsd_default\<lparr>uc_user := Some ''u'', uc_pass := Some ''p''\<rparr>,
       up_state = daemon_state_new\<lparr>ds_status := Online, ds_devices := [(UpsName ''a'', demo_device)]\<rparr>, up_pool = ip_new 4\<rparr>)],
     sr_world = (), sr_used = []\<rparr>"

definition demo_request :: request where
  "demo_request = \<lparr>rq_authorization = None, rq_cookie = None, rq_hx_request = False, rq_content_length = None, rq_token = None, rq_session = None\<rparr>"

lemma acted_accepted: "acted init ns upsd cmd True s s' \<Longrightarrow> \<exists>c. sr_used s' = sr_used s @ [c]"
  by (auto simp: acted_def)


text \<open>C15: Setting a variable over the JSON API, end to end. The route refuses without any effect, and not
  with 202, or the request carries a token with the permission to set variables (where
  authentication is on), the daemon is online, the device has this writable variable and the
  variable's description allows the value. Then at most one connection is used, taken from that
  daemon's pool, and what is written on it is an initial part of: user name, password, this one
  set command, logout; a 202 says that all of it was written and accepted.\<close>

theorem rw_route_safe:
  assumes "rw_route env store init ns ups body req s = (a, s')"
  shows "(s' = s \<and> a \<noteq> Answer (plain 202 []))
    \<or> (\<exists>upsd ups_name var v device detail. ups = Inr ups_name \<and> body = Inr (var, v)
        \<and> authorized env store P_SETVAR req
        \<and> map_of (sr_servers s) ns = Some upsd \<and> ds_status (up_state upsd) = Online
        \<and> map_of (ds_devices (up_state upsd)) ups_name = Some device
        \<and> de_rw_variables device var = Some detail \<and> detail_allows detail v
        \<and> acted init ns upsd (SetVariable ups_name var v) (a = Answer (plain 202 [])) s s')"
  using assms unfolding rw_route_def
proof (cases rule: data_layers_passed)
  case (passed req')
  from passed(3) show ?thesis
  proof (cases rule: json_rw_patch_acted)
    case acted
    then show ?thesis using passed(1,2) by (auto simp: daemon_online_def)
  qed simp
qed simp

theorem rw_route_safe_witness:
  "\<exists>c. sr_used (snd (rw_route demo_env None demo_connect ''rack'' (Inr (UpsName ''a'')) (Inr (Custom ''x.y'', V_Int 5))
     demo_request demo_server)) = [c]"
proof -
  obtain a s' where r: "rw_route demo_env None demo_connect ''rack'' (Inr (UpsName ''a'')) (Inr (Custom ''x.y'', V_Int 5))
     demo_request demo_server = (a, s')" by fastforce
  have "fst (rw_route demo_env None demo_connect ''rack'' (Inr (UpsName ''a'')) (Inr (Custom ''x.y'', V_Int 5))
     demo_request demo_server) = Answer (plain 202 [])"
    by code_simp
  then have "a = Answer (plain 202 [])" using r by simp
  then show ?thesis
    using rw_route_safe [OF r] r by (auto dest!: acted_accepted simp: demo_server_def)
qed

text \<open>C16: Instant commands and forced shutdowns over the JSON API, end to end. A shutdown is written only
  for a request without a body that carries a token with the permission for it, and only to a
  device that the daemon, being online, has; an instant command only with its permission and if
  the device lists it. Everything else is refused without any effect.\<close>

theorem control_routes_safe:
  assumes "instcmd_route env store init ns ups body req s = (a, s') \<or> fsd_route env store init ns ups req s = (a, s')"
  shows "(s' = s \<and> a \<noteq> Answer (plain 202 []))
    \<or> (\<exists>upsd ups_name device. ups = Inr ups_name
        \<and> map_of (sr_servers s) ns = Some upsd \<and> ds_status (up_state upsd) = Online
        \<and> map_of (ds_devices (up_state upsd)) ups_name = Some device
        \<and> ((\<exists>cmd. body = Inr cmd \<and> authorized env store P_INSTCMD req \<and> cmd \<in> set (de_commands device)
              \<and> acted init ns upsd (InstCmd ups_name cmd) (a = Answer (plain 202 [])) s s')
           \<or> (authorized env store P_FSD req \<and> rq_content_length req \<in> {None, Some ''0''}
              \<and> acted init ns upsd (FsdCommand ups_name) (a = Answer (plain 202 [])) s s')))"
  using assms
proof
  assume "instcmd_route env store init ns ups body req s = (a, s')"
  then show ?thesis unfolding instcmd_route_def
  proof (cases rule: data_layers_passed)
    case (passed req')
    from passed(3) show ?thesis
    proof (cases rule: json_instcmd_post_acted)
      case acted
      then show ?thesis using passed(1,2) by (auto simp: daemon_online_def)
    qed simp
  qed simp
next
  assume "fsd_route env store init ns ups req s = (a, s')"
  then show ?thesis unfolding fsd_route_def
  proof (cases rule: data_layers_passed)
    case (passed req')
    from passed(3) show ?thesis
    proof (cases rule: json_fsd_post_acted)
      case acted
      then show ?thesis using passed(1,2,4) by (auto simp: daemon_online_def)
    qed simp
  qed simp
qed

theorem control_routes_safe_witness:
  "\<exists>c. sr_used (snd (instcmd_route demo_env None demo_connect ''rack'' (Inr (UpsName ''a'')) (Inr (CmdName ''beeper.off''))
     demo_request demo_server)) = [c]"
proof -
  obtain a s' where r: "instcmd_route demo_env None demo_connect ''rack'' (Inr (UpsName ''a'')) (Inr (CmdName ''beeper.off''))
     demo_request demo_server = (a, s')" by fastforce
  have "fst (instcmd_route demo_env None demo_connect ''rack'' (Inr (UpsName ''a'')) (Inr (CmdName ''beeper.off''))
     demo_request demo_server) = Answer (plain 202 [])"
    by code_simp
  then have "a = Answer (plain 202 [])" using r by simp
  then show ?thesis
    using control_routes_safe [OF disjI1 [OF r]] r by (auto dest!: acted_accepted simp: demo_server_def)
qed

text \<open>C19: Setting variables, instant commands and shutdowns from the web pages. The pages act only for a
  session with the route's permission (where authentication is on), on a device of the named
  daemon, and a variable is set only to a value that its description allows; at most one
  connection is used, and what is written on it is an initial part of the commands of one
  session. Otherwise the server's state stays as it is.\<close>

theorem web_actions_safe:
  assumes "web_layers env base store P_SETVAR (web_rw_patch init base ns ups var input) req s = (a, s')
    \<or> web_layers env base store P_INSTCMD (web_instcmd_post init base ns ups cmd) req s = (a, s')
    \<or> web_layers env base store P_FSD (web_fsd_post init base ns ups) req s = (a, s')"
  shows "s' = s \<or> (\<exists>upsd device. map_of (sr_servers s) ns = Some upsd \<and> map_of (ds_devices (up_state upsd)) ups = Some device
      \<and> ((\<exists>detail v. session_authorized env store P_SETVAR req \<and> de_rw_variables device var = Some detail
            \<and> detail_allows detail v \<and> acted init ns upsd (SetVariable ups var v) False s s')
         \<or> session_authorized env store P_INSTCMD req \<and> acted init ns upsd (InstCmd ups cmd) False s s'
         \<or> session_authorized env store P_FSD req \<and> acted init ns upsd (FsdCommand ups) False s s'))"
  using assms
proof (elim disjE)
  assume "web_layers env base store P_SETVAR (web_rw_patch init base ns ups var input) req s = (a, s')"
  then show ?thesis
  proof (cases rule: web_layers_passed)
    case (passed req' a')
    then show ?thesis
      using set_var_op.web_operation_acted validate_request_allows
      by (fastforce simp: web_rw_patch_def respond_def split: option.splits validation_result.splits)
  qed simp
next
  assume "web_layers env base store P_INSTCMD (web_instcmd_post init base ns ups cmd) req s = (a, s')"
  then show ?thesis
  proof (cases rule: web_layers_passed)
    case (passed req' a')
    then show ?thesis
      using instcmd_op.web_operation_acted
      by (fastforce simp: web_instcmd_post_def respond_def split: option.splits if_splits)
  qed simp
next
  assume "web_layers env base store P_FSD (web_fsd_post init base ns ups) req s = (a, s')"
  then show ?thesis
  proof (cases rule: web_layers_passed)
    case (passed req' a')
    then show ?thesis
      using fsd_op.web_operation_acted
      by (fastforce simp: web_fsd_post_def respond_def split: option.splits if_splits)
  qed simp
qed

theorem web_actions_safe_witness:
  "let s' = snd (web_layers demo_env [] None P_SETVAR (web_rw_patch demo_connect [] ''rack'' (UpsName ''a'') (Custom ''x.y'') ''5'')
     demo_request demo_server)
   in sr_used s' = [] \<or> (\<exists>c. sr_used s' = [c])"
proof -
  obtain a s' where r: "web_layers demo_env [] None P_SETVAR (web_rw_patch demo_connect [] ''rack'' (UpsName ''a'') (Custom ''x.y'') ''5'')
     demo_request demo_server = (a, s')" by fastforce
  show ?thesis
    using web_actions_safe [OF disjI1 [OF r], of "CmdName []"] r by (auto simp: acted_def demo_server_def)
qed

text \<open>The probes. The health probe says OK iff no daemon is dead, DEAD iff there are daemons and all
  are dead, and DEGRADED otherwise; the readiness probe says READY iff a daemon is online.\<close>

theorem probes_exact:
  "get_health s =
     (if list_all (\<lambda>(ns, upsd). ds_status (up_state upsd) \<noteq> Dead) (sr_servers s) then HealthOk
      else if list_all (\<lambda>(ns, upsd). ds_status (up_state upsd) = Dead) (sr_servers s) then HealthDead else Degraded)
   \<and> (get_readiness s = ProbeReady \<longleftrightarrow> list_ex (\<lambda>(ns, upsd). ds_status (up_state upsd) = Online) (sr_servers s))"
proof -
  have count: "count_active l n = n + length (filter (\<lambda>(ns, upsd). ds_status (up_state upsd) \<noteq> Dead) l)" for l n
    by (induction l n rule: count_active.induct) auto
  have ready: "find_ready l = ProbeReady \<longleftrightarrow> list_ex (\<lambda>(ns, upsd). ds_status (up_state upsd) = Online) l" for l
    by (induction l rule: find_ready.induct) auto
  have all: "length (filter P l) = length l \<longleftrightarrow> list_all P l" for P :: "string \<times> upsd_state \<Rightarrow> bool" and l
    by (metis filter_True length_filter_less less_irrefl list_all_iff)
  show ?thesis
    by (auto simp: get_health_def get_readiness_def ready count all Let_def filter_empty_conv list_all_iff)
qed

text \<open>C34: Values typed into the web form. What the form accepts for a variable is a value that the variable's
  description allows, so the JSON API would accept it too. Of the options of an enumeration,
  which are read from the daemon with their kind inferred, the form accepts exactly those that
  are not inferred as numbers: an option such as \<open>3\<close> can be chosen on no page, because the text is
  compared as a text.\<close>

theorem web_validation:
  "(\<forall>input detail v. validate_request input detail = Valid v \<longrightarrow> check_rw_value (Some detail) v = Inr ())
   \<and> (\<forall>input options v. validate_request input (VD_Enum (map infer_from options)) = Valid v \<longleftrightarrow>
        v = V_String input \<and> input \<in> set options \<and> infer_from input = V_String input)"
proof (intro conjI allI impI)
  show "validate_request input detail = Valid v \<Longrightarrow> check_rw_value (Some detail) v = Inr ()" for input detail v
    using validate_request_allows by (simp add: check_rw_value_iff)
next
  fix input options v
  have "infer_from x = V_String y \<Longrightarrow> x = y" for x y
    by (auto simp: infer_from_def split: inferred_type.splits option.splits)
  then have "value_eq (infer_from x) (V_String input) \<longleftrightarrow> x = input \<and> infer_from input = V_String input" for x
    by (cases "infer_from x") auto
  then show "validate_request input (VD_Enum (map infer_from options)) = Valid v \<longleftrightarrow>
      v = V_String input \<and> input \<in> set options \<and> infer_from input = V_String input"
    by (auto simp: validate_request_def list_ex_iff Let_def)
qed

theorem web_validation_witness:
  "validate_request ''low'' (VD_Enum (map infer_from [''low'', ''3''])) = Valid (V_String ''low'')
   \<and> validate_request ''3'' (VD_Enum (map infer_from [''low'', ''3''])) \<noteq> Valid (V_String ''3'')
   \<and> check_rw_value (Some (VD_Enum (map infer_from [''low'', ''3'']))) (V_String ''low'') = Inr ()"
proof -
  have i: "infer_from ''low'' = V_String ''low''" "infer_from ''3'' \<noteq> V_String ''3''" by code_simp+
  note enum = web_validation [THEN conjunct2, rule_format, of _ "[''low'', ''3'']"]
  have low: "validate_request ''low'' (VD_Enum (map infer_from [''low'', ''3''])) = Valid (V_String ''low'')"
    unfolding enum using i by simp
  moreover have "validate_request ''3'' (VD_Enum (map infer_from [''low'', ''3''])) \<noteq> Valid (V_String ''3'')"
    unfolding enum using i by simp
  ultimately show ?thesis
    using web_validation [THEN conjunct1, rule_format, OF low] by blast
qed

end
