(* ===== verification/Ordered_Map.thy ===== *)
theory Ordered_Map
  imports Std_Net "HOL-Library.Multiset"
begin

text \<open>
  What the sources use of \<open>Ord\<close>, \<open>BTreeMap\<close> and sorting. A \<open>BTreeMap\<close> is the list of its entries in the
  order of the keys, searched from the front. The locale \<open>comparator\<close> is what maps and sorting rely
  on of a comparison; texts and addresses meet it.
\<close>

section \<open>Orders\<close>

datatype ordering = Less | Equal | Greater

fun reverse_ordering :: "ordering \<Rightarrow> ordering" where
  "reverse_ordering Less = Greater"
| "reverse_ordering Equal = Equal"
| "reverse_ordering Greater = Less"

definition then_cmp :: "ordering \<Rightarrow> ordering \<Rightarrow> ordering" where
  "then_cmp a b = (if a = Equal then b else a)"

definition nat_cmp :: "nat \<Rightarrow> nat \<Rightarrow> ordering" where
  "nat_cmp a b = (if a < b then Less else if a = b then Equal else Greater)"

text \<open>Slices compare element by element, then by length; texts by their bytes; \<open>None\<close> is before \<open>Some\<close>.\<close>

fun list_cmp :: "('a \<Rightarrow> 'a \<Rightarrow> ordering) \<Rightarrow> 'a list \<Rightarrow> 'a list \<Rightarrow> ordering" where
  "list_cmp cmp [] [] = Equal"
| "list_cmp cmp [] (b # bs) = Less"
| "list_cmp cmp (a # as) [] = Greater"
| "list_cmp cmp (a # as) (b # bs) = then_cmp (cmp a b) (list_cmp cmp as bs)"

definition str_cmp :: "string \<Rightarrow> string \<Rightarrow> ordering" where
  "str_cmp = list_cmp (\<lambda>a b. nat_cmp (byte a) (byte b))"

fun opt_cmp :: "('a \<Rightarrow> 'a \<Rightarrow> ordering) \<Rightarrow> 'a option \<Rightarrow> 'a option \<Rightarrow> ordering" where
  "opt_cmp cmp None None = Equal"
| "opt_cmp cmp None (Some b) = Less"
| "opt_cmp cmp (Some a) None = Greater"
| "opt_cmp cmp (Some a) (Some b) = cmp a b"

fun ip_cmp :: "ip_addr \<Rightarrow> ip_addr \<Rightarrow> ordering" where
  "ip_cmp (V4 a) (V4 b) = list_cmp (\<lambda>x y. nat_cmp (unat x) (unat y)) a b"
| "ip_cmp (V4 _) (V6 _) = Less"
| "ip_cmp (V6 _) (V4 _) = Greater"
| "ip_cmp (V6 a) (V6 b) = list_cmp (\<lambda>x y. nat_cmp (unat x) (unat y)) a b"

section \<open>Ordered maps\<close>

fun bt_get :: "('k \<Rightarrow> 'k \<Rightarrow> ordering) \<Rightarrow> 'k \<Rightarrow> ('k \<times> 'v) list \<Rightarrow> 'v option" where
  "bt_get cmp k [] = None"
| "bt_get cmp k ((k', v) # m) =
     (case cmp k k' of Less \<Rightarrow> None | Equal \<Rightarrow> Some v | Greater \<Rightarrow> bt_get cmp k m)"

text \<open>\<open>insert\<close> keeps the old key when there is an equal one.\<close>

fun bt_insert :: "('k \<Rightarrow> 'k \<Rightarrow> ordering) \<Rightarrow> 'k \<Rightarrow> 'v \<Rightarrow> ('k \<times> 'v) list \<Rightarrow> ('k \<times> 'v) list" where
  "bt_insert cmp k v [] = [(k, v)]"
| "bt_insert cmp k v ((k', v') # m) =
     (case cmp k k' of
        Less \<Rightarrow> (k, v) # (k', v') # m
      | Equal \<Rightarrow> (k', v) # m
      | Greater \<Rightarrow> (k', v') # bt_insert cmp k v m)"

section \<open>What an ordered map relies on\<close>

text \<open>Every value is filed under a key equal to its own.\<close>

definition keyed :: "('k \<Rightarrow> 'k \<Rightarrow> ordering) \<Rightarrow> ('v \<Rightarrow> 'k) \<Rightarrow> ('k \<times> 'v) list \<Rightarrow> bool" where
  "keyed cmp f m \<longleftrightarrow> list_all (\<lambda>(k, v). cmp k (f v) = Equal) m"

locale comparator =
  fixes cmp :: "'k \<Rightarrow> 'k \<Rightarrow> ordering"
  assumes cmp_refl: "cmp a a = Equal"
    and cmp_rev: "cmp b a = reverse_ordering (cmp a b)"
    and cmp_equal: "cmp a b = Equal \<Longrightarrow> cmp a c = cmp b c"
    and cmp_trans: "cmp a b = Less \<Longrightarrow> cmp b c = Less \<Longrightarrow> cmp a c = Less"
begin

lemma cmp_equal_right: "cmp a b = Equal \<Longrightarrow> cmp c a = cmp c b"
  using cmp_equal [of a b c] cmp_rev [of c a] cmp_rev [of c b] by simp

lemma get_cong: "cmp a b = Equal \<Longrightarrow> bt_get cmp a m = bt_get cmp b m"
  by (induction m) (auto simp: cmp_equal [of a b] split: ordering.split)

lemma get_insert: "bt_get cmp k (bt_insert cmp k v m) = Some v"
proof (induction m)
  case (Cons e m)
  then show ?case by (cases e; cases "cmp k (fst e)") (simp_all add: cmp_refl)
qed (simp add: cmp_refl)

lemma get_insert_mono:
  "bt_get cmp k' m \<noteq> None \<Longrightarrow> bt_get cmp k' (bt_insert cmp k v m) \<noteq> None"
proof (induction m)
  case (Cons e m)
  obtain k0 v0 where e: "e = (k0, v0)" by fastforce
  show ?case
  proof (cases "cmp k k0")
    case Less
    have "cmp k k' = Less"
    proof (cases "cmp k' k0")
      case Equal
      then show ?thesis using Less cmp_equal_right [OF Equal, of k] by simp
    next
      case Greater
      then have "cmp k0 k' = Less" using cmp_rev [of k0 k'] by simp
      then show ?thesis using Less cmp_trans by blast
    qed (use Cons.prems e in simp)
    then show ?thesis using Cons.prems Less e cmp_rev [of k' k] by simp
  next
    case Equal
    then show ?thesis using Cons.prems e by (cases "cmp k' k0") simp_all
  next
    case Greater
    then show ?thesis using Cons e by (cases "cmp k' k0") simp_all
  qed
qed simp

lemma keyed_insert: "keyed cmp f m \<Longrightarrow> cmp k (f v) = Equal \<Longrightarrow> keyed cmp f (bt_insert cmp k v m)"
proof (induction m)
  case (Cons e m)
  obtain k0 v0 where e: "e = (k0, v0)" by fastforce
  show ?case using Cons cmp_equal [of k k0 "f v"]
    by (cases "cmp k k0") (simp_all add: e keyed_def)
qed (simp add: keyed_def)

lemma keyed_get: "keyed cmp f m \<Longrightarrow> bt_get cmp k m = Some v \<Longrightarrow> cmp k (f v) = Equal"
proof (induction m)
  case (Cons e m)
  obtain k0 v0 where e: "e = (k0, v0)" by fastforce
  show ?case using Cons cmp_equal [of k k0 "f v"]
    by (cases "cmp k k0") (simp_all add: e keyed_def)
qed simp

end

text \<open>The sum of a quantity over the values after an insertion.\<close>

lemma bt_insert_sum:
  "sum_list (map (\<lambda>e. f (snd e)) (bt_insert cmp k v m)) + (case bt_get cmp k m of Some v0 \<Rightarrow> f v0 | None \<Rightarrow> 0)
   = sum_list (map (\<lambda>e. f (snd e)) m) + (f v :: nat)"
  by (induction cmp k v m rule: bt_insert.induct) (auto split: ordering.split)

section \<open>The three orders\<close>

lemma then_cmp_simps [simp]: "then_cmp Equal b = b" "then_cmp Less b = Less" "then_cmp Greater b = Greater"
  by (simp_all add: then_cmp_def)

lemma reverse_then_cmp: "reverse_ordering (then_cmp a b) = then_cmp (reverse_ordering a) (reverse_ordering b)"
  by (cases a) simp_all

lemma then_cmp_eq: "then_cmp a b = Equal \<longleftrightarrow> a = Equal \<and> b = Equal" "then_cmp a b = Less \<longleftrightarrow> a = Less \<or> a = Equal \<and> b = Less"
  by (cases a; simp)+

lemma comparator_nat: "comparator (\<lambda>a b. nat_cmp (f a) (f b))"
proof
  show "nat_cmp (f b) (f a) = reverse_ordering (nat_cmp (f a) (f b))" for a b
    by (simp add: nat_cmp_def)
qed (simp_all add: nat_cmp_def split: if_splits)

lemma comparator_then:
  assumes "comparator f" "comparator g" shows "comparator (\<lambda>a b. then_cmp (f a b) (g a b))"
proof
  show "then_cmp (f a a) (g a a) = Equal" for a
    by (simp add: comparator.cmp_refl assms)
  show "then_cmp (f b a) (g b a) = reverse_ordering (then_cmp (f a b) (g a b))" for a b
    unfolding reverse_then_cmp by (rule arg_cong2 [of _ _ _ _ then_cmp]) (rule comparator.cmp_rev, rule assms)+
  show "then_cmp (f a b) (g a b) = Equal \<Longrightarrow> then_cmp (f a c) (g a c) = then_cmp (f b c) (g b c)" for a b c
    using comparator.cmp_equal [OF assms(1), of a b c] comparator.cmp_equal [OF assms(2), of a b c]
    by (simp add: then_cmp_eq)
  show "then_cmp (f a c) (g a c) = Less"
    if "then_cmp (f a b) (g a b) = Less" "then_cmp (f b c) (g b c) = Less" for a b c
    using that comparator.cmp_equal [OF assms(1), of a b c] comparator.cmp_trans [OF assms(1), of a b c]
      comparator.cmp_equal_right [OF assms(1), of b c a] comparator.cmp_trans [OF assms(2), of a b c]
    by (auto simp: then_cmp_eq)
qed

lemma comparator_on:
  assumes "comparator f" shows "comparator (\<lambda>a b. f (h a) (h b))"
proof
  show "f (h b) (h a) = reverse_ordering (f (h a) (h b))" for a b
    by (rule comparator.cmp_rev [OF assms])
qed (rule comparator.cmp_refl [OF assms] comparator.cmp_equal [OF assms] comparator.cmp_trans [OF assms]; assumption?)+

lemma comparator_opt:
  assumes "comparator f" shows "comparator (opt_cmp f)"
proof
  show "opt_cmp f a a = Equal" for a
    using comparator.cmp_refl [OF assms] by (cases a) simp_all
  show "opt_cmp f b a = reverse_ordering (opt_cmp f a b)" for a b
    using comparator.cmp_rev [OF assms, of "the b" "the a"] by (cases a; cases b) simp_all
  show "opt_cmp f a b = Equal \<Longrightarrow> opt_cmp f a c = opt_cmp f b c" for a b c
    using comparator.cmp_equal [OF assms, of "the a" "the b" "the c"] by (cases a; cases b; cases c) simp_all
  show "opt_cmp f a b = Less \<Longrightarrow> opt_cmp f b c = Less \<Longrightarrow> opt_cmp f a c = Less" for a b c
    using comparator.cmp_trans [OF assms, of "the a" "the b" "the c"] by (cases a; cases b; cases c) simp_all
qed

lemma comparator_list:
  assumes "comparator f" shows "comparator (list_cmp f)"
proof
  show "list_cmp f a a = Equal" for a
    using comparator.cmp_refl [OF assms] by (induction a) simp_all
  show "list_cmp f b a = reverse_ordering (list_cmp f a b)" for a b
  proof (induction a arbitrary: b)
    case Nil
    then show ?case by (cases b) simp_all
  next
    case (Cons x a)
    have "list_cmp f (y # b') (x # a) = reverse_ordering (list_cmp f (x # a) (y # b'))" for y b'
      using comparator.cmp_rev [OF assms, of y x] Cons.IH [of b'] by (simp add: reverse_then_cmp)
    then show ?case by (cases b) simp_all
  qed
  show "list_cmp f a b = Equal \<Longrightarrow> list_cmp f a c = list_cmp f b c" for a b c
  proof (induction a arbitrary: b c)
    case Nil
    then show ?case by (cases b) simp_all
  next
    case (Cons x a)
    then obtain y b' where b: "b = y # b'" and xy: "f x y = Equal" and ab: "list_cmp f a b' = Equal"
      by (cases b) (auto simp: then_cmp_eq)
    show ?case
      using comparator.cmp_equal [OF assms xy] Cons.IH [OF ab] b by (cases c) simp_all
  qed
  show "list_cmp f a b = Less \<Longrightarrow> list_cmp f b c = Less \<Longrightarrow> list_cmp f a c = Less" for a b c
  proof (induction a arbitrary: b c)
    case Nil
    then show ?case by (cases b; cases c) simp_all
  next
    case (Cons x a)
    obtain y b' where b: "b = y # b'" using Cons.prems(1) by (cases b) simp_all
    obtain z c' where c: "c = z # c'" using Cons.prems(2) b by (cases c) simp_all
    show ?case
      using Cons.prems Cons.IH [of b' c'] comparator.cmp_equal [OF assms, of x y z]
        comparator.cmp_equal_right [OF assms, of y z x] comparator.cmp_trans [OF assms, of x y z]
      by (auto simp: b c then_cmp_eq)
  qed
qed

lemma comparator_str: "comparator str_cmp"
  unfolding str_cmp_def by (intro comparator_list comparator_nat)

lemma comparator_ip: "comparator ip_cmp"
proof -
  have l4: "comparator (list_cmp (\<lambda>x y. nat_cmp (unat x) (unat (y :: 8 word))))" and
    l6: "comparator (list_cmp (\<lambda>x y. nat_cmp (unat x) (unat (y :: 16 word))))"
    by (intro comparator_list comparator_nat)+
  show ?thesis
  proof
    show "ip_cmp a a = Equal" for a
      by (cases a) (simp_all add: comparator.cmp_refl [OF l4] comparator.cmp_refl [OF l6])
    show "ip_cmp b a = reverse_ordering (ip_cmp a b)" for a b
      by (cases a; cases b) (simp_all, rule comparator.cmp_rev [OF l4], rule comparator.cmp_rev [OF l6])
    show "ip_cmp a b = Equal \<Longrightarrow> ip_cmp a c = ip_cmp b c" for a b c
      by (cases a; cases b; cases c) (simp_all add: comparator.cmp_equal [OF l4] comparator.cmp_equal [OF l6])
    show "ip_cmp a b = Less \<Longrightarrow> ip_cmp b c = Less \<Longrightarrow> ip_cmp a c = Less" for a b c
      by (cases a; cases b; cases c) (auto intro: comparator.cmp_trans [OF l4] comparator.cmp_trans [OF l6])
  qed
qed

interpretation str_map: comparator str_cmp by (rule comparator_str)

interpretation ip_map: comparator ip_cmp by (rule comparator_ip)

section \<open>Sorting\<close>

text \<open>\<open>sort_by\<close> with a comparison, which is stable; \<open>sort_unstable_by_key\<close> is the same on distinct keys.\<close>

fun insert_by :: "('a \<Rightarrow> 'a \<Rightarrow> ordering) \<Rightarrow> 'a \<Rightarrow> 'a list \<Rightarrow> 'a list" where
  "insert_by cmp x [] = [x]"
| "insert_by cmp x (y # ys) = (if cmp y x = Less then y # insert_by cmp x ys else x # y # ys)"

definition sort_by :: "('a \<Rightarrow> 'a \<Rightarrow> ordering) \<Rightarrow> 'a list \<Rightarrow> 'a list" where
  "sort_by cmp xs = foldr (insert_by cmp) xs []"

definition not_after :: "('a \<Rightarrow> 'a \<Rightarrow> ordering) \<Rightarrow> 'a \<Rightarrow> 'a \<Rightarrow> bool" where
  "not_after cmp a b \<longleftrightarrow> cmp a b \<noteq> Greater"

lemma mset_insert_by: "mset (insert_by cmp x ys) = add_mset x (mset ys)"
  by (induction ys) auto

lemma mset_sort_by: "mset (sort_by cmp xs) = mset xs"
  by (induction xs) (simp_all add: sort_by_def mset_insert_by)

lemma length_sort_by [simp]: "length (sort_by cmp xs) = length xs"
  using arg_cong [OF mset_sort_by [of cmp xs], of size] by simp

lemma set_sort_by [simp]: "set (sort_by cmp xs) = set xs"
  using arg_cong [OF mset_sort_by [of cmp xs], of set_mset] by simp

context comparator begin

lemma not_after_trans: "not_after cmp a b \<Longrightarrow> not_after cmp b c \<Longrightarrow> not_after cmp a c"
  unfolding not_after_def
  by (cases "cmp a b"; cases "cmp b c") (simp_all add: cmp_equal [of a b c] cmp_trans [of a b c] flip: cmp_equal_right [of b c a])

lemma sorted_insert_by: "sorted_wrt (not_after cmp) ys \<Longrightarrow> sorted_wrt (not_after cmp) (insert_by cmp x ys)"
proof (induction ys)
  case (Cons y ys)
  have set: "set (insert_by cmp x ys) = insert x (set ys)"
    using arg_cong [OF mset_insert_by [of cmp x ys], of set_mset] by simp
  show ?case
  proof (cases "cmp y x = Less")
    case True
    then show ?thesis using Cons set by (auto simp: not_after_def)
  next
    case False
    then have "not_after cmp x y" using cmp_rev [of x y] by (cases "cmp y x") (simp_all add: not_after_def)
    then show ?thesis using Cons.prems False not_after_trans [of x y] by auto
  qed
qed simp

lemma sorted_sort_by: "sorted_wrt (not_after cmp) (sort_by cmp xs)"
  by (induction xs) (simp_all add: sort_by_def sorted_insert_by)

end

end
