(* ===== verification/Topology.thy ===== *)
theory Topology
  imports Ordered_Map Device_View Http_Api
begin

text \<open>
  \<open>http/hypermedia/route/topology.rs\<close>: the graph of servers, devices and clients. Edges are collected with
  references to nodes and resolved at the end, when every node has its position as identifier.
  \<open>DeviceId\<close> has an order of its own, which is a third instance of \<open>comparator\<close>.
\<close>

section \<open>Device identities\<close>

record device_id =
  id_manufacturer :: "string option"
  id_model :: "string option"
  id_serial :: "string option"
  id_name :: ups_name
  id_namespace :: string

definition device_cmp :: "device_id \<Rightarrow> device_id \<Rightarrow> ordering" where
  "device_cmp a b =
     (let o1 = opt_cmp str_cmp (id_manufacturer a) (id_manufacturer b) in
      if o1 \<noteq> Equal then o1
      else let o2 = opt_cmp str_cmp (id_model a) (id_model b) in
      if o2 \<noteq> Equal then o2
      else (case opt_cmp str_cmp (id_serial a) (id_serial b) of
              Equal \<Rightarrow>
                if id_serial a = None \<and> id_model a = None \<and> id_manufacturer a = None then
                  (let o3 = str_cmp (id_namespace a) (id_namespace b) in
                   if o3 \<noteq> Equal then o3 else str_cmp (ups_str (id_name a)) (ups_str (id_name b)))
                else Equal
            | ord \<Rightarrow> ord))"

section \<open>The graph\<close>

record connection_counter =
  cc_active :: nat
  cc_degraded :: nat
  cc_failed :: nat

definition counter_default :: connection_counter where
  "counter_default = \<lparr>cc_active = 0, cc_degraded = 0, cc_failed = 0\<rparr>"

definition counter_semantic_type :: "connection_counter \<Rightarrow> semantic_type" where
  "counter_semantic_type c =
     (if cc_active c > 0 then S_Success
      else if cc_degraded c > 0 then S_Warning
      else if cc_failed c > 0 then S_Error
      else S_Info)"

text \<open>The match that counts a connection by the type of its device.\<close>

definition count_connection :: "semantic_type \<Rightarrow> connection_counter \<Rightarrow> connection_counter" where
  "count_connection t c =
     (case t of
        S_None \<Rightarrow> c
      | S_Error \<Rightarrow> c\<lparr>cc_failed := cc_failed c + 1\<rparr>
      | S_Warning \<Rightarrow> c\<lparr>cc_degraded := cc_degraded c + 1\<rparr>
      | _ \<Rightarrow> c\<lparr>cc_active := cc_active c + 1\<rparr>)"

datatype node_type = N_Server | N_Client | N_Device | N_Edge

record node_id =
  ni_id :: nat
  ni_type :: node_type

datatype edge_type = E_Data | E_Power

datatype link = L_Device device_id | L_Client ip_addr | L_Server string

record client_node =
  cn_counter :: connection_counter
  cn_id :: nat
  cn_address :: ip_addr
  cn_name :: "string option"

record server_node =
  sn_counter :: connection_counter
  sn_id :: nat
  sn_namespace :: string
  sn_address :: string
  sn_port :: nat
  sn_status :: connection_status

record device_node =
  dn_id :: nat
  dn_semantic :: semantic_type
  dn_aliases :: "(ups_name \<times> string) list"
  dn_battery :: "f64 unit_display option"
  dn_device_id :: device_id
  dn_input_voltage :: "f64 unit_display option"
  dn_load :: "f64 unit_display option"
  dn_runtime :: "int unit_display option"
  dn_status :: ups_status

record edge_ref =
  er_semantic :: semantic_type
  er_from :: link
  er_to :: link
  er_type :: edge_type

record edge_node =
  en_semantic :: semantic_type
  en_id :: nat
  en_from :: node_id
  en_to :: node_id
  en_type :: edge_type

record graph_builder =
  gb_servers :: "(string \<times> server_node) list"
  gb_clients :: "(ip_addr \<times> client_node) list"
  gb_devices :: "(device_id \<times> device_node) list"
  gb_edge_refs :: "edge_ref list"

record topology_graph =
  tg_servers :: "(string \<times> server_node) list"
  tg_clients :: "(ip_addr \<times> client_node) list"
  tg_devices :: "(device_id \<times> device_node) list"
  tg_edges :: "edge_node list"

definition builder_empty :: graph_builder where
  "builder_empty = \<lparr>gb_servers = [], gb_clients = [], gb_devices = [], gb_edge_refs = []\<rparr>"

section \<open>Inserting a device\<close>

definition device_semantic_type :: "ups_status \<Rightarrow> semantic_type" where
  "device_semantic_type s =
     (if st_has s ST_NOCOMM \<or> st_has s ST_OFFLINE \<or> st_has s ST_BYPASS then S_None
      else if st_has s ST_FORCED_SHUTDOWN \<or> st_has s ST_LOW_BATTERY \<or> st_has s ST_REPLACE_BATTERY
        \<or> st_has s ST_ALARM \<or> st_has s ST_OVERLOADED then S_Error
      else if st_has s ST_ON_BATTERY \<or> st_has s ST_TRIM \<or> st_has s ST_BOOST then S_Warning
      else S_Success)"

definition data_edge :: "device_entry \<Rightarrow> device_id \<Rightarrow> string \<Rightarrow> edge_ref" where
  "data_edge device key namespace =
     \<lparr>er_semantic = (if st_has (de_status device) ST_NOCOMM then S_Error else S_Info),
      er_from = L_Device key, er_to = L_Server namespace, er_type = E_Data\<rparr>"

definition client_node_new :: "ip_addr \<Rightarrow> string option \<Rightarrow> client_node" where
  "client_node_new address name = \<lparr>cn_counter = counter_default, cn_id = 0, cn_address = address, cn_name = name\<rparr>"

text \<open>The loop over the attached clients: one on the server's own machine counts for the server.\<close>

fun insert_clients ::
    "device_id \<Rightarrow> semantic_type \<Rightarrow> client_info list \<Rightarrow> graph_builder \<times> server_node \<Rightarrow> graph_builder \<times> server_node" where
  "insert_clients key t [] s = s"
| "insert_clients key t (client # attached) (g, server) =
     (if is_loopback (ci_addr client) then
        insert_clients key t attached
          (g\<lparr>gb_edge_refs := gb_edge_refs g @
               [\<lparr>er_semantic = t, er_from = L_Device key, er_to = L_Server (sn_namespace server), er_type = E_Power\<rparr>]\<rparr>,
           server\<lparr>sn_counter := count_connection t (sn_counter server)\<rparr>)
      else
        (let node = (case bt_get ip_cmp (ci_addr client) (gb_clients g) of
                       Some node \<Rightarrow> node | None \<Rightarrow> client_node_new (ci_addr client) (ci_name client));
             node = node\<lparr>cn_counter := count_connection t (cn_counter node)\<rparr> in
         insert_clients key t attached
           (g\<lparr>gb_clients := bt_insert ip_cmp (ci_addr client) node (gb_clients g),
              gb_edge_refs := gb_edge_refs g @
                [\<lparr>er_semantic = t, er_from = L_Device key, er_to = L_Client (cn_address node), er_type = E_Power\<rparr>]\<rparr>,
            server)))"

definition device_key :: "device_entry \<Rightarrow> string \<Rightarrow> device_id" where
  "device_key device namespace =
     \<lparr>id_manufacturer = map_option (cow_str \<circ> as_str) (de_variables device (std_var ''ups.mfr'')),
      id_model = map_option (cow_str \<circ> as_str) (de_variables device (std_var ''ups.model'')),
      id_serial = map_option (cow_str \<circ> as_str) (de_variables device (std_var ''ups.serial'')),
      id_name = de_name device, id_namespace = namespace\<rparr>"

definition insert_from :: "device_entry \<Rightarrow> graph_builder \<times> server_node \<Rightarrow> graph_builder \<times> server_node" where
  "insert_from device s =
     (case s of (g, server) \<Rightarrow>
        let namespace = sn_namespace server; key = device_key device namespace in
        (case bt_get device_cmp key (gb_devices g) of
           Some node \<Rightarrow>
             (g\<lparr>gb_devices := bt_insert device_cmp key (node\<lparr>dn_aliases := dn_aliases node @ [(de_name device, namespace)]\<rparr>) (gb_devices g),
                gb_edge_refs := gb_edge_refs g @ [data_edge device (dn_device_id node) namespace]\<rparr>, server)
         | None \<Rightarrow>
             (let t = device_semantic_type (de_status device);
                  device_node =
                    \<lparr>dn_id = 0, dn_semantic = t, dn_aliases = [(de_name device, namespace)],
                     dn_battery = get_battery_charge device, dn_device_id = key,
                     dn_input_voltage = get_input_voltage device, dn_load = get_ups_load device,
                     dn_runtime = get_battery_runtime device, dn_status = de_status device\<rparr>
              in case insert_clients key t (de_attached device) (g, server) of (g, server) \<Rightarrow>
                   (g\<lparr>gb_edge_refs := gb_edge_refs g @ [data_edge device key namespace],
                      gb_devices := bt_insert device_cmp key device_node (gb_devices g)\<rparr>, server))))"

fun insert_devices :: "device_entry list \<Rightarrow> graph_builder \<times> server_node \<Rightarrow> graph_builder \<times> server_node" where
  "insert_devices [] s = s"
| "insert_devices (d # ds) s = insert_devices ds (insert_from d s)"

fun from_servers :: "(string \<times> upsd_state) list \<Rightarrow> graph_builder \<Rightarrow> graph_builder" where
  "from_servers [] g = g"
| "from_servers ((namespace, upsd) # servers) g =
     (let server_node =
        \<lparr>sn_counter = counter_default, sn_id = 0, sn_namespace = namespace, sn_address = uc_addr (up_config upsd),
         sn_port = uc_port (up_config upsd), sn_status = ds_status (up_state upsd)\<rparr>
      in case insert_devices (map snd (ds_devices (up_state upsd))) (g, server_node) of (g, server_node) \<Rightarrow>
           from_servers servers (g\<lparr>gb_servers := bt_insert str_cmp (sn_namespace server_node) server_node (gb_servers g)\<rparr>))"

definition from_server_state :: "'w server \<Rightarrow> graph_builder" where
  "from_server_state s = from_servers (sr_servers s) builder_empty"

section \<open>Finishing\<close>

definition number :: "(nat \<Rightarrow> 'v \<Rightarrow> 'v) \<Rightarrow> ('k \<times> 'v) list \<Rightarrow> ('k \<times> 'v) list" where
  "number set_id m = map (\<lambda>(pos, (k, v)). (k, set_id pos v)) (zip [0..<length m] m)"

definition resolve_link :: "graph_builder \<Rightarrow> link \<Rightarrow> node_id option" where
  "resolve_link g link =
     (case link of
        L_Device key \<Rightarrow> map_option (\<lambda>v. \<lparr>ni_id = dn_id v, ni_type = N_Device\<rparr>) (bt_get device_cmp key (gb_devices g))
      | L_Client key \<Rightarrow> map_option (\<lambda>v. \<lparr>ni_id = cn_id v, ni_type = N_Client\<rparr>) (bt_get ip_cmp key (gb_clients g))
      | L_Server key \<Rightarrow> map_option (\<lambda>v. \<lparr>ni_id = sn_id v, ni_type = N_Server\<rparr>) (bt_get str_cmp key (gb_servers g)))"

fun resolve_edges :: "graph_builder \<Rightarrow> nat \<Rightarrow> edge_ref list \<Rightarrow> edge_node list" where
  "resolve_edges g i [] = []"
| "resolve_edges g i (edge # edges) =
     (case (resolve_link g (er_from edge), resolve_link g (er_to edge)) of
        (Some from, Some to) \<Rightarrow>
          \<lparr>en_semantic = er_semantic edge, en_id = i, en_from = from, en_to = to, en_type = er_type edge\<rparr>
          # resolve_edges g (Suc i) edges
      | _ \<Rightarrow> resolve_edges g (Suc i) edges)"

fun node_rank :: "node_type \<Rightarrow> nat" where
  "node_rank N_Server = 0"
| "node_rank N_Client = 1"
| "node_rank N_Device = 2"
| "node_rank N_Edge = 3"

text \<open>The texts of the page: the identifier of a node and the style of an edge.\<close>

fun node_type_as_str :: "node_type \<Rightarrow> string" where
  "node_type_as_str N_Server = ''server''"
| "node_type_as_str N_Client = ''client''"
| "node_type_as_str N_Device = ''device''"
| "node_type_as_str N_Edge = ''edge''"

definition node_id_fmt :: "node_id \<Rightarrow> string" where
  "node_id_fmt n = node_type_as_str (ni_type n) @ ''_'' @ show_nat (ni_id n)"

fun edge_as_class :: "edge_type \<Rightarrow> string" where
  "edge_as_class E_Power = ''edge-dashed''"
| "edge_as_class E_Data = ''edge-dotted''"

text \<open>The derived order of \<open>NodeId\<close> (identifier, then type) as a number; a stable sort by two keys is a
  sort by the second and then by the first.\<close>

definition node_key :: "node_id \<Rightarrow> nat" where
  "node_key n = 4 * ni_id n + node_rank (ni_type n)"

definition builder_finish :: "graph_builder \<Rightarrow> topology_graph" where
  "builder_finish g =
     (let g = g\<lparr>gb_servers := number (\<lambda>pos v. v\<lparr>sn_id := pos\<rparr>) (gb_servers g)\<rparr>;
          g = g\<lparr>gb_clients := number (\<lambda>pos v. v\<lparr>cn_id := pos\<rparr>) (gb_clients g)\<rparr>;
          g = g\<lparr>gb_devices := number (\<lambda>pos v. v\<lparr>dn_id := pos\<rparr>) (gb_devices g)\<rparr>;
          edges = resolve_edges g 0 (gb_edge_refs g)
      in \<lparr>tg_servers = gb_servers g, tg_clients = gb_clients g, tg_devices = gb_devices g,
          tg_edges = sort_key (\<lambda>e. node_key (en_from e)) (sort_key (\<lambda>e. node_key (en_to e)) edges)\<rparr>)"

definition server_semantic_type :: "server_node \<Rightarrow> semantic_type" where
  "server_semantic_type n = (if sn_status n = Dead then S_Error else counter_semantic_type (sn_counter n))"

definition edge_semantic_type :: "edge_node \<Rightarrow> semantic_type" where
  "edge_semantic_type n = en_semantic n"

definition client_semantic_type :: "client_node \<Rightarrow> semantic_type" where
  "client_semantic_type n = counter_semantic_type (cn_counter n)"

section \<open>The order of devices\<close>

text \<open>The order of devices is a lexicographic one: its last part compares namespace and name of devices
  that give none of the three variables, and nothing otherwise.\<close>

definition unnamed :: "device_id \<Rightarrow> (string \<times> string) option" where
  "unnamed a = (if id_serial a = None \<and> id_model a = None \<and> id_manufacturer a = None
                then Some (id_namespace a, ups_str (id_name a)) else None)"

lemma opt_cmp_Equal_None: "opt_cmp cmp a b = Equal \<Longrightarrow> a = None \<longleftrightarrow> b = None"
  by (cases a; cases b) simp_all

lemma device_cmp_lex:
  "device_cmp = (\<lambda>a b.
     then_cmp (opt_cmp str_cmp (id_manufacturer a) (id_manufacturer b))
      (then_cmp (opt_cmp str_cmp (id_model a) (id_model b))
        (then_cmp (opt_cmp str_cmp (id_serial a) (id_serial b))
          (opt_cmp (\<lambda>p q. then_cmp (str_cmp (fst p) (fst q)) (str_cmp (snd p) (snd q))) (unnamed a) (unnamed b)))))"
proof (intro ext)
  fix a b :: device_id
  let ?m = "opt_cmp str_cmp (id_manufacturer a) (id_manufacturer b)"
  let ?o = "opt_cmp str_cmp (id_model a) (id_model b)"
  let ?s = "opt_cmp str_cmp (id_serial a) (id_serial b)"
  let ?n = "opt_cmp (\<lambda>p q. then_cmp (str_cmp (fst p) (fst q)) (str_cmp (snd p) (snd q))) (unnamed a) (unnamed b)"
  show "device_cmp a b = then_cmp ?m (then_cmp ?o (then_cmp ?s ?n))"
  proof (cases "?m = Equal \<and> ?o = Equal \<and> ?s = Equal")
    case True
    then have "(id_manufacturer a = None) = (id_manufacturer b = None)" "(id_model a = None) = (id_model b = None)"
      "(id_serial a = None) = (id_serial b = None)"
      using opt_cmp_Equal_None by blast+
    with True show ?thesis by (auto simp: device_cmp_def unnamed_def then_cmp_def Let_def)
  next
    case False
    then show ?thesis by (auto simp: device_cmp_def then_cmp_def Let_def split: ordering.split)
  qed
qed

lemma comparator_device: "comparator device_cmp"
  unfolding device_cmp_lex
  by (intro comparator_then comparator_on [of "opt_cmp str_cmp" id_manufacturer]
      comparator_on [of "opt_cmp str_cmp" id_model] comparator_on [of "opt_cmp str_cmp" id_serial]
      comparator_on [of "opt_cmp _" unnamed] comparator_opt comparator_str
      comparator_on [of str_cmp fst] comparator_on [of str_cmp snd])

interpretation device_map: comparator device_cmp by (rule comparator_device)

section \<open>Positions\<close>

text \<open>A map of which every value carries its position answers with the position of an entry.\<close>

lemma bt_get_nth: "bt_get cmp k m = Some v \<Longrightarrow> \<exists>i < length m. snd (m ! i) = v"
proof (induction m)
  case (Cons e m)
  obtain k0 v0 where e: "e = (k0, v0)" by fastforce
  show ?case
  proof (cases "cmp k k0")
    case Greater
    then obtain i where "i < length m" "snd (m ! i) = v" using Cons e by auto
    then show ?thesis by (intro exI [of _ "Suc i"]) simp
  qed (use Cons.prems e in auto)
qed simp

lemma length_number [simp]: "length (number set_id m) = length m"
  by (simp add: number_def)

lemma number_nth: "i < length m \<Longrightarrow> number set_id m ! i = (fst (m ! i), set_id i (snd (m ! i)))"
  by (simp add: number_def split: prod.split)

lemma bt_get_cong_keys:
  "map fst m = map fst m' \<Longrightarrow> bt_get cmp k m \<noteq> None \<longleftrightarrow> bt_get cmp k m' \<noteq> None"
proof (induction m arbitrary: m')
  case (Cons e m)
  then obtain v' m'' where "m' = (fst e, v') # m''" by (cases m') auto
  then show ?case using Cons by (cases e; cases "cmp k (fst e)") auto
qed simp

lemma number_keys: "map fst (number set_id m) = map fst m"
  by (rule nth_equalityI) (simp_all add: number_nth)

lemma number_map:
  "(\<And>i v. f (set_id i v) = f v) \<Longrightarrow> map (\<lambda>e. f (snd e)) (number set_id m) = map (\<lambda>e. f (snd e)) m"
  by (rule nth_equalityI) (simp_all add: number_nth)

lemma number_get:
  assumes "bt_get cmp k m \<noteq> None" and id: "\<And>i v. get_id (set_id i v) = i"
  shows "\<exists>v i. bt_get cmp k (number set_id m) = Some v \<and> i < length m \<and> get_id v = i"
proof -
  have "bt_get cmp k (number set_id m) \<noteq> None"
    by (rule iffD2 [OF bt_get_cong_keys [OF number_keys] assms(1)])
  then obtain v where v: "bt_get cmp k (number set_id m) = Some v" by blast
  then obtain i where i: "i < length m" "snd (number set_id m ! i) = v"
    using bt_get_nth [OF v] by auto
  then have "get_id v = i" using id number_nth [OF i(1), of set_id] by auto
  then show ?thesis using v i(1) by blast
qed

section \<open>The invariant of the builder\<close>

definition link_ok :: "link set \<Rightarrow> graph_builder \<Rightarrow> link \<Rightarrow> bool" where
  "link_ok X g l \<longleftrightarrow> l \<in> X \<or> resolve_link g l \<noteq> None"

text \<open>Nodes are filed under their own keys, and every link of an edge leads to a node or is pending.\<close>

definition graph_ok :: "link set \<Rightarrow> graph_builder \<Rightarrow> bool" where
  "graph_ok X g \<longleftrightarrow> keyed ip_cmp cn_address (gb_clients g) \<and> keyed device_cmp dn_device_id (gb_devices g)
     \<and> list_all (\<lambda>e. link_ok X g (er_from e) \<and> link_ok X g (er_to e)) (gb_edge_refs g)"

definition data_edges :: "graph_builder \<Rightarrow> nat" where
  "data_edges g = length (filter (\<lambda>e. er_type e = E_Data) (gb_edge_refs g))"

definition alias_count :: "(device_id \<times> device_node) list \<Rightarrow> nat" where
  "alias_count m = sum_list (map (\<lambda>e. length (dn_aliases (snd e))) m)"

text \<open>An insertion into one of the maps loses no link.\<close>

lemma link_ok_mono:
  assumes "link_ok X g l" "X \<subseteq> Y"
    and "\<And>k. bt_get device_cmp k (gb_devices g) \<noteq> None \<Longrightarrow> bt_get device_cmp k (gb_devices g') \<noteq> None"
    and "\<And>k. bt_get ip_cmp k (gb_clients g) \<noteq> None \<Longrightarrow> bt_get ip_cmp k (gb_clients g') \<noteq> None"
    and "\<And>k. bt_get str_cmp k (gb_servers g) \<noteq> None \<Longrightarrow> bt_get str_cmp k (gb_servers g') \<noteq> None"
  shows "link_ok Y g' l"
  using assms by (cases l) (auto simp: link_ok_def resolve_link_def)

lemma graph_ok_transfer:
  assumes "graph_ok X g" "keyed ip_cmp cn_address (gb_clients g')" "keyed device_cmp dn_device_id (gb_devices g')"
    and "gb_edge_refs g' = gb_edge_refs g" "\<And>l. link_ok X g l \<Longrightarrow> link_ok Y g' l"
  shows "graph_ok Y g'"
  using assms by (auto simp: graph_ok_def list_all_iff)

lemma graph_ok_add_edge:
  assumes "graph_ok X g" "link_ok X g (er_from e)" "link_ok X g (er_to e)"
  shows "graph_ok X (g\<lparr>gb_edge_refs := gb_edge_refs g @ [e]\<rparr>)"
proof -
  have "link_ok X (g\<lparr>gb_edge_refs := gb_edge_refs g @ [e]\<rparr>) l = link_ok X g l" for l
    by (cases l) (simp_all add: link_ok_def resolve_link_def)
  then show ?thesis using assms by (simp add: graph_ok_def)
qed

lemma graph_ok_client:
  assumes "graph_ok X g" "ip_cmp k (cn_address v) = Equal"
  shows "graph_ok X (g\<lparr>gb_clients := bt_insert ip_cmp k v (gb_clients g)\<rparr>)"
proof -
  let ?g = "g\<lparr>gb_clients := bt_insert ip_cmp k v (gb_clients g)\<rparr>"
  have "link_ok X g l \<Longrightarrow> link_ok X ?g l" for l
    by (erule link_ok_mono) (simp_all del: not_None_eq add: ip_map.get_insert_mono)
  then show ?thesis
    using assms by (intro graph_ok_transfer [of X g ?g X]) (simp_all add: graph_ok_def ip_map.keyed_insert)
qed

lemma graph_ok_device:
  assumes "graph_ok X g" "device_cmp k (dn_device_id v) = Equal" "\<And>l. l \<in> X \<Longrightarrow> l \<in> Y \<or> l = L_Device k"
  shows "graph_ok Y (g\<lparr>gb_devices := bt_insert device_cmp k v (gb_devices g)\<rparr>)"
proof -
  let ?g = "g\<lparr>gb_devices := bt_insert device_cmp k v (gb_devices g)\<rparr>"
  have "link_ok {} g l \<Longrightarrow> link_ok Y ?g l" for l
    by (erule link_ok_mono) (simp_all del: not_None_eq add: device_map.get_insert_mono)
  moreover have "link_ok Y ?g (L_Device k)"
    by (simp add: link_ok_def resolve_link_def device_map.get_insert)
  ultimately have "link_ok X g l \<Longrightarrow> link_ok Y ?g l" for l
    using assms(3) [of l] by (auto simp: link_ok_def)
  then show ?thesis
    using assms(1,2) by (intro graph_ok_transfer [of X g ?g Y]) (simp_all add: graph_ok_def device_map.keyed_insert)
qed

lemma graph_ok_server:
  assumes "graph_ok {L_Server k} g"
  shows "graph_ok {} (g\<lparr>gb_servers := bt_insert str_cmp k v (gb_servers g)\<rparr>)"
proof -
  let ?g = "g\<lparr>gb_servers := bt_insert str_cmp k v (gb_servers g)\<rparr>"
  have "link_ok {} g l \<Longrightarrow> link_ok {} ?g l" for l
    by (erule link_ok_mono) (simp_all del: not_None_eq add: str_map.get_insert_mono)
  moreover have "link_ok {} ?g (L_Server k)"
    by (simp add: link_ok_def resolve_link_def str_map.get_insert)
  ultimately have "link_ok {L_Server k} g l \<Longrightarrow> link_ok {} ?g l" for l
    by (auto simp: link_ok_def)
  then show ?thesis
    using assms by (intro graph_ok_transfer [of "{L_Server k}" g ?g "{}"]) (simp_all add: graph_ok_def)
qed

lemma graph_ok_weaken: "graph_ok X g \<Longrightarrow> X \<subseteq> Y \<Longrightarrow> graph_ok Y g"
  by (auto simp: graph_ok_def link_ok_def list_all_iff)

section \<open>The operations keep it\<close>

lemma insert_clients_frame:
  "insert_clients key t cs (g, server) = (g', server') \<Longrightarrow>
     gb_devices g' = gb_devices g \<and> data_edges g' = data_edges g \<and> sn_namespace server' = sn_namespace server"
  by (induction cs arbitrary: g server) (auto simp: data_edges_def Let_def split: if_splits)

lemma insert_clients_ok:
  "insert_clients key t cs (g, server) = (g', server') \<Longrightarrow> graph_ok X g \<Longrightarrow>
     L_Device key \<in> X \<Longrightarrow> L_Server (sn_namespace server) \<in> X \<Longrightarrow> graph_ok X g'"
proof (induction cs arbitrary: g server)
  case (Cons c cs)
  show ?case
  proof (cases "is_loopback (ci_addr c)")
    case True
    show ?thesis
      using Cons.prems True
      by (auto intro!: Cons.IH graph_ok_add_edge simp: link_ok_def)
  next
    case False
    define node where "node = (case bt_get ip_cmp (ci_addr c) (gb_clients g) of
        Some node \<Rightarrow> node | None \<Rightarrow> client_node_new (ci_addr c) (ci_name c))"
    define node' where "node' = node\<lparr>cn_counter := count_connection t (cn_counter node)\<rparr>"
    define g1 where "g1 = g\<lparr>gb_clients := bt_insert ip_cmp (ci_addr c) node' (gb_clients g)\<rparr>"
    define e where "e = \<lparr>er_semantic = t, er_from = L_Device key, er_to = L_Client (cn_address node'), er_type = E_Power\<rparr>"
    have key: "ip_cmp (ci_addr c) (cn_address node') = Equal"
      using ip_map.keyed_get [of cn_address "gb_clients g"] Cons.prems(2)
      by (auto simp: node'_def node_def client_node_new_def ip_map.cmp_refl graph_ok_def split: option.split)
    have "graph_ok X g1" unfolding g1_def by (rule graph_ok_client) (rule Cons.prems, rule key)
    moreover have "link_ok X g1 (er_to e)"
      by (simp add: e_def link_ok_def resolve_link_def g1_def ip_map.get_insert flip: ip_map.get_cong [OF key])
    moreover have "link_ok X g1 (er_from e)" by (simp add: e_def link_ok_def Cons.prems)
    ultimately have "graph_ok X (g1\<lparr>gb_edge_refs := gb_edge_refs g1 @ [e]\<rparr>)"
      by (intro graph_ok_add_edge)
    then show ?thesis
      using Cons.prems False by (auto intro!: Cons.IH simp: Let_def g1_def e_def node'_def node_def)
  qed
qed simp

text \<open>One device: the link of its data edge is resolved, and it is counted once as an edge and once as an alias.\<close>

lemma link_ok_self:
  "device_cmp k k' = Equal \<Longrightarrow> link_ok X (g\<lparr>gb_devices := bt_insert device_cmp k v m\<rparr>) (L_Device k')"
  by (simp add: link_ok_def resolve_link_def device_map.get_insert flip: device_map.get_cong)

lemma insert_from_ok:
  assumes "insert_from d (g, server) = (g', server')" "graph_ok {L_Server (sn_namespace server)} g"
  shows "graph_ok {L_Server (sn_namespace server)} g' \<and> sn_namespace server' = sn_namespace server
     \<and> data_edges g' = data_edges g + 1 \<and> alias_count (gb_devices g') = alias_count (gb_devices g) + 1"
proof -
  define ns where "ns = sn_namespace server"
  define key where "key = device_key d ns"
  show ?thesis
  proof (cases "bt_get device_cmp key (gb_devices g)")
    case None
    define t where "t = device_semantic_type (de_status d)"
    define node where "node = \<lparr>dn_id = 0, dn_semantic = t, dn_aliases = [(de_name d, ns)],
       dn_battery = get_battery_charge d, dn_device_id = key, dn_input_voltage = get_input_voltage d,
       dn_load = get_ups_load d, dn_runtime = get_battery_runtime d, dn_status = de_status d\<rparr>"
    obtain g1 s1 where c: "insert_clients key t (de_attached d) (g, server) = (g1, s1)" by fastforce
    note frame = insert_clients_frame [OF c]
    define g2 where "g2 = g1\<lparr>gb_edge_refs := gb_edge_refs g1 @ [data_edge d key ns]\<rparr>"
    have r: "g' = g2\<lparr>gb_devices := bt_insert device_cmp key node (gb_devices g2)\<rparr>" "server' = s1"
      using assms(1) None c
      by (auto simp: insert_from_def Let_def ns_def [symmetric] key_def [symmetric] t_def [symmetric]
          g2_def node_def)
    have "graph_ok {L_Device key, L_Server ns} g1"
      by (rule insert_clients_ok [OF c]) (use assms(2) graph_ok_weaken in \<open>auto simp: ns_def\<close>)
    then have "graph_ok {L_Device key, L_Server ns} g2"
      unfolding g2_def by (rule graph_ok_add_edge) (simp_all add: data_edge_def link_ok_def)
    then have "graph_ok {L_Server ns} g'"
      unfolding r by (rule graph_ok_device) (auto simp: node_def device_map.cmp_refl)
    then show ?thesis
      using frame None bt_insert_sum [of "\<lambda>v. length (dn_aliases v)" device_cmp key node "gb_devices g"]
      by (simp add: r g2_def ns_def data_edges_def alias_count_def data_edge_def node_def)
  next
    case (Some node)
    define node' where "node' = node\<lparr>dn_aliases := dn_aliases node @ [(de_name d, ns)]\<rparr>"
    define g1 where "g1 = g\<lparr>gb_devices := bt_insert device_cmp key node' (gb_devices g)\<rparr>"
    have r: "g' = g1\<lparr>gb_edge_refs := gb_edge_refs g1 @ [data_edge d (dn_device_id node) ns]\<rparr>" "server' = server"
      using assms(1) Some
      by (auto simp: insert_from_def Let_def ns_def [symmetric] key_def [symmetric] g1_def node'_def)
    have key: "device_cmp key (dn_device_id node) = Equal"
      using device_map.keyed_get assms(2) Some by (auto simp: graph_ok_def)
    have "graph_ok {L_Server ns} g1"
      unfolding g1_def using assms(2) key by (intro graph_ok_device [of "{L_Server ns}"]) (auto simp: node'_def ns_def)
    moreover have "link_ok {L_Server ns} g1 (L_Device (dn_device_id node))"
      unfolding g1_def by (rule link_ok_self [OF key])
    ultimately have "graph_ok {L_Server ns} g'"
      unfolding r by (intro graph_ok_add_edge) (simp_all add: data_edge_def, simp add: link_ok_def)
    then show ?thesis
      using Some bt_insert_sum [of "\<lambda>v. length (dn_aliases v)" device_cmp key node' "gb_devices g"]
      by (simp add: r g1_def ns_def data_edges_def alias_count_def data_edge_def node'_def)
  qed
qed

lemma insert_devices_ok:
  "insert_devices ds (g, server) = (g', server') \<Longrightarrow> graph_ok {L_Server (sn_namespace server)} g \<Longrightarrow>
     graph_ok {L_Server (sn_namespace server)} g' \<and> sn_namespace server' = sn_namespace server
     \<and> data_edges g' = data_edges g + length ds \<and> alias_count (gb_devices g') = alias_count (gb_devices g) + length ds"
proof (induction ds arbitrary: g server)
  case (Cons d ds)
  obtain g1 s1 where d: "insert_from d (g, server) = (g1, s1)" by fastforce
  note ok = insert_from_ok [OF d Cons.prems(2)]
  show ?case using Cons.IH [of g1 s1] Cons.prems(1) d ok by auto
qed simp

definition device_total :: "(string \<times> upsd_state) list \<Rightarrow> nat" where
  "device_total servers = sum_list (map (\<lambda>(ns, upsd). length (ds_devices (up_state upsd))) servers)"

lemma from_servers_ok:
  "graph_ok {} g \<Longrightarrow>
     graph_ok {} (from_servers servers g) \<and> data_edges (from_servers servers g) = data_edges g + device_total servers
     \<and> alias_count (gb_devices (from_servers servers g)) = alias_count (gb_devices g) + device_total servers"
proof (induction servers arbitrary: g)
  case (Cons e servers)
  obtain ns upsd where e: "e = (ns, upsd)" by fastforce
  define node where "node = \<lparr>sn_counter = counter_default, sn_id = 0, sn_namespace = ns, sn_address = uc_addr (up_config upsd),
         sn_port = uc_port (up_config upsd), sn_status = ds_status (up_state upsd)\<rparr>"
  obtain g1 node1 where d: "insert_devices (map snd (ds_devices (up_state upsd))) (g, node) = (g1, node1)" by fastforce
  have "graph_ok {L_Server (sn_namespace node)} g" using Cons.prems graph_ok_weaken by blast
  note ok = insert_devices_ok [OF d this]
  define g2 where "g2 = g1\<lparr>gb_servers := bt_insert str_cmp (sn_namespace node1) node1 (gb_servers g1)\<rparr>"
  have g2: "graph_ok {} g2" unfolding g2_def using ok by (intro graph_ok_server) simp
  have r: "from_servers (e # servers) g = from_servers servers g2"
    using d by (simp add: e node_def g2_def)
  show ?case
    unfolding r using Cons.IH [OF g2] ok by (simp add: g2_def device_total_def e data_edges_def)
qed (simp add: device_total_def)

section \<open>The finished graph\<close>

text \<open>A node identifier leads to the node at its position, which carries it.\<close>

definition node_exists :: "topology_graph \<Rightarrow> node_id \<Rightarrow> bool" where
  "node_exists t n =
     (case ni_type n of
        N_Server \<Rightarrow> ni_id n < length (tg_servers t) \<and> sn_id (snd (tg_servers t ! ni_id n)) = ni_id n
      | N_Client \<Rightarrow> ni_id n < length (tg_clients t) \<and> cn_id (snd (tg_clients t ! ni_id n)) = ni_id n
      | N_Device \<Rightarrow> ni_id n < length (tg_devices t) \<and> dn_id (snd (tg_devices t ! ni_id n)) = ni_id n
      | N_Edge \<Rightarrow> False)"

definition numbered :: "graph_builder \<Rightarrow> graph_builder" where
  "numbered g = g\<lparr>gb_servers := number (\<lambda>pos v. v\<lparr>sn_id := pos\<rparr>) (gb_servers g),
     gb_clients := number (\<lambda>pos v. v\<lparr>cn_id := pos\<rparr>) (gb_clients g),
     gb_devices := number (\<lambda>pos v. v\<lparr>dn_id := pos\<rparr>) (gb_devices g)\<rparr>"

lemma builder_finish_numbered:
  "builder_finish g = \<lparr>tg_servers = gb_servers (numbered g), tg_clients = gb_clients (numbered g),
     tg_devices = gb_devices (numbered g),
     tg_edges = sort_key (\<lambda>e. node_key (en_from e)) (sort_key (\<lambda>e. node_key (en_to e))
                  (resolve_edges (numbered g) 0 (gb_edge_refs g)))\<rparr>"
  by (simp add: builder_finish_def numbered_def Let_def)

lemma resolve_numbered:
  assumes "link_ok {} g l"
  shows "\<exists>n. resolve_link (numbered g) l = Some n \<and> node_exists (builder_finish g) n"
proof (cases l)
  case (L_Device k)
  then have "bt_get device_cmp k (gb_devices g) \<noteq> None" using assms by (simp add: link_ok_def resolve_link_def)
  from number_get [OF this, of dn_id "\<lambda>pos v. v\<lparr>dn_id := pos\<rparr>"] show ?thesis
    by (auto simp: L_Device resolve_link_def node_exists_def builder_finish_numbered numbered_def number_nth)
next
  case (L_Client k)
  then have "bt_get ip_cmp k (gb_clients g) \<noteq> None" using assms by (simp add: link_ok_def resolve_link_def)
  from number_get [OF this, of cn_id "\<lambda>pos v. v\<lparr>cn_id := pos\<rparr>"] show ?thesis
    by (auto simp: L_Client resolve_link_def node_exists_def builder_finish_numbered numbered_def number_nth)
next
  case (L_Server k)
  then have "bt_get str_cmp k (gb_servers g) \<noteq> None" using assms by (simp add: link_ok_def resolve_link_def)
  from number_get [OF this, of sn_id "\<lambda>pos v. v\<lparr>sn_id := pos\<rparr>"] show ?thesis
    by (auto simp: L_Server resolve_link_def node_exists_def builder_finish_numbered numbered_def number_nth)
qed

lemma resolve_edges_all:
  "(\<And>e. e \<in> set es \<Longrightarrow> (\<exists>n. resolve_link g (er_from e) = Some n \<and> P n) \<and> (\<exists>n. resolve_link g (er_to e) = Some n \<and> P n)) \<Longrightarrow>
     map en_type (resolve_edges g i es) = map er_type es
     \<and> list_all (\<lambda>e. P (en_from e) \<and> P (en_to e)) (resolve_edges g i es)"
  by (induction es arbitrary: i) fastforce+

lemma filter_map_length: "length (filter (\<lambda>x. f x = c) xs) = length (filter (\<lambda>y. y = c) (map f xs))"
  by (induction xs) simp_all

lemma length_filter_sort: "length (filter P (sort_key f xs)) = length (filter P xs)"
  by (metis mset_filter mset_sort size_mset)

text \<open>C27: the topology page is closed. Whatever the servers, devices and clients are, no edge is dropped
  when links are resolved, both ends of every edge are the position of a node that carries this number,
  and every device of every server is counted by exactly one data edge and one alias of a node.\<close>

theorem topology_closed:
  "let g = from_server_state s; t = builder_finish g in
     length (tg_edges t) = length (gb_edge_refs g)
     \<and> list_all (\<lambda>e. node_exists t (en_from e) \<and> node_exists t (en_to e)) (tg_edges t)
     \<and> length (filter (\<lambda>e. en_type e = E_Data) (tg_edges t)) = device_total (sr_servers s)
     \<and> alias_count (tg_devices t) = device_total (sr_servers s)"
proof -
  define g where "g = from_server_state s"
  have "graph_ok {} builder_empty"
    by (simp add: graph_ok_def keyed_def builder_empty_def)
  from from_servers_ok [OF this, of "sr_servers s"]
  have ok: "graph_ok {} g" "data_edges g = device_total (sr_servers s)"
    "alias_count (gb_devices g) = device_total (sr_servers s)"
    by (simp_all add: g_def from_server_state_def data_edges_def alias_count_def builder_empty_def)
  define es where "es = resolve_edges (numbered g) 0 (gb_edge_refs g)"
  have es: "map en_type es = map er_type (gb_edge_refs g)"
    "list_all (\<lambda>e. node_exists (builder_finish g) (en_from e) \<and> node_exists (builder_finish g) (en_to e)) es"
    unfolding es_def using resolve_edges_all [of "gb_edge_refs g" "numbered g" "node_exists (builder_finish g)" 0]
      ok(1) resolve_numbered by (auto simp: graph_ok_def list_all_iff)
  have t: "tg_edges (builder_finish g) = sort_key (\<lambda>e. node_key (en_from e)) (sort_key (\<lambda>e. node_key (en_to e)) es)"
    by (simp add: builder_finish_numbered es_def)
  have "length es = length (gb_edge_refs g)" using arg_cong [OF es(1), of length] by simp
  moreover have "length (filter (\<lambda>e. en_type e = E_Data) es) = device_total (sr_servers s)"
    using ok(2) by (simp add: data_edges_def filter_map_length [of en_type] filter_map_length [of er_type] es(1))
  moreover have "alias_count (tg_devices (builder_finish g)) = alias_count (gb_devices g)"
    by (simp add: builder_finish_numbered numbered_def alias_count_def number_map [of "\<lambda>v. length (dn_aliases v)"])
  ultimately show ?thesis
    using es(2) ok(3) by (simp add: Let_def g_def [symmetric] t length_filter_sort list_all_iff)
qed

text \<open>The identifiers of the page are unique: no two nodes share a text.\<close>

lemma show_nat_inj: "show_nat a = show_nat b \<Longrightarrow> a = b"
  by (metis digits_val_show_nat)

theorem node_id_fmt_inj: "node_id_fmt m = node_id_fmt n \<Longrightarrow> m = n"
  by (cases m; cases n; cases "ni_type m"; cases "ni_type n")
    (auto simp: node_id_fmt_def dest: show_nat_inj)

text \<open>Two devices that name the same manufacturer and model and no serial number are one key, whatever
  their names and namespaces: a second such device becomes an alias of the first one's node.\<close>

theorem devices_without_serial_merge:
  "device_cmp \<lparr>id_manufacturer = Some mfr, id_model = model, id_serial = None, id_name = n, id_namespace = ns\<rparr>
     \<lparr>id_manufacturer = Some mfr, id_model = model, id_serial = None, id_name = n', id_namespace = ns'\<rparr> = Equal"
proof -
  have "opt_cmp str_cmp model model = Equal"
    by (rule comparator.cmp_refl [OF comparator_opt [OF comparator_str]])
  then show ?thesis by (simp add: device_cmp_def str_map.cmp_refl)
qed

end
