(* ===== verification/Http_Read.thy ===== *)
theory Http_Read
  imports Topology
begin

text \<open>
  The routes that only read: \<open>http/json_api/route/namespace.rs\<close>, \<open>ups.rs\<close> and \<open>ups_list.rs\<close>, the pages
  \<open>home.rs\<close>, \<open>ups.rs\<close>, \<open>topology.rs\<close>, \<open>connection.rs\<close>, \<open>system.rs\<close>, \<open>layout.rs\<close>, \<open>not_found.rs\<close>, and the logout of
  \<open>http/hypermedia/route\<close>. What serde and askama make of a value is a parameter; the model is the value
  they are given. Content types are left out.
\<close>

section \<open>The JSON API\<close>

record upsd_entry =
  ue_address :: string
  ue_device_count :: nat
  ue_last_sync_time :: "time option"
  ue_namespace :: string
  ue_poll_freq :: nat
  ue_poll_interval :: nat
  ue_port :: nat
  ue_protocol_version :: "string option"
  ue_status :: connection_status
  ue_tls_mode :: tls_mode
  ue_version :: "string option"

definition upsd_entry_of :: "string \<Rightarrow> upsd_state \<Rightarrow> upsd_entry" where
  "upsd_entry_of namespace upsd =
     \<lparr>ue_address = uc_addr (up_config upsd), ue_device_count = length (ds_devices (up_state upsd)),
      ue_last_sync_time = ds_last_device_sync (up_state upsd), ue_namespace = namespace,
      ue_poll_freq = uc_poll_freq (up_config upsd), ue_poll_interval = uc_poll_interval (up_config upsd),
      ue_port = uc_port (up_config upsd), ue_protocol_version = ds_prot_ver (up_state upsd),
      ue_status = ds_status (up_state upsd), ue_tls_mode = uc_tls_mode (up_config upsd),
      ue_version = ds_ver (up_state upsd)\<rparr>"

text \<open>\<open>Json(v).into_response()\<close> of axum, and \<open>serde_json\<close>'s serializer driven over a sequence.\<close>

datatype json_view = J_Upsd upsd_entry | J_Device device_entry | J_Devices "device_entry list"

record json_env =
  je_json :: "json_view \<Rightarrow> response"
  je_sequence :: "upsd_entry list \<Rightarrow> string + string"

definition problem_from_serde :: problem_detail where
  "problem_from_serde = problem ''Json error'' 500"

definition namespace_get_list :: "json_env \<Rightarrow> 'w server handler" where
  "namespace_get_list env req s =
     respond (case je_sequence env (map (\<lambda>(namespace, upsd). upsd_entry_of namespace upsd) (sr_servers s)) of
                Inr body \<Rightarrow> plain 200 body
              | Inl _ \<Rightarrow> problem_response problem_from_serde) s"

definition namespace_get :: "json_env \<Rightarrow> string \<Rightarrow> 'w server handler" where
  "namespace_get env namespace req s =
     respond (case extract_upsd s namespace of
                Inl p \<Rightarrow> problem_response p
              | Inr upsd \<Rightarrow> je_json env (J_Upsd (upsd_entry_of namespace upsd))) s"

definition ups_get :: "json_env \<Rightarrow> path_rejection + string \<times> ups_name \<Rightarrow> 'w server handler" where
  "ups_get env paths req s =
     respond (case paths of
                Inl rejection \<Rightarrow> problem_response (problem_from_path rejection)
              | Inr (namespace, ups_name) \<Rightarrow>
                  (case extract_upsd s namespace of
                     Inl p \<Rightarrow> problem_response p
                   | Inr upsd \<Rightarrow>
                       (case map_of (ds_devices (up_state upsd)) ups_name of
                          Some ups \<Rightarrow> je_json env (J_Device ups)
                        | None \<Rightarrow> problem_response (problem ''Device not found'' 404)))) s"

definition device_name_cmp :: "device_entry \<Rightarrow> device_entry \<Rightarrow> ordering" where
  "device_name_cmp a b = str_cmp (ups_str (de_name a)) (ups_str (de_name b))"

definition ups_list_get :: "json_env \<Rightarrow> string \<Rightarrow> 'w server handler" where
  "ups_list_get env namespace req s =
     respond (case extract_upsd s namespace of
                Inl p \<Rightarrow> problem_response p
              | Inr upsd \<Rightarrow> je_json env (J_Devices (sort_by device_name_cmp (map snd (ds_devices (up_state upsd)))))) s"

definition json_not_found :: "'w server handler" where
  "json_not_found req s = respond (problem_response (problem ''Route not found'' 404)) s"

text \<open>The layers of \<open>create_data_routes\<close> around a route that needs no permission.\<close>

definition read_layers :: "http_env \<Rightarrow> user_store option \<Rightarrow> nat + string option \<Rightarrow> 'w server handler \<Rightarrow> 'w server handler" where
  "read_layers env store params handler =
     option_layer (store \<noteq> None) (api_auth_call env) (daemon_state_call params handler)"

definition data_reads ::
    "http_env \<Rightarrow> user_store option \<Rightarrow> json_env \<Rightarrow> string \<Rightarrow> path_rejection + ups_name \<Rightarrow> ('w server handler) list" where
  "data_reads env store json namespace ups =
     [read_layers env store (Inr None) (namespace_get_list json),
      read_layers env store (Inr (Some namespace)) (namespace_get json namespace),
      read_layers env store (Inr (Some namespace)) (ups_list_get json namespace),
      read_layers env store (Inr (Some namespace)) (ups_get json (in_namespace namespace ups)),
      read_layers env store (Inr None) json_not_found]"

section \<open>Pages\<close>

datatype tab_name = Tab_Commands | Tab_Clients | Tab_Grid | Tab_Rw | Tab_Unknown | Tab_Variables

definition tab_visit_str :: "string \<Rightarrow> tab_name" where
  "tab_visit_str v =
     (let l = to_ascii_lowercase v in
      if l = ''commands'' then Tab_Commands
      else if l = ''clients'' then Tab_Clients
      else if l = ''grid'' then Tab_Grid
      else if l = ''rw'' then Tab_Rw
      else if l = ''variables'' then Tab_Variables
      else Tab_Unknown)"

record rw_form =
  rf_detail :: var_detail
  rf_message :: "string option"
  rf_semantic :: semantic_type
  rf_value :: "nut_value option"
  rf_device_name :: ups_name
  rf_namespace :: string
  rf_var_name :: var_name

text \<open>The tabs; the descriptions a tab reads are the table behind the shared lock.\<close>

type_synonym desc_table = "string \<rightharpoonup> string"

datatype tab_template =
    T_None
  | T_Commands desc_table device_entry string
  | T_Variables desc_table ups_name string "(var_name \<times> nut_value) list" upsd_config
  | T_Grid device_entry string upsd_config
  | T_Rw desc_table "(var_name \<times> rw_form) list" ups_name
  | T_Clients device_entry string upsd_config

fun tab_as_type_str :: "tab_template \<Rightarrow> string" where
  "tab_as_type_str T_None = ''none''"
| "tab_as_type_str (T_Commands _ _ _) = ''commands''"
| "tab_as_type_str (T_Variables _ _ _ _ _) = ''variables''"
| "tab_as_type_str (T_Grid _ _ _) = ''grid''"
| "tab_as_type_str (T_Rw _ _ _) = ''rw''"
| "tab_as_type_str (T_Clients _ _ _) = ''clients''"

record ups_page =
  pg_device :: device_entry
  pg_namespace :: string
  pg_tab :: tab_template
  pg_upsd_config :: upsd_config

record device_row =
  dr_id :: string
  dr_device :: device_entry

record home_page =
  hp_rows_html :: "(string \<times> string) list"
  hp_active_namespace :: "string option"
  hp_namespaces :: "string list"

record app_details =
  ad_version :: string
  ad_license :: string
  ad_repository :: string

text \<open>What is rendered: a template or one of its blocks.\<close>

datatype page =
    Ups_Page ups_page
  | Ups_Status_Block ups_page
  | Ups_Tab_Block ups_page
  | Table_Rows "device_row list" string
  | Home_Page home_page
  | Home_Device_Table home_page
  | Home_Device_Container home_page
  | Topology_Page topology_graph
  | Topology_Nodes topology_graph
  | Upsd_Info upsd_config daemon_state string
  | Connection_Page "(string \<times> string) list"
  | Connection_Cards "(string \<times> string) list"
  | System_Page server_config app_details "user_store option"
  | Themes_Page "string option"
  | Api_Key_Form "string option"
  | Not_Found_Page

record render_values =
  rv_base_path :: string
  rv_theme :: "string option"
  rv_user :: "string option"
  rv_permissions :: permissions

text \<open>The server's part of a page: askama (\<open>Inl\<close> is its error), the iteration order of the two hash maps
  of a device, the description table, the configuration, the users and the compiled-in details.\<close>

record page_env =
  pe_render :: "page \<Rightarrow> render_values \<Rightarrow> string + string"
  pe_error :: "string \<Rightarrow> string + string"
  pe_variables :: "ups_variables \<Rightarrow> (var_name \<times> nut_value) list"
  pe_rw_variables :: "(var_name \<rightharpoonup> var_detail) \<Rightarrow> (var_name \<times> var_detail) list"
  pe_descriptions :: desc_table
  pe_config :: server_config
  pe_users :: "user_store option"
  pe_app_info :: app_details
  pe_removal_cookie :: string

definition render_values_of :: "server_config \<Rightarrow> user_session option \<Rightarrow> render_values" where
  "render_values_of config user =
     \<lparr>rv_base_path = hc_base_path (sv_http_server config), rv_theme = sv_default_theme config,
      rv_user = map_option us_username user,
      rv_permissions = (case user of Some profile \<Rightarrow> at_permissions (us_access_token profile) | None \<Rightarrow> permissions_all)\<rparr>"

definition render_with_config :: "page_env \<Rightarrow> page \<Rightarrow> user_session option \<Rightarrow> string + string" where
  "render_with_config env page user = pe_render env page (render_values_of (pe_config env) user)"

definition error_page_response :: "page_env \<Rightarrow> string \<Rightarrow> response" where
  "error_page_response env message =
     plain 500 (case pe_error env message of Inr html \<Rightarrow> html | Inl err \<Rightarrow> ''Something went wrong '' @ err)"

text \<open>\<open>Html(template.render_with_config(...)?)\<close> with a status.\<close>

definition html_page :: "page_env \<Rightarrow> nat \<Rightarrow> page \<Rightarrow> user_session option \<Rightarrow> response" where
  "html_page env status page user =
     (case render_with_config env page user of
        Inr html \<Rightarrow> plain status html
      | Inl err \<Rightarrow> error_page_response env err)"

subsection \<open>A device\<close>

definition var_cmp :: "var_name \<Rightarrow> var_name \<Rightarrow> ordering" where
  "var_cmp a b = str_cmp (var_as_str a) (var_as_str b)"

definition rw_form_of :: "device_entry \<Rightarrow> string \<Rightarrow> var_name \<Rightarrow> var_detail \<Rightarrow> rw_form" where
  "rw_form_of device namespace name detail =
     \<lparr>rf_detail = detail, rf_message = None, rf_semantic = S_None, rf_value = de_variables device name,
      rf_device_name = de_name device, rf_namespace = namespace, rf_var_name = name\<rparr>"

text \<open>\<open>collect()\<close> into a \<open>BTreeMap\<close>.\<close>

definition rw_inputs :: "page_env \<Rightarrow> device_entry \<Rightarrow> string \<Rightarrow> (var_name \<times> rw_form) list" where
  "rw_inputs env device namespace =
     foldl (\<lambda>m (name, detail). bt_insert var_cmp name (rw_form_of device namespace name detail) m) []
       (pe_rw_variables env (de_rw_variables device))"

fun get_tab_template :: "page_env \<Rightarrow> tab_name \<Rightarrow> string \<Rightarrow> device_entry \<Rightarrow> upsd_config \<Rightarrow> tab_template" where
  "get_tab_template env Tab_Variables namespace device upsd_config =
     T_Variables (pe_descriptions env) (de_name device) namespace
       (sort_by (\<lambda>a b. var_cmp (fst a) (fst b)) (pe_variables env (de_variables device))) upsd_config"
| "get_tab_template env Tab_Commands namespace device upsd_config = T_Commands (pe_descriptions env) device namespace"
| "get_tab_template env Tab_Clients namespace device upsd_config = T_Clients device namespace upsd_config"
| "get_tab_template env Tab_Rw namespace device upsd_config =
     T_Rw (pe_descriptions env) (rw_inputs env device namespace) (de_name device)"
| "get_tab_template env _ namespace device upsd_config = T_Grid device namespace upsd_config"

definition ups_page_get ::
    "page_env \<Rightarrow> string \<Rightarrow> ups_name \<Rightarrow> string option \<Rightarrow> tab_name option \<Rightarrow> 'w server handler" where
  "ups_page_get env namespace ups_name section tab req s =
     respond
       (case map_of (sr_servers s) namespace of
          None \<Rightarrow> redirect_not_found (hc_base_path (sv_http_server (pe_config env)))
        | Some upsd \<Rightarrow>
            (case map_of (ds_devices (up_state upsd)) ups_name of
               None \<Rightarrow> redirect_not_found (hc_base_path (sv_http_server (pe_config env)))
             | Some device \<Rightarrow>
                 (let tab_name = (case tab of Some t \<Rightarrow> t | None \<Rightarrow> Tab_Grid);
                      template = \<lparr>pg_device = device, pg_namespace = namespace, pg_tab = T_None, pg_upsd_config = up_config upsd\<rparr>;
                      with_tab = template\<lparr>pg_tab := get_tab_template env tab_name namespace device (up_config upsd)\<rparr>
                  in html_page env 200
                       (if section = Some ''status'' then Ups_Status_Block template
                        else if section = Some ''tab_content'' then Ups_Tab_Block with_tab
                        else Ups_Page with_tab) (rq_session req)))) s"

subsection \<open>Overviews\<close>

definition device_rows :: "string \<Rightarrow> upsd_state \<Rightarrow> device_row list" where
  "device_rows namespace upsd =
     sort_by (\<lambda>a b. device_name_cmp (dr_device a) (dr_device b))
       (map (\<lambda>(_, device). \<lparr>dr_id = normalize_id (ups_str (de_name device)) @ ''@'' @ normalize_id namespace, dr_device = device\<rparr>)
         (ds_devices (up_state upsd)))"

definition render_device_rows :: "page_env \<Rightarrow> user_session option \<Rightarrow> string \<times> upsd_state \<Rightarrow> string + string" where
  "render_device_rows env session = (\<lambda>(namespace, upsd).
     render_with_config env (Table_Rows (device_rows namespace upsd) namespace) session)"

text \<open>The loops that render a part per daemon, each with its namespace, and return at the first error.\<close>

fun render_parts :: "(string \<times> upsd_state \<Rightarrow> string + string) \<Rightarrow> (string \<times> upsd_state) list \<Rightarrow> string + (string \<times> string) list" where
  "render_parts render [] = Inr []"
| "render_parts render (e # es) =
     bind_res (render e) (\<lambda>html. bind_res (render_parts render es) (\<lambda>rest. Inr ((html, fst e) # rest)))"

definition by_namespace :: "string \<times> string \<Rightarrow> string \<times> string \<Rightarrow> ordering" where
  "by_namespace a b = str_cmp (snd a) (snd b)"

definition home_get :: "page_env \<Rightarrow> string option \<Rightarrow> string option \<Rightarrow> 'w server handler" where
  "home_get env section namespace req s =
     (let shown =
        (case namespace of
           Some n \<Rightarrow> (case map_of (sr_servers s) n of Some upsd \<Rightarrow> [(n, upsd)] | None \<Rightarrow> sr_servers s)
         | None \<Rightarrow> sr_servers s)
      in respond
        (case render_parts (render_device_rows env (rq_session req)) shown of
           Inl err \<Rightarrow> error_page_response env err
         | Inr rendered_rows \<Rightarrow>
             (let template = \<lparr>hp_rows_html = sort_by by_namespace rendered_rows, hp_active_namespace = namespace,
                              hp_namespaces = sort_by str_cmp (map fst (sr_servers s))\<rparr>
              in html_page env 200
                   (if section = Some ''device_table'' then Home_Device_Table template
                    else if section = Some ''device_container'' then Home_Device_Container template
                    else Home_Page template) (rq_session req))) s)"

definition topology_get :: "page_env \<Rightarrow> string option \<Rightarrow> 'w server handler" where
  "topology_get env section req s =
     (let graph = builder_finish (from_server_state s)
      in respond (html_page env 200
           (if section = Some ''graph_nodes'' then Topology_Nodes graph else Topology_Page graph) (rq_session req)) s)"

definition connection_get :: "page_env \<Rightarrow> string option \<Rightarrow> 'w server handler" where
  "connection_get env section req s =
     respond
       (case render_parts (\<lambda>(namespace, upsd).
               render_with_config env (Upsd_Info (up_config upsd) (up_state upsd) namespace) (rq_session req)) (sr_servers s) of
          Inl err \<Rightarrow> error_page_response env err
        | Inr upsd_html \<Rightarrow>
            (let sorted_html = sort_by by_namespace upsd_html
             in html_page env 200
                  (if section = Some ''info_cards'' then Connection_Cards sorted_html else Connection_Page sorted_html)
                  (rq_session req))) s"

definition system_get :: "page_env \<Rightarrow> 'w server handler" where
  "system_get env req s = respond (html_page env 200 (System_Page (pe_config env) (pe_app_info env) (pe_users env)) (rq_session req)) s"

definition get_themes :: "page_env \<Rightarrow> 'w server handler" where
  "get_themes env req s = respond (html_page env 200 (Themes_Page (sv_default_theme (pe_config env))) None) s"

text \<open>The form for API keys needs a session in the request's extensions; \<open>rejection\<close> is axum's answer without one.\<close>

definition api_key_get :: "page_env \<Rightarrow> response \<Rightarrow> 'w server handler" where
  "api_key_get env rejection req s =
     respond (case rq_session req of
                Some session \<Rightarrow> html_page env 200 (Api_Key_Form None) (Some session)
              | None \<Rightarrow> rejection) s"

definition not_found_get :: "page_env \<Rightarrow> 'w server handler" where
  "not_found_get env req s = respond (html_page env 404 Not_Found_Page (rq_session req)) s"

definition logout_post :: "page_env \<Rightarrow> 'w server handler" where
  "logout_post env req s =
     respond (insert_header ''set-cookie'' (pe_removal_cookie env)
       (insert_header ''location'' (hc_base_path (sv_http_server (pe_config env)) @ ''/'') (plain 303 []))) s"

text \<open>The layers of \<open>create_hypermedia_routes\<close> around a page.\<close>

definition page_layers :: "http_env \<Rightarrow> page_env \<Rightarrow> 'w server handler \<Rightarrow> 'w server handler" where
  "page_layers henv env handler =
     htmx_redirect_call
       (case pe_users env of
          Some st \<Rightarrow>
            user_auth_call henv st (hc_base_path (sv_http_server (pe_config env)) @ ''/login'')
              (renew_session_call henv st AUTH_COOKIE_RENEW handler)
        | None \<Rightarrow> handler)"

definition page_reads ::
    "http_env \<Rightarrow> page_env \<Rightarrow> string option \<Rightarrow> string \<Rightarrow> ups_name \<Rightarrow> tab_name option \<Rightarrow> ('w server handler) list" where
  "page_reads henv env section namespace ups tab =
     map (page_layers henv env)
       [home_get env section (Some namespace), home_get env section None, topology_get env section, connection_get env section,
        system_get env, ups_page_get env namespace ups section tab, not_found_get env]"

section \<open>Lemmas\<close>

lemma snd_respond [simp]: "snd (respond r s) = s" "fst (respond r s) = Answer r"
  by (simp_all add: respond_def)

lemma snd_after_answer: "snd (after_answer f h s) = snd (h s)"
  by (simp add: after_answer_def split: prod.split)

text \<open>A layer keeps a handler from changing the state if the handler itself does not.\<close>

definition reads_only :: "'s handler \<Rightarrow> bool" where
  "reads_only h \<longleftrightarrow> (\<forall>req s. snd (h req s) = s)"

lemma reads_only_layers:
  assumes "reads_only h"
  shows "reads_only (api_auth_call henv h)" "reads_only (user_auth_call henv st login h)"
    "reads_only (renew_session_call henv st d h)" "reads_only (htmx_redirect_call h)"
  using assms
  by (auto simp: reads_only_def api_auth_call_def user_auth_call_def renew_session_call_def htmx_redirect_call_def
      snd_after_answer split: sum.split option.split)

lemma reads_only_daemon_state: "reads_only h \<Longrightarrow> reads_only (daemon_state_call params h)"
  unfolding reads_only_def daemon_state_call_def
  by (auto split: sum.split option.split connection_status.split)

lemma reads_only_read_layers: "reads_only h \<Longrightarrow> reads_only (read_layers henv store params h)"
  by (simp add: read_layers_def option_layer_def reads_only_layers reads_only_daemon_state)

lemma reads_only_page_layers: "reads_only h \<Longrightarrow> reads_only (page_layers henv env h)"
  by (simp add: page_layers_def reads_only_layers split: option.split)

lemma handlers_read_only:
  "reads_only (namespace_get_list json)" "reads_only (namespace_get json ns)" "reads_only (ups_list_get json ns)"
  "reads_only (ups_get json paths)" "reads_only json_not_found"
  "reads_only (home_get env section ns')" "reads_only (topology_get env section)" "reads_only (connection_get env section)"
  "reads_only (system_get env)" "reads_only (ups_page_get env ns ups section tab)" "reads_only (not_found_get env)"
  "reads_only (get_themes env)" "reads_only (logout_post env)" "reads_only (api_key_get env rejection)"
  by (simp_all add: reads_only_def namespace_get_list_def namespace_get_def ups_list_get_def ups_get_def json_not_found_def
      home_get_def topology_get_def connection_get_def system_get_def ups_page_get_def not_found_get_def
      get_themes_def logout_post_def api_key_get_def Let_def)

definition login_answer :: "request \<Rightarrow> string \<Rightarrow> answer" where
  "login_answer req login =
     Answer (if rq_hx_request req then insert_header ''hx-redirect'' login (plain 200 [])
             else insert_header ''location'' login (plain 303 []))"

lemma read_layers_refused:
  "extract_bearer_token henv (rq_authorization req) = Inl e \<Longrightarrow>
     fst (read_layers henv (Some st) params h req s) = Answer unauthorized"
  by (simp add: read_layers_def option_layer_def api_auth_call_def)

lemma page_layers_refused:
  "extract_user_session henv st (rq_cookie req) = Inl e \<Longrightarrow> pe_users env = Some st \<Longrightarrow>
     fst (page_layers henv env h req s) = login_answer req (hc_base_path (sv_http_server (pe_config env)) @ ''/login'')"
  by (simp add: page_layers_def htmx_redirect_call_def user_auth_call_def login_answer_def after_answer_def respond_def
      htmx_redirect_def plain_def insert_header_def)

section \<open>Properties\<close>

text \<open>reading is guarded and changes nothing. When the server has users, a route of the JSON API that
  only reads answers 401 to every request without a signed, active token, and a page sends every
  request without the session of a known user to the login page, whatever the state of the server
  is: such an answer tells nothing about it. And no read, with or without a token, changes the
  state of the server or writes on a connection.\<close>

theorem reads_guarded:
  fixes s :: "'w server"
  shows "list_all (\<lambda>route. snd (route req s) = s
      \<and> (is_ok (extract_bearer_token henv (rq_authorization req)) \<or> fst (route req s) = Answer unauthorized))
    (data_reads henv (Some store) json namespace path)
   \<and> list_all (\<lambda>route. snd (route req s) = s
      \<and> (is_ok (extract_user_session henv store (rq_cookie req))
         \<or> fst (route req s) = login_answer req (hc_base_path (sv_http_server (pe_config env)) @ ''/login'')))
    (page_reads henv (env\<lparr>pe_users := Some store\<rparr>) section namespace ups tab)"
proof (rule conjI)
  have data: "list_all reads_only (data_reads henv (Some store) json namespace path :: ('w server handler) list)"
    by (simp add: data_reads_def reads_only_read_layers handlers_read_only)
  show "list_all (\<lambda>route. snd (route req s) = s
      \<and> (is_ok (extract_bearer_token henv (rq_authorization req)) \<or> fst (route req s) = Answer unauthorized))
    (data_reads henv (Some store) json namespace path)"
  proof (cases "extract_bearer_token henv (rq_authorization req)")
    case (Inl e)
    have "list_all (\<lambda>route. fst (route req s) = Answer unauthorized) (data_reads henv (Some store) json namespace path)"
      using Inl by (simp add: data_reads_def read_layers_refused)
    with data show ?thesis by (simp add: list_all_iff reads_only_def)
  next
    case (Inr t)
    with data show ?thesis by (simp add: list_all_iff reads_only_def is_ok_def)
  qed
  let ?env = "env\<lparr>pe_users := Some store\<rparr>"
  have page: "list_all reads_only (page_reads henv ?env section namespace ups tab :: ('w server handler) list)"
    by (simp add: page_reads_def reads_only_page_layers handlers_read_only)
  show "list_all (\<lambda>route. snd (route req s) = s
      \<and> (is_ok (extract_user_session henv store (rq_cookie req))
         \<or> fst (route req s) = login_answer req (hc_base_path (sv_http_server (pe_config env)) @ ''/login'')))
    (page_reads henv ?env section namespace ups tab)"
  proof (cases "extract_user_session henv store (rq_cookie req)")
    case (Inl e)
    have "list_all (\<lambda>route. fst (route req s) = login_answer req (hc_base_path (sv_http_server (pe_config env)) @ ''/login''))
        (page_reads henv ?env section namespace ups tab)"
      using Inl by (simp add: page_reads_def page_layers_refused [where env = ?env])
    with page show ?thesis by (simp add: list_all_iff reads_only_def)
  next
    case (Inr t)
    with page show ?thesis by (simp add: list_all_iff reads_only_def is_ok_def)
  qed
qed

lemma comparator_device_name: "comparator device_name_cmp"
  using comparator_on [OF comparator_str, of "\<lambda>d. ups_str (de_name d)"] by (simp add: device_name_cmp_def [abs_def])

interpretation by_name: comparator device_name_cmp by (rule comparator_device_name)

lemma comparator_var: "comparator (\<lambda>a b. var_cmp (fst a) (fst b))"
  using comparator_on [OF comparator_str, of "\<lambda>p. var_as_str (fst p)"] by (simp add: var_cmp_def)

interpretation by_var: comparator "\<lambda>a b. var_cmp (fst a) (fst b)" by (rule comparator_var)


definition plain_json :: json_env where
  "plain_json = \<lparr>je_json = (\<lambda>v. case v of J_Devices ds \<Rightarrow> plain 200 (concat (map (ups_str \<circ> de_name) ds)) | _ \<Rightarrow> plain 200 []),
     je_sequence = (\<lambda>_. Inr [])\<rparr>"

definition bare_device :: "string \<Rightarrow> device_entry" where
  "bare_device n = \<lparr>de_attached = [], de_commands = [], de_desc = [], de_last_modified = 0, de_name = UpsName n,
     de_rw_variables = Map.empty, de_status = 0, de_variables = Map.empty\<rparr>"

definition two_devices :: "unit server" where
  "two_devices = \<lparr>sr_servers = [(''rack'', \<lparr>up_config = upsd_default,
       up_state = daemon_state_new\<lparr>ds_status := Online,
         ds_devices := [(UpsName ''b'', bare_device ''b''), (UpsName ''a'', bare_device ''a'')]\<rparr>, up_pool = ip_new 4\<rparr>)],
     sr_world = (), sr_used = []\<rparr>"

definition no_headers :: request where
  "no_headers = \<lparr>rq_authorization = None, rq_cookie = None, rq_hx_request = False, rq_content_length = None, rq_token = None, rq_session = None\<rparr>"


text \<open>The variables tab: if the hash map's iteration yields its entries, the tab lists exactly the device's
  variables in the order of their names.\<close>

theorem variables_tab_exact:
  assumes "map_of (pe_variables env (de_variables d)) = de_variables d"
    and "distinct (map fst (pe_variables env (de_variables d)))"
  shows "\<exists>vs. get_tab_template env Tab_Variables ns d cfg = T_Variables (pe_descriptions env) (de_name d) ns vs cfg
     \<and> sorted_wrt (not_after (\<lambda>a b. var_cmp (fst a) (fst b))) vs
     \<and> (\<forall>n v. (n, v) \<in> set vs \<longleftrightarrow> de_variables d n = Some v)"
proof -
  let ?it = "pe_variables env (de_variables d)"
  have "(n, v) \<in> set ?it \<longleftrightarrow> de_variables d n = Some v" for n v
    using map_of_eq_Some_iff [OF assms(2), of n v] assms(1) by simp
  then show ?thesis using by_var.sorted_sort_by [of ?it] by auto
qed

end
