(* ===== verification/Event_Api.thy ===== *)
theory Event_Api
  imports Http_Auth Daemon_State
begin

text \<open>
  The event stream over web sockets: \<open>http/event_api.rs\<close> and \<open>http/event_api/\<close> (the messages, the service
  that serializes system events, the handshake and the two tasks of a connection), and the shutdown
  of \<open>background_service.rs\<close>. Serializing to JSON is \<open>serde_json\<close>'s, a parameter. A socket records what
  was sent; it may fail after some number of operations. What arrives at a connection, from the
  peer and from the broadcast channel, is a schedule, in the order in which the tasks see it.
\<close>

section \<open>Messages\<close>

datatype handshake_error =
    ConnectionClosed
  | ExpiredKey
  | InvalidAccessToken
  | InvalidHandshakeMessage
  | SerializeError string
  | SocketError string
  | TimedOut

fun handshake_error_fmt :: "handshake_error \<Rightarrow> string" where
  "handshake_error_fmt ConnectionClosed = ''connection closed unexpectedly''"
| "handshake_error_fmt ExpiredKey = ''key has expired''"
| "handshake_error_fmt InvalidAccessToken = ''invalid access token''"
| "handshake_error_fmt InvalidHandshakeMessage = ''invalid handshake message received''"
| "handshake_error_fmt (SerializeError inner) = inner"
| "handshake_error_fmt (SocketError inner) = inner"
| "handshake_error_fmt TimedOut = ''handshake timed out''"

datatype send_error = SessionExpired | SendSocketError string

datatype event_message =
    M_DeviceConnected ups_name string int
  | M_DeviceRemoved ups_name string int
  | M_DeviceUpdate ups_name string int
  | M_DeviceStatus ups_name string ups_status ups_status "ups_event set" int
  | M_DaemonStatus string connection_status int
  | M_ClientConnect ip_addr ups_name string int
  | M_ClientDisconnect ip_addr ups_name string int
  | M_HandshakeError handshake_error
  | M_SessionEnded
  | M_WaitingForAuth
  | M_AuthOk

type_synonym to_json = "event_message \<Rightarrow> string + string"

section \<open>The serializing service\<close>

text \<open>The loops that serialize and push; the first error ends them.\<close>

fun push_messages :: "to_json \<Rightarrow> event_message list \<Rightarrow> string list \<Rightarrow> string + string list" where
  "push_messages to_json [] data = Inr data"
| "push_messages to_json (message # messages) data =
     (case to_json message of Inl e \<Rightarrow> Inl e | Inr v \<Rightarrow> push_messages to_json messages (data @ [v]))"

definition process_device_addition where
  "process_device_addition to_json devices namespace timestamp =
     push_messages to_json (map (\<lambda>name. M_DeviceConnected name namespace timestamp) devices) []"

definition process_device_removal where
  "process_device_removal to_json devices namespace timestamp =
     push_messages to_json (map (\<lambda>name. M_DeviceRemoved name namespace timestamp) devices) []"

definition process_device_update where
  "process_device_update to_json devices namespace timestamp =
     push_messages to_json (map (\<lambda>name. M_DeviceUpdate name namespace timestamp) devices) []"

definition process_device_status_update where
  "process_device_status_update to_json changes namespace timestamp =
     push_messages to_json
       (map (\<lambda>change. M_DeviceStatus (sc_name change) namespace (sc_new change) (sc_old change)
          (events_new (sc_old change) (sc_new change)) timestamp) changes) []"

definition process_daemon_state where
  "process_daemon_state to_json status namespace timestamp =
     push_messages to_json [M_DaemonStatus namespace status timestamp] []"

definition process_client_connect where
  "process_client_connect to_json devices namespace timestamp =
     push_messages to_json (concat (map (\<lambda>client_info.
       map (\<lambda>client_ip. M_ClientConnect client_ip (dc_name client_info) namespace timestamp) (dc_clients client_info)) devices)) []"

definition process_client_disconnect where
  "process_client_disconnect to_json devices namespace timestamp =
     push_messages to_json (concat (map (\<lambda>client_info.
       map (\<lambda>client_ip. M_ClientDisconnect client_ip (dc_name client_info) namespace timestamp) (dc_clients client_info)) devices)) []"

fun event_payload :: "to_json \<Rightarrow> int \<Rightarrow> system_event \<Rightarrow> string + string list" where
  "event_payload to_json timestamp (DeviceAddition devices namespace) = process_device_addition to_json devices namespace timestamp"
| "event_payload to_json timestamp (DeviceRemoval devices namespace) = process_device_removal to_json devices namespace timestamp"
| "event_payload to_json timestamp (DeviceUpdate devices namespace) = process_device_update to_json devices namespace timestamp"
| "event_payload to_json timestamp (DeviceStatusChange changes namespace) = process_device_status_update to_json changes namespace timestamp"
| "event_payload to_json timestamp (DaemonStatusUpdate status namespace) = process_daemon_state to_json status namespace timestamp"
| "event_payload to_json timestamp (ClientConnection devices namespace) = process_client_connect to_json devices namespace timestamp"
| "event_payload to_json timestamp (ClientDisconnection devices namespace) = process_client_disconnect to_json devices namespace timestamp"

text \<open>\<open>SerializeTask::next\<close>: what is broadcast, if there is anything and anybody listens.\<close>

definition serialize_next :: "to_json \<Rightarrow> nat \<Rightarrow> int \<Rightarrow> system_event \<Rightarrow> string list option" where
  "serialize_next to_json receiver_count timestamp event =
     (if receiver_count < 1 then None
      else (case event_payload to_json timestamp event of Inr payload \<Rightarrow> Some payload | Inl _ \<Rightarrow> None))"

text \<open>The service's loop over what its receiver yields, with the number of listeners and the clock at that
  moment, until the channel is closed or the token cancelled: what it broadcasts.\<close>

datatype bus_event = Bus_Ok nat int system_event | Bus_Lagged nat | Bus_Closed | Bus_Cancelled

fun broadcast_run :: "to_json \<Rightarrow> bus_event list \<Rightarrow> string list list" where
  "broadcast_run to_json [] = []"
| "broadcast_run to_json (Bus_Ok receiver_count timestamp event # rest) =
     (case serialize_next to_json receiver_count timestamp event of Some payload \<Rightarrow> [payload] | None \<Rightarrow> [])
     @ broadcast_run to_json rest"
| "broadcast_run to_json (Bus_Lagged n # rest) = broadcast_run to_json rest"
| "broadcast_run to_json (Bus_Closed # rest) = []"
| "broadcast_run to_json (Bus_Cancelled # rest) = []"

section \<open>Sockets\<close>

record sink =
  sk_out :: "string list"
  sk_left :: "nat option"

definition sink_op :: "(string list \<Rightarrow> string list) \<Rightarrow> sink \<Rightarrow> string + sink" where
  "sink_op f s =
     (case sk_left s of
        None \<Rightarrow> Inr (s\<lparr>sk_out := f (sk_out s)\<rparr>)
      | Some 0 \<Rightarrow> Inl ''socket failed''
      | Some (Suc n) \<Rightarrow> Inr (s\<lparr>sk_out := f (sk_out s), sk_left := Some n\<rparr>))"

definition sink_feed :: "string \<Rightarrow> sink \<Rightarrow> string + sink" where
  "sink_feed message = sink_op (\<lambda>out. out @ [message])"

definition sink_flush :: "sink \<Rightarrow> string + sink" where
  "sink_flush = sink_op (\<lambda>out. out)"

text \<open>\<open>msg.try_into()\<close> and sending, with the error dropped: \<open>if let Ok(msg) ... _ = send(msg).await\<close>.\<close>

definition try_send :: "to_json \<Rightarrow> event_message \<Rightarrow> sink \<Rightarrow> sink" where
  "try_send to_json m s =
     (case to_json m of Inr msg \<Rightarrow> (case sink_feed msg s of Inr s \<Rightarrow> s | Inl _ \<Rightarrow> s) | Inl _ \<Rightarrow> s)"

record session_info =
  si_start :: nat
  si_duration :: nat

definition is_expired :: "nat \<Rightarrow> session_info \<Rightarrow> bool" where
  "is_expired now s \<longleftrightarrow> now - si_start s \<ge> si_duration s"

section \<open>The handshake\<close>

datatype ws_message = Text string | Binary | Ping | Pong | Close

datatype ws_recv = Recv ws_message | Recv_Err string | Recv_End

definition send_or_fail :: "to_json \<Rightarrow> event_message \<Rightarrow> sink \<Rightarrow> handshake_error + sink" where
  "send_or_fail to_json m s =
     bind_res (map_err SerializeError (to_json m)) (\<lambda>msg. map_err SocketError (sink_feed msg s))"

definition strip_prefix :: "string \<Rightarrow> string \<Rightarrow> string option" where
  "strip_prefix p s = (if prefix p s then Some (drop (length p) s) else None)"

definition handshake_login :: "to_json \<Rightarrow> http_env \<Rightarrow> nat \<Rightarrow> string \<Rightarrow> sink \<Rightarrow> (handshake_error + session_info) \<times> sink" where
  "handshake_login to_json env start content s =
     (case strip_prefix ''LOGIN:'' content of
        None \<Rightarrow> (Inl InvalidHandshakeMessage, s)
      | Some key \<Rightarrow>
          (case he_decode env (trim key) of
             None \<Rightarrow> (Inl InvalidAccessToken, s)
           | Some bytes \<Rightarrow>
               (case signer_from_bytes (he_hmac env) (he_server_key env) access_token_from_bytes bytes of
                  Inl _ \<Rightarrow> (Inl InvalidAccessToken, s)
                | Inr access_token \<Rightarrow>
                    if is_active (he_now env) access_token then
                      (case send_or_fail to_json M_AuthOk s of
                         Inl e \<Rightarrow> (Inl e, s)
                       | Inr s \<Rightarrow> (Inr \<lparr>si_start = start, si_duration = unat (ttl (he_now env) access_token)\<rparr>, s))
                    else (Inl ExpiredKey, s))))"

text \<open>The loop over what the peer sends; when nothing decides it, the timer fires.\<close>

fun handshake_loop :: "to_json \<Rightarrow> http_env \<Rightarrow> nat \<Rightarrow> ws_recv list \<Rightarrow> sink \<Rightarrow> (handshake_error + session_info) \<times> sink" where
  "handshake_loop to_json env start [] s = (Inl TimedOut, s)"
| "handshake_loop to_json env start (Recv (Text content) # rest) s = handshake_login to_json env start content s"
| "handshake_loop to_json env start (Recv Binary # rest) s = (Inl InvalidHandshakeMessage, s)"
| "handshake_loop to_json env start (Recv Ping # rest) s = handshake_loop to_json env start rest s"
| "handshake_loop to_json env start (Recv Pong # rest) s = handshake_loop to_json env start rest s"
| "handshake_loop to_json env start (Recv Close # rest) s = (Inl ConnectionClosed, s)"
| "handshake_loop to_json env start (Recv_Err e # rest) s = (Inl (SocketError e), s)"
| "handshake_loop to_json env start (Recv_End # rest) s = (Inl ConnectionClosed, s)"

definition auth_handshake :: "to_json \<Rightarrow> http_env \<Rightarrow> nat \<Rightarrow> ws_recv list \<Rightarrow> sink \<Rightarrow> (handshake_error + session_info) \<times> sink" where
  "auth_handshake to_json env start peer s =
     (case send_or_fail to_json M_WaitingForAuth s of
        Inl e \<Rightarrow> (Inl e, s)
      | Inr s \<Rightarrow> handshake_loop to_json env start peer s)"

section \<open>A connection\<close>

fun feed_all :: "string list \<Rightarrow> sink \<Rightarrow> string option \<times> sink" where
  "feed_all [] s = (None, s)"
| "feed_all (message # messages) s = (case sink_feed message s of Inl e \<Rightarrow> (Some e, s) | Inr s \<Rightarrow> feed_all messages s)"

definition send_payload :: "session_info option \<Rightarrow> nat \<Rightarrow> string list \<Rightarrow> sink \<Rightarrow> (send_error + unit) \<times> sink" where
  "send_payload session now payload s =
     (if (case session of Some v \<Rightarrow> is_expired now v | None \<Rightarrow> False) then (Inl SessionExpired, s)
      else (case feed_all payload s of
              (Some e, s) \<Rightarrow> (Inl (SendSocketError e), s)
            | (None, s) \<Rightarrow> (case sink_flush s of Inl e \<Rightarrow> (Inl (SendSocketError e), s) | Inr s \<Rightarrow> (Inr (), s))))"

definition end_with_notify :: "to_json \<Rightarrow> sink \<Rightarrow> sink" where
  "end_with_notify to_json s = try_send to_json M_SessionEnded s"

text \<open>What the two tasks of a connection see: a broadcast payload (at some time), the loss of some,
  the end of the channel, something from the peer, and the sending task noticing the
  cancellation. The receiving task cancels on anything but ping and pong.\<close>

datatype ws_event = Payload nat "string list" | Lagged nat | Closed | Incoming ws_recv | Cancelled

fun cancels :: "ws_recv \<Rightarrow> bool" where
  "cancels (Recv Ping) = False"
| "cancels (Recv Pong) = False"
| "cancels _ = True"

fun connection :: "to_json \<Rightarrow> session_info option \<Rightarrow> bool \<Rightarrow> ws_event list \<Rightarrow> sink \<Rightarrow> sink" where
  "connection to_json session cancelled [] s = s"
| "connection to_json session cancelled (Payload now payload # rest) s =
     (case send_payload session now payload s of
        (Inr _, s) \<Rightarrow> connection to_json session cancelled rest s
      | (Inl (SendSocketError _), s) \<Rightarrow> s
      | (Inl SessionExpired, s) \<Rightarrow> end_with_notify to_json s)"
| "connection to_json session cancelled (Lagged n # rest) s = connection to_json session cancelled rest s"
| "connection to_json session cancelled (Closed # rest) s = s"
| "connection to_json session cancelled (Incoming m # rest) s = connection to_json session (cancelled \<or> cancels m) rest s"
| "connection to_json session cancelled (Cancelled # rest) s =
     (if cancelled then end_with_notify to_json s else connection to_json session cancelled rest s)"

definition handler_with_auth :: "to_json \<Rightarrow> http_env \<Rightarrow> nat \<Rightarrow> ws_recv list \<Rightarrow> ws_event list \<Rightarrow> sink \<Rightarrow> sink" where
  "handler_with_auth to_json env start peer events s =
     (case auth_handshake to_json env start peer s of
        (Inr session, s) \<Rightarrow> connection to_json (Some session) False events s
      | (Inl ConnectionClosed, s) \<Rightarrow> s
      | (Inl err, s) \<Rightarrow> try_send to_json M_SessionEnded (try_send to_json (M_HandshakeError err) s))"

definition wss_handler :: "to_json \<Rightarrow> ws_event list \<Rightarrow> sink \<Rightarrow> sink" where
  "wss_handler to_json events s = connection to_json None False events s"

section \<open>Stopping background services\<close>

text \<open>\<open>RunnerHandle::stop\<close>: for every service the time it needs after the cancellation (\<open>None\<close>: for ever).
  All timers run side by side with the same limit; \<open>try_join_all\<close> returns with the first error, and
  only the future that produced it has aborted its service. The result is the index of the aborted
  service.\<close>

fun runner_stop :: "nat \<Rightarrow> nat option list \<Rightarrow> nat option" where
  "runner_stop wait_timeout [] = None"
| "runner_stop wait_timeout (t # ts) =
     (if (case t of None \<Rightarrow> True | Some n \<Rightarrow> wait_timeout < n) then Some 0 else map_option Suc (runner_stop wait_timeout ts))"

section \<open>What a socket may carry\<close>

text \<open>From one sink to another only texts with some property were sent.\<close>

definition only :: "(string \<Rightarrow> bool) \<Rightarrow> sink \<Rightarrow> sink \<Rightarrow> bool" where
  "only P s s' \<longleftrightarrow> (\<exists>sent. sk_out s' = sk_out s @ sent \<and> list_all P sent)"

lemma only_refl [simp]: "only P s s"
  by (simp add: only_def)

lemma only_trans: "only P a b \<Longrightarrow> only P b c \<Longrightarrow> only P a c"
  by (auto simp: only_def)

lemma sink_feed_only: "sink_feed m s = Inr s' \<Longrightarrow> P m \<Longrightarrow> only P s s'"
  by (auto simp: sink_feed_def sink_op_def only_def split: option.splits nat.splits)

lemma sink_flush_only: "sink_flush s = Inr s' \<Longrightarrow> only P s s'"
  by (auto simp: sink_flush_def sink_op_def only_def split: option.splits nat.splits)

definition control_text :: "to_json \<Rightarrow> string \<Rightarrow> bool" where
  "control_text to_json t \<longleftrightarrow>
     (\<exists>m. (m \<in> {M_WaitingForAuth, M_AuthOk, M_SessionEnded} \<or> (\<exists>e. m = M_HandshakeError e)) \<and> to_json m = Inr t)"

lemma try_send_only: "(\<And>t. to_json m = Inr t \<Longrightarrow> P t) \<Longrightarrow> only P s (try_send to_json m s)"
  by (auto simp: try_send_def intro: sink_feed_only split: sum.splits)

lemma send_or_fail_only: "send_or_fail to_json m s = Inr s' \<Longrightarrow> (\<And>t. to_json m = Inr t \<Longrightarrow> P t) \<Longrightarrow> only P s s'"
  by (auto simp: send_or_fail_def bind_res_eq_Inr intro: sink_feed_only)

lemma feed_all_only: "feed_all ms s = (r, s') \<Longrightarrow> list_all P ms \<Longrightarrow> only P s s'"
proof (induction ms s arbitrary: r s' rule: feed_all.induct)
  case (2 m ms s)
  then show ?case
    by (auto split: sum.splits intro: only_trans sink_feed_only)
qed simp

lemma send_payload_only:
  assumes "send_payload session now payload s = (r, s')"
    "(case session of Some v \<Rightarrow> \<not> is_expired now v | None \<Rightarrow> True) \<Longrightarrow> list_all P payload"
  shows "only P s s'"
proof (cases "case session of Some v \<Rightarrow> is_expired now v | None \<Rightarrow> False")
  case True
  then show ?thesis using assms(1) by (simp add: send_payload_def)
next
  case False
  then have P: "list_all P payload" using assms(2) by (simp split: option.splits)
  obtain e s1 where f: "feed_all payload s = (e, s1)" by fastforce
  have "only P s s1" using f P by (rule feed_all_only)
  moreover have "s' = s1 \<or> sink_flush s1 = Inr s'"
    using assms(1) False f by (auto simp: send_payload_def split: option.splits sum.splits)
  ultimately show ?thesis using only_trans sink_flush_only by metis
qed

lemma connection_only:
  assumes "\<And>t. to_json M_SessionEnded = Inr t \<Longrightarrow> P t"
    "\<And>now payload. Payload now payload \<in> set events \<Longrightarrow>
       (case session of Some v \<Rightarrow> \<not> is_expired now v | None \<Rightarrow> True) \<Longrightarrow> list_all P payload"
  shows "only P s (connection to_json session cancelled events s)"
  using assms(2)
proof (induction events arbitrary: s cancelled)
  case (Cons e events)
  have notify: "only P s (end_with_notify to_json s)" for s
    unfolding end_with_notify_def using assms(1) by (rule try_send_only)
  show ?case
  proof (cases e)
    case (Payload now payload)
    obtain r s1 where r: "send_payload session now payload s = (r, s1)" by fastforce
    have "only P s s1" using r Cons.prems [of now payload] Payload by (intro send_payload_only) auto
    moreover have "only P s1 (connection to_json session cancelled (e # events) s)"
      if "r = Inr ()"
    proof -
      have "only P s1 (connection to_json session cancelled events s1)"
        using Cons.prems by (intro Cons.IH) auto
      then show ?thesis using that Payload r by simp
    qed
    ultimately show ?thesis
      using Payload r notify [of s1] by (auto intro: only_trans split: sum.splits send_error.splits)
  qed (use Cons notify in auto)
qed simp

lemma handshake_loop_login:
  "handshake_loop to_json env start peer s = (r, s') \<Longrightarrow> s' = s \<and> \<not> is_ok r \<or>
     (\<exists>pre content rest. peer = pre @ Recv (Text content) # rest \<and> list_all (\<lambda>m. \<not> cancels m) pre
        \<and> handshake_login to_json env start content s = (r, s'))"
proof (induction peer)
  case (Cons m peer)
  consider (skip) "\<not> cancels m" | (login) content where "m = Recv (Text content)" | (fail) "cancels m" "\<nexists>content. m = Recv (Text content)"
    by blast
  then show ?case
  proof cases
    case skip
    then have "handshake_loop to_json env start peer s = (r, s')"
      using Cons.prems by (cases m rule: cancels.cases) auto
    from Cons.IH [OF this] show ?thesis
    proof
      assume "\<exists>pre content rest. peer = pre @ Recv (Text content) # rest \<and> list_all (\<lambda>m. \<not> cancels m) pre
        \<and> handshake_login to_json env start content s = (r, s')"
      then obtain pre content rest where "peer = pre @ Recv (Text content) # rest" "list_all (\<lambda>m. \<not> cancels m) pre"
        "handshake_login to_json env start content s = (r, s')" by blast
      then show ?thesis
        using skip by (intro disjI2 exI [of _ "m # pre"] exI [of _ content] exI [of _ rest]) simp
    qed simp
  next
    case login
    then show ?thesis
      using Cons.prems by (intro disjI2 exI [of _ "[]"] exI [of _ content] exI [of _ peer]) simp
  next
    case fail
    then show ?thesis
      using Cons.prems by (cases m; cases "case m of Recv x \<Rightarrow> x | _ \<Rightarrow> Ping") auto
  qed
qed auto

lemma handshake_login_ok:
  assumes "handshake_login to_json env start content s = (r, s')"
  shows "only (control_text to_json) s s'
    \<and> (\<forall>session. r = Inr session \<longrightarrow> (\<exists>key token. content = ''LOGIN:'' @ key
        \<and> he_decode env (trim key) = Some (sign_token (he_hmac env) (he_server_key env) access_token_as_bytes token)
        \<and> is_active (he_now env) token \<and> session = \<lparr>si_start = start, si_duration = unat (ttl (he_now env) token)\<rparr>))"
proof -
  have ok: "send_or_fail to_json M_AuthOk s = Inr s1 \<Longrightarrow> only (control_text to_json) s s1" for s1
    by (erule send_or_fail_only) (auto simp: control_text_def)
  show ?thesis
    using assms
    by (auto simp: handshake_login_def strip_prefix_def prefix_def split: option.splits sum.splits if_splits
        dest!: access.accepted_signed intro: ok)
qed

lemma auth_handshake_ok:
  assumes "auth_handshake to_json env start peer s = (r, s')"
  shows "only (control_text to_json) s s'
    \<and> (\<forall>session. r = Inr session \<longrightarrow> (\<exists>pre key rest token. peer = pre @ Recv (Text (''LOGIN:'' @ key)) # rest
        \<and> list_all (\<lambda>m. \<not> cancels m) pre
        \<and> he_decode env (trim key) = Some (sign_token (he_hmac env) (he_server_key env) access_token_as_bytes token)
        \<and> is_active (he_now env) token \<and> session = \<lparr>si_start = start, si_duration = unat (ttl (he_now env) token)\<rparr>))"
proof (cases "send_or_fail to_json M_WaitingForAuth s")
  case (Inl e)
  then show ?thesis using assms by (auto simp: auth_handshake_def)
next
  case (Inr s1)
  then have w: "only (control_text to_json) s s1"
    by (rule send_or_fail_only) (auto simp: control_text_def)
  have l: "handshake_loop to_json env start peer s1 = (r, s')" using assms Inr by (simp add: auth_handshake_def)
  from handshake_loop_login [OF this] show ?thesis
  proof
    assume "s' = s1 \<and> \<not> is_ok r"
    then show ?thesis using w by auto
  next
    assume "\<exists>pre content rest. peer = pre @ Recv (Text content) # rest \<and> list_all (\<lambda>m. \<not> cancels m) pre
        \<and> handshake_login to_json env start content s1 = (r, s')"
    then obtain pre content rest where p: "peer = pre @ Recv (Text content) # rest" "list_all (\<lambda>m. \<not> cancels m) pre"
      "handshake_login to_json env start content s1 = (r, s')" by blast
    show ?thesis
    proof (intro conjI allI impI)
      show "only (control_text to_json) s s'"
        by (rule only_trans [OF w handshake_login_ok [OF p(3), THEN conjunct1]])
      fix session
      assume "r = Inr session"
      then obtain key token where k: "content = ''LOGIN:'' @ key"
        "he_decode env (trim key) = Some (sign_token (he_hmac env) (he_server_key env) access_token_as_bytes token)"
        "is_active (he_now env) token" "session = \<lparr>si_start = start, si_duration = unat (ttl (he_now env) token)\<rparr>"
        using handshake_login_ok [OF p(3)] by blast
      show "\<exists>pre key rest token. peer = pre @ Recv (Text (''LOGIN:'' @ key)) # rest \<and> list_all (\<lambda>m. \<not> cancels m) pre
        \<and> he_decode env (trim key) = Some (sign_token (he_hmac env) (he_server_key env) access_token_as_bytes token)
        \<and> is_active (he_now env) token \<and> session = \<lparr>si_start = start, si_duration = unat (ttl (he_now env) token)\<rparr>"
        using k p(1,2) by (intro exI [of _ pre] exI [of _ key] exI [of _ rest] exI [of _ token] conjI) simp_all
    qed
  qed
qed

section \<open>Properties\<close>

text \<open>C25: Events reach only peers that have logged in, and only while their key is valid. Whatever the
  peer sends and whatever is broadcast, in any order and with any failure of the socket, a
  connection with authentication carries nothing but control messages and payloads of the
  broadcast; a payload is on it only if the peer's first message besides ping and pong was
  \<open>LOGIN:\<close> with a token signed by the server and active at that time, and the payload was sent
  before the lifetime the token then had was over.\<close>

theorem event_stream_guarded:
  "\<exists>sent. sk_out (handler_with_auth to_json env start peer events s) = sk_out s @ sent
     \<and> list_all (\<lambda>sent_text. control_text to_json sent_text
          \<or> (\<exists>pre key rest token now payload. peer = pre @ Recv (Text (''LOGIN:'' @ key)) # rest
               \<and> list_all (\<lambda>m. \<not> cancels m) pre
               \<and> he_decode env (trim key) = Some (sign_token (he_hmac env) (he_server_key env) access_token_as_bytes token)
               \<and> is_active (he_now env) token
               \<and> Payload now payload \<in> set events \<and> sent_text \<in> set payload
               \<and> now - start < unat (ttl (he_now env) token))) sent"
  (is "\<exists>sent. _ = _ \<and> list_all ?P sent")
proof -
  obtain r s1 where h: "auth_handshake to_json env start peer s = (r, s1)" by fastforce
  have c: "control_text to_json t" if "to_json M_SessionEnded = Inr t \<or> (\<exists>e. to_json (M_HandshakeError e) = Inr t)" for t
    using that by (auto simp: control_text_def)
  have weak: "only ?P a b" if "only (control_text to_json) a b" for a b
    using that by (auto simp: only_def list_all_iff)
  have "only (control_text to_json) s s1" using auth_handshake_ok [OF h] by blast
  then have first: "only ?P s s1" by (rule weak)
  have "only ?P s (handler_with_auth to_json env start peer events s)"
  proof (cases r)
    case (Inl e)
    have "only (control_text to_json) s1 (try_send to_json M_SessionEnded (try_send to_json (M_HandshakeError e) s1))"
      by (intro only_trans [OF try_send_only try_send_only]) (auto intro: c)
    then have "only ?P s1 (try_send to_json M_SessionEnded (try_send to_json (M_HandshakeError e) s1))" by (rule weak)
    then show ?thesis
      using first h Inl by (auto simp: handler_with_auth_def intro: only_trans split: handshake_error.splits)
  next
    case (Inr session)
    obtain pre key rest token where t: "peer = pre @ Recv (Text (''LOGIN:'' @ key)) # rest" "list_all (\<lambda>m. \<not> cancels m) pre"
      "he_decode env (trim key) = Some (sign_token (he_hmac env) (he_server_key env) access_token_as_bytes token)"
      "is_active (he_now env) token" "session = \<lparr>si_start = start, si_duration = unat (ttl (he_now env) token)\<rparr>"
      using auth_handshake_ok [OF h] Inr by blast
    have "only ?P s1 (connection to_json (Some session) False events s1)"
    proof (rule connection_only)
      fix now payload
      assume p: "Payload now payload \<in> set events" "case Some session of Some v \<Rightarrow> \<not> is_expired now v | None \<Rightarrow> True"
      have "now - start < unat (ttl (he_now env) token)"
        using p(2) t(5) by (simp add: is_expired_def)
      then have "?P x" if "x \<in> set payload" for x
        using p(1) t(1-4) that
        by (intro disjI2 exI [of _ pre] exI [of _ key] exI [of _ rest] exI [of _ token] exI [of _ now] exI [of _ payload] conjI)
      then show "list_all ?P payload" by (simp add: list_all_iff)
    qed (simp add: c)
    then show ?thesis using first h Inr by (auto simp: handler_with_auth_def intro: only_trans)
  qed
  then show ?thesis by (simp add: only_def)
qed

text \<open>Of the services that do not stop in time exactly the first is aborted, the others keep running.\<close>

theorem runner_stop_first:
  "runner_stop wait_timeout ts = Some i \<longleftrightarrow>
     i < length ts \<and> (case ts ! i of None \<Rightarrow> True | Some n \<Rightarrow> wait_timeout < n)
     \<and> list_all (\<lambda>t. case t of None \<Rightarrow> False | Some n \<Rightarrow> n \<le> wait_timeout) (take i ts)"
proof (induction ts arbitrary: i)
  case (Cons t ts)
  show ?case
    by (cases i; cases t) (auto simp: Cons)
qed simp

end
