(* ===== verification/Routes.thy ===== *)
theory Routes
  imports Http_Api_Laws Http_Read Event_Api
begin

text \<open>
  The server as a whole: \<open>http.rs\<close> with its table of routes, and the static files of
  \<open>hypermedia/route/static_content.rs\<close>. Matching a path is axum's; the model starts with the endpoint
  that was matched, with its decoded arguments, and gives the stack of layers and the handler that
  answer there. The files are products of the client's build, so they are parameters. \<open>route_table\<close> is
  the list of patterns that is handed to axum.
\<close>

section \<open>Static files\<close>

record content_file =
  cf_bytes :: string
  cf_name :: string
  cf_sha256 :: string
  cf_mime :: string

definition short_hash :: "content_file \<Rightarrow> string option" where
  "short_hash f = str_slice (cf_sha256 f) 0 8"

definition CACHE_CONTROL_VALUE :: string where
  "CACHE_CONTROL_VALUE = ''private, max-age=604800, immutable''"

definition static_get :: "content_file \<Rightarrow> 'w server handler" where
  "static_get f req s =
     respond (insert_header ''cache-control'' CACHE_CONTROL_VALUE
       (insert_header ''content-type'' (cf_mime f) (plain 200 (cf_bytes f)))) s"

text \<open>The four files; their bytes, names and digests come from the build.\<close>

datatype static_file = Css | JavaScript | Icon | Sprite_Sheet

record asset =
  as_bytes :: string
  as_name :: string
  as_sha256 :: string

fun client_mime :: "static_file \<Rightarrow> string" where
  "client_mime Css = ''text/css''"
| "client_mime JavaScript = ''text/javascript''"
| "client_mime Icon = ''image/svg+xml''"
| "client_mime Sprite_Sheet = ''image/svg+xml''"

definition client_file :: "(static_file \<Rightarrow> asset) \<Rightarrow> static_file \<Rightarrow> content_file" where
  "client_file built f =
     \<lparr>cf_bytes = as_bytes (built f), cf_name = as_name (built f), cf_sha256 = as_sha256 (built f), cf_mime = client_mime f\<rparr>"

section \<open>Endpoints\<close>

datatype endpoint =
    Data_List
  | Data_Namespace string
  | Data_Devices string
  | Data_Device string "path_rejection + ups_name"
  | Data_Rw string "path_rejection + ups_name" "json_rejection + var_name \<times> nut_value"
  | Data_Instcmd string "path_rejection + ups_name" "json_rejection + cmd_name"
  | Data_Fsd string "path_rejection + ups_name"
  | Data_Unknown
  | Probe_Health
  | Probe_Readiness
  | Probe_Namespace_Health string
  | Probe_Namespace_Readiness string
  | Probe_Unknown
  | Web_Home "string option" "string option"
  | Web_Topology "string option"
  | Web_Connection "string option"
  | Web_System
  | Web_Ups string ups_name "string option" "tab_name option"
  | Web_Instcmd string ups_name cmd_name
  | Web_Fsd string ups_name
  | Web_Rw string ups_name var_name string
  | Web_Not_Found
  | Web_Logout
  | Web_Api_Keys
  | Web_Api_Keys_Post "string + (permissions \<times> 64 word)"
  | Web_Login
  | Web_Login_Post "string + (string \<times> string)"
  | Web_Themes
  | Static static_file
  | Static_Unknown

text \<open>What the server is built from; the user store is that of the pages.\<close>

record 'w site =
  si_env :: http_env
  si_scrypt :: "bytes \<Rightarrow> bytes \<Rightarrow> bytes option"
  si_connector :: "'w connector"
  si_json :: json_env
  si_pages :: page_env
  si_files :: "static_file \<Rightarrow> asset"
  si_missing_extension :: response

abbreviation si_store :: "'w site \<Rightarrow> user_store option" where
  "si_store site \<equiv> pe_users (si_pages site)"

abbreviation si_base :: "'w site \<Rightarrow> string" where
  "si_base site \<equiv> hc_base_path (sv_http_server (pe_config (si_pages site)))"

section \<open>The layers of every endpoint\<close>

fun create_data_routes :: "'w site \<Rightarrow> endpoint \<Rightarrow> 'w server handler" where
  "create_data_routes site Data_List = read_layers (si_env site) (si_store site) (Inr None) (namespace_get_list (si_json site))"
| "create_data_routes site (Data_Namespace ns) =
     read_layers (si_env site) (si_store site) (Inr (Some ns)) (namespace_get (si_json site) ns)"
| "create_data_routes site (Data_Devices ns) =
     read_layers (si_env site) (si_store site) (Inr (Some ns)) (ups_list_get (si_json site) ns)"
| "create_data_routes site (Data_Device ns ups) =
     read_layers (si_env site) (si_store site) (Inr (Some ns)) (ups_get (si_json site) (in_namespace ns ups))"
| "create_data_routes site (Data_Rw ns ups body) = rw_route (si_env site) (si_store site) (si_connector site) ns ups body"
| "create_data_routes site (Data_Instcmd ns ups body) = instcmd_route (si_env site) (si_store site) (si_connector site) ns ups body"
| "create_data_routes site (Data_Fsd ns ups) = fsd_route (si_env site) (si_store site) (si_connector site) ns ups"
| "create_data_routes site _ = read_layers (si_env site) (si_store site) (Inr None) json_not_found"

fun probe_routes :: "endpoint \<Rightarrow> 'w server handler" where
  "probe_routes Probe_Health req s = respond (health_response (get_health s)) s"
| "probe_routes Probe_Readiness req s = respond (readiness_response (get_readiness s)) s"
| "probe_routes (Probe_Namespace_Health ns) req s = respond (get_namespace_health ns s) s"
| "probe_routes (Probe_Namespace_Readiness ns) req s = respond (get_namespace_readiness ns s) s"
| "probe_routes _ req s = respond (plain 404 []) s"

text \<open>\<open>/logout\<close> and \<open>/api-keys\<close> are added between the renewal and the session layer, \<open>/login\<close> after both; without
  users the three do not exist, and their paths lead to the fallback.\<close>

definition session_layers :: "'w site \<Rightarrow> 'w server handler \<Rightarrow> 'w server handler" where
  "session_layers site handler =
     (case si_store site of
        Some st \<Rightarrow> user_auth_call (si_env site) st (si_base site @ ''/login'') handler
      | None \<Rightarrow> not_found_get (si_pages site))"

definition login_layers :: "'w site \<Rightarrow> 'w server handler \<Rightarrow> 'w server handler" where
  "login_layers site handler = (if si_store site = None then not_found_get (si_pages site) else handler)"

definition api_keys_post :: "'w site \<Rightarrow> string + (permissions \<times> 64 word) \<Rightarrow> 'w server handler" where
  "api_keys_post site form req s =
     respond (case rq_session req of
                Some session \<Rightarrow> api_key_post (si_env site) (si_base site) (si_store site) session form
              | None \<Rightarrow> si_missing_extension site) s"

fun create_hypermedia_routes :: "'w site \<Rightarrow> endpoint \<Rightarrow> 'w server handler" where
  "create_hypermedia_routes site (Web_Home section ns) = page_layers (si_env site) (si_pages site) (home_get (si_pages site) section ns)"
| "create_hypermedia_routes site (Web_Topology section) = page_layers (si_env site) (si_pages site) (topology_get (si_pages site) section)"
| "create_hypermedia_routes site (Web_Connection section) = page_layers (si_env site) (si_pages site) (connection_get (si_pages site) section)"
| "create_hypermedia_routes site Web_System = page_layers (si_env site) (si_pages site) (system_get (si_pages site))"
| "create_hypermedia_routes site (Web_Ups ns ups section tab) =
     page_layers (si_env site) (si_pages site) (ups_page_get (si_pages site) ns ups section tab)"
| "create_hypermedia_routes site (Web_Instcmd ns ups cmd) =
     web_layers (si_env site) (si_base site) (si_store site) P_INSTCMD (web_instcmd_post (si_connector site) (si_base site) ns ups cmd)"
| "create_hypermedia_routes site (Web_Fsd ns ups) =
     web_layers (si_env site) (si_base site) (si_store site) P_FSD (web_fsd_post (si_connector site) (si_base site) ns ups)"
| "create_hypermedia_routes site (Web_Rw ns ups name input) =
     web_layers (si_env site) (si_base site) (si_store site) P_SETVAR (web_rw_patch (si_connector site) (si_base site) ns ups name input)"
| "create_hypermedia_routes site Web_Logout = htmx_redirect_call (session_layers site (logout_post (si_pages site)))"
| "create_hypermedia_routes site Web_Api_Keys =
     htmx_redirect_call (session_layers site (api_key_get (si_pages site) (si_missing_extension site)))"
| "create_hypermedia_routes site (Web_Api_Keys_Post form) = htmx_redirect_call (session_layers site (api_keys_post site form))"
| "create_hypermedia_routes site Web_Login =
     htmx_redirect_call (login_layers site (\<lambda>req. respond (login_get (si_env site) (si_base site) (si_store site) req)))"
| "create_hypermedia_routes site (Web_Login_Post form) =
     htmx_redirect_call (login_layers site
       (\<lambda>req. respond (login_post (si_scrypt site) (si_env site) (si_base site) (si_store site) form req)))"
| "create_hypermedia_routes site Web_Themes = htmx_redirect_call (get_themes (si_pages site))"
| "create_hypermedia_routes site (Static f) = static_get (client_file (si_files site) f)"
| "create_hypermedia_routes site Static_Unknown = (\<lambda>req. respond (plain 404 []))"
| "create_hypermedia_routes site _ = page_layers (si_env site) (si_pages site) (not_found_get (si_pages site))"

fun is_data :: "endpoint \<Rightarrow> bool" where
  "is_data Data_List = True"
| "is_data (Data_Namespace _) = True"
| "is_data (Data_Devices _) = True"
| "is_data (Data_Device _ _) = True"
| "is_data (Data_Rw _ _ _) = True"
| "is_data (Data_Instcmd _ _ _) = True"
| "is_data (Data_Fsd _ _) = True"
| "is_data Data_Unknown = True"
| "is_data _ = False"

fun is_probe :: "endpoint \<Rightarrow> bool" where
  "is_probe Probe_Health = True"
| "is_probe Probe_Readiness = True"
| "is_probe (Probe_Namespace_Health _) = True"
| "is_probe (Probe_Namespace_Readiness _) = True"
| "is_probe Probe_Unknown = True"
| "is_probe _ = False"

text \<open>A request arrives without extensions: those are set by the layers only.\<close>

definition arriving :: "request \<Rightarrow> request" where
  "arriving req = req\<lparr>rq_token := None, rq_session := None\<rparr>"

definition serve :: "'w site \<Rightarrow> endpoint \<Rightarrow> 'w server handler" where
  "serve site e req =
     (if is_data e then create_data_routes site e
      else if is_probe e then probe_routes e
      else create_hypermedia_routes site e) (arriving req)"

text \<open>\<open>create_event_routes\<close>: which of the two web socket handlers runs.\<close>

definition create_event_routes ::
    "user_store option \<Rightarrow> to_json \<Rightarrow> http_env \<Rightarrow> nat \<Rightarrow> ws_recv list \<Rightarrow> ws_event list \<Rightarrow> sink \<Rightarrow> sink" where
  "create_event_routes store to_json env start peer events s =
     (if store \<noteq> None then handler_with_auth to_json env start peer events s else wss_handler to_json events s)"

section \<open>The access rule\<close>

fun required :: "endpoint \<Rightarrow> permissions option" where
  "required (Data_Rw _ _ _) = Some P_SETVAR"
| "required (Data_Instcmd _ _ _) = Some P_INSTCMD"
| "required (Data_Fsd _ _) = Some P_FSD"
| "required (Web_Rw _ _ _ _) = Some P_SETVAR"
| "required (Web_Instcmd _ _ _) = Some P_INSTCMD"
| "required (Web_Fsd _ _) = Some P_FSD"
| "required _ = None"

text \<open>What anybody may see: probes, the login page, the table of themes and the static files.\<close>

fun is_public :: "endpoint \<Rightarrow> bool" where
  "is_public Web_Login = True"
| "is_public (Web_Login_Post _) = True"
| "is_public Web_Themes = True"
| "is_public (Static _) = True"
| "is_public Static_Unknown = True"
| "is_public e = is_probe e"

definition granted :: "'w site \<Rightarrow> endpoint \<Rightarrow> permissions \<Rightarrow> request \<Rightarrow> bool" where
  "granted site e p req \<longleftrightarrow>
     (if is_data e then authorized (si_env site) (si_store site) p req
      else session_authorized (si_env site) (si_store site) p req)"

text \<open>The server has users and the request carries neither a valid token nor a valid session.\<close>

definition anonymous :: "'w site \<Rightarrow> request \<Rightarrow> bool" where
  "anonymous site req \<longleftrightarrow>
     (\<exists>st. si_store site = Some st \<and> \<not> is_ok (extract_bearer_token (si_env site) (rq_authorization req))
        \<and> \<not> is_ok (extract_user_session (si_env site) st (rq_cookie req)))"

section \<open>Lemmas\<close>

lemma arriving_simps [simp]:
  "rq_authorization (arriving req) = rq_authorization req" "rq_cookie (arriving req) = rq_cookie req"
  "rq_hx_request (arriving req) = rq_hx_request req" "login_answer (arriving req) login = login_answer req login"
  by (simp_all add: arriving_def login_answer_def)

lemma arriving_granted [simp]:
  "authorized env store p (arriving req) = authorized env store p req"
  "session_authorized env store p (arriving req) = session_authorized env store p req"
  by (simp_all add: authorized_def session_authorized_def)

lemma htmx_login_answer:
  "extract_user_session env st (rq_cookie req) = Inl e \<Longrightarrow>
     htmx_redirect_call (user_auth_call env st login h) req s = (login_answer req login, s)"
  by (simp add: htmx_redirect_call_def user_auth_call_def login_answer_def after_answer_def respond_def
      htmx_redirect_def plain_def insert_header_def)

lemma data_layers_refused:
  "extract_bearer_token env (rq_authorization req) = Inl e \<Longrightarrow>
     data_layers env (Some st) params perms h req s = (Answer unauthorized, s)"
  "extract_bearer_token env (rq_authorization req) = Inl e \<Longrightarrow>
     read_layers env (Some st) params h req s = (Answer unauthorized, s)"
  by (simp_all add: data_layers_def read_layers_def option_layer_def api_auth_call_def respond_def)

lemmas write_routes = rw_route_def instcmd_route_def fsd_route_def

text \<open>The routes that need no permission do not change the state.\<close>

lemma reads_only_static: "reads_only (static_get f)"
  by (simp add: reads_only_def static_get_def)

lemma reads_only_session: "reads_only h \<Longrightarrow> reads_only (session_layers site h)"
  by (simp add: session_layers_def reads_only_layers handlers_read_only split: option.split)

lemma reads_only_login: "reads_only h \<Longrightarrow> reads_only (login_layers site h)"
  by (simp add: login_layers_def handlers_read_only)

lemma reads_only_respond: "reads_only (\<lambda>req. respond (f req))"
  by (simp add: reads_only_def)

lemma reads_only_api_keys: "reads_only (api_keys_post site form)"
  by (simp add: reads_only_def api_keys_post_def)

lemma reads_only_probes: "reads_only (probe_routes e)"
  unfolding reads_only_def by (cases e) simp_all

lemmas reads_only_routes = reads_only_static reads_only_session reads_only_login reads_only_respond reads_only_api_keys
  reads_only_probes reads_only_read_layers reads_only_page_layers reads_only_layers handlers_read_only

lemma unprivileged_reads_only:
  assumes "required e = None"
  shows "reads_only (create_data_routes site e)" "reads_only (create_hypermedia_routes site e)"
  using assms by (cases e; simp add: reads_only_routes)+

lemma not_ok: "\<not> is_ok r \<longleftrightarrow> (\<exists>e. r = Inl e)"
  by (cases r) simp_all

lemma effect_granted:
  assumes "serve site e req s = (a, s')" "required e = Some p"
  shows "s' = s \<or> granted site e p req"
proof -
  have data: "s' = s \<or> authorized (si_env site) (si_store site) q req"
    if "data_layers (si_env site) (si_store site) (Inr (Some ns)) q h (arriving req) s = (a, s')" for q ns h
    using that by (cases rule: data_layers_passed) auto
  have web: "s' = s \<or> session_authorized (si_env site) (si_store site) q req"
    if "web_layers (si_env site) (si_base site) (si_store site) q h (arriving req) s = (a, s')" for q h
    using that by (cases rule: web_layers_passed) auto
  show ?thesis
    using assms by (cases e) (auto simp: serve_def granted_def write_routes dest: data web)
qed

lemma effect_only_privileged:
  fixes site :: "'w site"
  assumes "serve site e req s = (a, s')" "required e = None"
  shows "s' = s"
proof -
  have "snd (serve site e req s) = s"
    using unprivileged_reads_only [OF assms(2), of site] reads_only_probes [where ?'a = 'w, of e]
    by (simp add: serve_def reads_only_def)
  then show ?thesis using assms(1) by simp
qed

lemma anonymous_refused:
  assumes "anonymous site req" "\<not> is_public e"
  shows "serve site e req s \<in> {(Answer unauthorized, s), (login_answer req (si_base site @ ''/login''), s)}"
proof -
  obtain st e1 e2 where st: "si_store site = Some st"
    and t: "extract_bearer_token (si_env site) (rq_authorization (arriving req)) = Inl e1"
    and c: "extract_user_session (si_env site) st (rq_cookie (arriving req)) = Inl e2"
    using assms(1) by (auto simp: anonymous_def not_ok)
  show ?thesis
  proof (cases "is_data e")
    case True
    then show ?thesis
      by (cases e) (simp_all add: serve_def write_routes st data_layers_refused [OF t])
  next
    case False
    then show ?thesis
      using assms(2)
      by (cases e) (simp_all add: serve_def page_layers_def web_layers_def session_layers_def st htmx_login_answer [OF c])
  qed
qed

section \<open>Properties\<close>


text \<open>The server of the witness: it has a store with no user in it, and everything renders to nothing.\<close>

definition demo_site :: "unit site" where
  "demo_site =
     \<lparr>si_env = demo_env, si_scrypt = (\<lambda>_ _. None), si_connector = demo_connect, si_json = plain_json,
      si_pages =
        \<lparr>pe_render = (\<lambda>_ _. Inr []), pe_error = Inr, pe_variables = (\<lambda>_. []), pe_rw_variables = (\<lambda>_. []),
         pe_descriptions = Map.empty, pe_config = server_default [], pe_users = Some (store_build builder_store_new),
         pe_app_info = \<lparr>ad_version = [], ad_license = [], ad_repository = []\<rparr>, pe_removal_cookie = []\<rparr>,
      si_files = (\<lambda>_. \<lparr>as_bytes = [], as_name = [], as_sha256 = []\<rparr>),
      si_missing_extension = plain 500 []\<rparr>"


text \<open>The login handlers look for a session to send users who are logged in to the start page. Their route is
  outside the layer that provides it, so they never find one: the login page is shown to everybody.\<close>

theorem login_session_unseen:
  assumes "si_store site = Some st"
  shows "serve site Web_Login req s = (Answer (plain 200 ''login/+page.html''), s)"
  using assms
  by (simp add: serve_def login_layers_def arriving_def login_get_def logged_in_def htmx_redirect_call_def after_answer_def
      respond_def htmx_redirect_def plain_def)

section \<open>The table of routes\<close>

datatype http_method = GET | POST | PATCH | ANY

datatype segment = Literal string | Param string

type_synonym route = "http_method \<times> segment list"

definition data_table :: "route list" where
  "data_table =
     [(GET, []),
      (GET, [Param ''namespace'']),
      (GET, [Param ''namespace'', Literal ''devices'']),
      (GET, [Param ''namespace'', Literal ''devices'', Param ''ups_name'']),
      (PATCH, [Param ''namespace'', Literal ''devices'', Param ''ups_name'']),
      (POST, [Param ''namespace'', Literal ''devices'', Param ''ups_name'', Literal ''instcmd'']),
      (POST, [Param ''namespace'', Literal ''devices'', Param ''ups_name'', Literal ''fsd''])]"

definition probe_table :: "route list" where
  "probe_table =
     [(GET, [Literal ''health'']), (GET, [Literal ''readiness'']),
      (GET, [Literal ''health'', Param ''namespace'']), (GET, [Literal ''readiness'', Param ''namespace''])]"

definition event_table :: "route list" where
  "event_table = [(ANY, [])]"

definition static_table :: "route list" where
  "static_table =
     [(GET, [Literal ''style.css'']), (GET, [Literal ''index.js'']), (GET, [Literal ''icon.svg'']), (GET, [Literal ''feather-sprite.svg''])]"

definition nest :: "string \<Rightarrow> route list \<Rightarrow> route list" where
  "nest path = map (\<lambda>(m, p). (m, Literal path # p))"

definition hypermedia_table :: "bool \<Rightarrow> route list" where
  "hypermedia_table with_users =
     [(GET, []), (GET, [Literal ''topology'']), (GET, [Literal ''connection'']), (GET, [Literal ''system'']),
      (GET, [Literal ''ups'', Param ''namespace'', Param ''ups_name'']),
      (POST, [Literal ''ups'', Param ''namespace'', Param ''ups_name'', Literal ''instcmd'']),
      (POST, [Literal ''ups'', Param ''namespace'', Param ''ups_name'', Literal ''fsd'']),
      (PATCH, [Literal ''ups'', Param ''namespace'', Param ''ups_name'', Literal ''rw'']),
      (GET, [Literal ''not-found''])]
     @ (if with_users then
          [(POST, [Literal ''logout'']), (GET, [Literal ''api-keys'']), (POST, [Literal ''api-keys'']),
           (GET, [Literal ''login'']), (POST, [Literal ''login''])]
        else [])
     @ [(GET, [Literal ''_layout'', Literal ''themes''])] @ nest ''static'' static_table"

definition route_table :: "bool \<Rightarrow> route list" where
  "route_table with_users =
     nest ''api'' data_table @ nest ''probes'' probe_table @ nest ''events'' event_table @ hypermedia_table with_users"

text \<open>When axum refuses a second route: the same path with the same method, or a path that differs from
  another only in the names of its parameters.\<close>

fun same_shape :: "segment list \<Rightarrow> segment list \<Rightarrow> bool" where
  "same_shape [] [] = True"
| "same_shape (Literal a # p) (Literal b # q) = (a = b \<and> same_shape p q)"
| "same_shape (Param _ # p) (Param _ # q) = same_shape p q"
| "same_shape _ _ = False"

definition conflict :: "route \<Rightarrow> route \<Rightarrow> bool" where
  "conflict r r' \<longleftrightarrow> same_shape (snd r) (snd r') \<and> (snd r \<noteq> snd r' \<or> fst r = fst r' \<or> fst r = ANY \<or> fst r' = ANY)"

text \<open>The router can be built: no two routes of the server are in conflict, with and without users.\<close>

theorem routes_without_conflict:
  "sorted_wrt (\<lambda>r r'. \<not> conflict r r') (route_table with_users)"
proof (cases with_users)
  case True
  have "sorted_wrt (\<lambda>r r'. \<not> conflict r r') (route_table True)" by code_simp
  with True show ?thesis by simp
next
  case False
  have "sorted_wrt (\<lambda>r r'. \<not> conflict r r') (route_table False)" by code_simp
  with False show ?thesis by simp
qed

end
