(* ===== verification/Client_Build.thy ===== *)
theory Client_Build
  imports Routes "HOL-Library.State_Monad"
begin

text \<open>
  The build script of the browser client, \<open>nut_webgui_client/build.rs\<close>, and what \<open>lib.rs\<close> embeds of its
  products. The script runs commands, copies files and prints instructions for cargo. The commands, the
  environment and the digest are parameters (\<open>host\<close>); the files, the printed lines and the commands that
  were run are the state of a state monad. The instructions mean what cargo documents: an
  \<open>error\<close> line fails the build once the script has ended, a \<open>rustc-env\<close> line sets a variable that
  \<open>env!\<close> reads when the crate is compiled. Paths are those of Unix.
\<close>

section \<open>The machine the script runs on\<close>

text \<open>A file is what reading it gives: an I/O error or its bytes.\<close>

type_synonym files = "string \<Rightarrow> string + string"

record host =
  ho_var :: "string \<Rightarrow> string option"
  ho_run :: "string \<Rightarrow> string list \<Rightarrow> files \<Rightarrow> (string + bool) \<times> files"
  ho_canonicalize :: "string \<Rightarrow> files \<Rightarrow> string + string"
  ho_create :: "string \<Rightarrow> string option"
  ho_sha256 :: "string \<Rightarrow> bytes"

record build_state =
  bs_files :: files
  bs_out :: "string list"
  bs_ran :: "(string \<times> string list \<times> (string + bool)) list"

definition build_start :: "files \<Rightarrow> build_state" where
  "build_start fs = \<lparr>bs_files = fs, bs_out = [], bs_ran = []\<rparr>"

text \<open>How the script ends early: by a panic, or by an I/O error that \<open>?\<close> hands on.\<close>

datatype build_stop = Build_Panic string | Build_Error string

definition println :: "string \<Rightarrow> (build_state, unit) state" where
  "println l = State_Monad.update (\<lambda>s. s\<lparr>bs_out := bs_out s @ [l]\<rparr>)"

definition command_status :: "host \<Rightarrow> string \<Rightarrow> string list \<Rightarrow> (build_state, string + bool) state" where
  "command_status h cmd args = do {
     s \<leftarrow> State_Monad.get;
     let (r, fs) = ho_run h cmd args (bs_files s);
     State_Monad.set (s\<lparr>bs_files := fs, bs_ran := bs_ran s @ [(cmd, args, r)]\<rparr>);
     State_Monad.return r
   }"

text \<open>\<open>fs::copy\<close>: the source is read, the destination created and written.\<close>

definition fs_copy :: "host \<Rightarrow> string \<Rightarrow> string \<Rightarrow> (build_state, string + unit) state" where
  "fs_copy h src dst = do {
     s \<leftarrow> State_Monad.get;
     case bs_files s src of
       Inl e \<Rightarrow> State_Monad.return (Inl e)
     | Inr content \<Rightarrow>
         (case ho_create h dst of
            Some e \<Rightarrow> State_Monad.return (Inl e)
          | None \<Rightarrow> do {
              State_Monad.set (s\<lparr>bs_files := (bs_files s)(dst := Inr content)\<rparr>);
              State_Monad.return (Inr ())
            })
   }"

text \<open>\<open>Path::is_relative\<close> and \<open>Path::join\<close> with a relative, non-empty name.\<close>

definition is_relative :: "string \<Rightarrow> bool" where
  "is_relative p = (\<not> prefix ''/'' p)"

definition path_join :: "string \<Rightarrow> string \<Rightarrow> string" where
  "path_join dir name = (if dir = [] \<or> last dir = CHR ''/'' then dir @ name else dir @ ''/'' @ name)"

text \<open>The operator \<open>?\<close> on an I/O result, and sequencing after it.\<close>

definition question ::
  "(build_state, string + 'a) state \<Rightarrow> ('a \<Rightarrow> (build_state, build_stop + 'b) state) \<Rightarrow> (build_state, build_stop + 'b) state"
where
  "question m k = do {
     r \<leftarrow> m;
     case r of Inl e \<Rightarrow> State_Monad.return (Inl (Build_Error e)) | Inr x \<Rightarrow> k x
   }"

definition and_then ::
  "(build_state, build_stop + 'a) state \<Rightarrow> (build_state, build_stop + 'b) state \<Rightarrow> (build_state, build_stop + 'b) state"
where
  "and_then m k = do {
     r \<leftarrow> m;
     case r of Inl e \<Rightarrow> State_Monad.return (Inl e) | Inr _ \<Rightarrow> k
   }"

section \<open>The script\<close>

text \<open>\<open>IntoCliArg\<close>: a text is itself, an option may be absent.\<close>

datatype cli_arg = Arg_Str string | Arg_String string | Arg_Option "string option"

fun into_cli_arg :: "cli_arg \<Rightarrow> string option" where
  "into_cli_arg (Arg_Str s) = Some s"
| "into_cli_arg (Arg_String s) = Some s"
| "into_cli_arg (Arg_Option v) = v"

definition exec :: "host \<Rightarrow> string \<Rightarrow> cli_arg list \<Rightarrow> (build_state, string + bool) state" where
  "exec h cmd args = do {
     r \<leftarrow> command_status h cmd (List.map_filter into_cli_arg args);
     (case r of
        Inr success \<Rightarrow>
          if \<not> success then println (''cargo::error='' @ cmd @ '': execution failed.'') else State_Monad.return ()
      | Inl err \<Rightarrow> println (''cargo::error='' @ err));
     State_Monad.return r
   }"

datatype package_manager = Pnpm | Npm

definition detect_package_manager :: "host \<Rightarrow> (build_state, package_manager option) state" where
  "detect_package_manager h = do {
     r \<leftarrow> exec h ''pnpm'' [Arg_Str ''--version''];
     if r = Inr True then State_Monad.return (Some Pnpm)
     else do {
       r \<leftarrow> exec h ''npm'' [Arg_Str ''--version''];
       State_Monad.return (if r = Inr True then Some Npm else None)
     }
   }"

text \<open>\<open>base16ct::lower::encode_string\<close> and the digest in hexadecimal. Writing to a digest never fails.\<close>

definition base16_digit :: "nat \<Rightarrow> char" where
  "base16_digit n = ''0123456789abcdef'' ! n"

definition base16_lower :: "bytes \<Rightarrow> string" where
  "base16_lower bs = concat (map (\<lambda>b. [base16_digit (unat b div 16), base16_digit (unat b mod 16)]) bs)"

definition calc_sha256 :: "host \<Rightarrow> string \<Rightarrow> string" where
  "calc_sha256 h bs = base16_lower (ho_sha256 h bs)"

text \<open>The directory of the assets; \<open>canonicalize\<close> is only called for a relative one.\<close>

definition asset_dir :: "host \<Rightarrow> string \<Rightarrow> (build_state, string + string) state" where
  "asset_dir h src_dir = do {
     s \<leftarrow> State_Monad.get;
     State_Monad.return (if is_relative src_dir then ho_canonicalize h src_dir (bs_files s) else Inr src_dir)
   }"

definition create_asset :: "host \<Rightarrow> string \<Rightarrow> string \<Rightarrow> string \<Rightarrow> (build_state, build_stop + unit) state" where
  "create_asset h src_dir env_prefix file_name =
     question (asset_dir h src_dir) (\<lambda>src_dir.
     let file_path = path_join src_dir file_name in
     question (do { s \<leftarrow> State_Monad.get; State_Monad.return (bs_files s file_path) }) (\<lambda>content.
     let sha256 = calc_sha256 h content in
     if \<not> utf8_valid file_path then State_Monad.return (Inl (Build_Panic ''Not a valid unicode path string''))
     else do {
       println (''cargo::rustc-env='' @ env_prefix @ ''_PATH='' @ file_path);
       println (''cargo::rustc-env='' @ env_prefix @ ''_NAME='' @ file_name);
       println (''cargo::rustc-env='' @ env_prefix @ ''_SHA256='' @ sha256);
       State_Monad.return (Inr ())
     }))"

fun manager_command :: "package_manager \<Rightarrow> string" where
  "manager_command Npm = ''npm''"
| "manager_command Pnpm = ''pnpm''"

definition minify_arg :: "string \<Rightarrow> cli_arg" where
  "minify_arg profile = Arg_Option (if eq_ignore_ascii_case profile ''release'' then Some ''--minify'' else None)"

definition tailwind_args :: "string \<Rightarrow> string \<Rightarrow> cli_arg list" where
  "tailwind_args outdir profile =
     [Arg_Str ''node_modules/@tailwindcss/cli/dist/index.mjs'', Arg_Str ''-i'', Arg_Str ''src/style.css'', Arg_Str ''-o'',
      Arg_String (path_join outdir ''style.css''), minify_arg profile]"

definition esbuild_args :: "string \<Rightarrow> string \<Rightarrow> cli_arg list" where
  "esbuild_args outdir profile =
     [Arg_Str ''node_modules/esbuild/bin/esbuild'', Arg_Str ''src/index.js'', Arg_Str ''--bundle'', Arg_Str ''--format=iife'',
      Arg_Str ''--target=es2020'', Arg_String (''--outdir='' @ outdir), minify_arg profile]"

text \<open>The second half of \<open>main\<close>: bundling, copying and announcing the four assets.\<close>

definition create_assets :: "host \<Rightarrow> string \<Rightarrow> (build_state, build_stop + unit) state" where
  "create_assets h outdir =
     and_then (create_asset h outdir ''NUTWG_CLIENT_CSS'' ''style.css'')
     (and_then (create_asset h outdir ''NUTWG_CLIENT_JS'' ''index.js'')
     (and_then (create_asset h outdir ''NUTWG_CLIENT_ICON'' ''icon.svg'')
     (and_then (create_asset h outdir ''NUTWG_CLIENT_SPRITE_SHEET'' ''feather-sprite.svg'') (do {
       println ''cargo::rerun-if-changed=src'';
       println ''cargo::rerun-if-changed=static'';
       println ''cargo::rerun-if-changed=../nut_webgui/src/http/hypermedia'';
       println ''cargo::rerun-if-changed=package.json'';
       State_Monad.return (Inr ())
     }))))"

definition bundle_assets :: "host \<Rightarrow> string \<Rightarrow> string \<Rightarrow> (build_state, build_stop + unit) state" where
  "bundle_assets h outdir profile =
     question (exec h ''node'' (tailwind_args outdir profile)) (\<lambda>_.
     question (exec h ''node'' (esbuild_args outdir profile)) (\<lambda>_.
     question (fs_copy h ''static/icon.svg'' (path_join outdir ''icon.svg'')) (\<lambda>_.
     question (fs_copy h ''static/feather-sprite.svg'' (path_join outdir ''feather-sprite.svg'')) (\<lambda>_.
     create_assets h outdir))))"

definition build_main :: "host \<Rightarrow> (build_state, build_stop + unit) state" where
  "build_main h =
     (case ho_var h ''OUT_DIR'' of
        None \<Rightarrow> State_Monad.return (Inl (Build_Panic ''cargo did not set OUT_DIR env variable for build script.''))
      | Some outdir \<Rightarrow>
          (case ho_var h ''PROFILE'' of
             None \<Rightarrow> State_Monad.return (Inl (Build_Panic ''cargo did not set PROFILE env variable for build script.''))
           | Some profile \<Rightarrow> do {
               node \<leftarrow> exec h ''node'' [Arg_Str ''--version''];
               if node \<noteq> Inr True then do {
                 println ''cargo::error=node is required for building the client assets. Make sure the system has nodejs installed.'';
                 State_Monad.return (Inr ())
               } else do {
                 manager \<leftarrow> detect_package_manager h;
                 case manager of
                   None \<Rightarrow> do {
                     println ''cargo::error=npm or pnpm is required for initializing node_modules directory.'';
                     State_Monad.return (Inr ())
                   }
                 | Some m \<Rightarrow>
                     question (exec h (manager_command m) [Arg_Str ''install'']) (\<lambda>_. bundle_assets h outdir profile)
               }
             }))"

section \<open>What cargo and the compiler make of it\<close>

definition cargo_error :: "string \<Rightarrow> bool" where
  "cargo_error l = prefix ''cargo::error='' l"

definition clean :: "build_state \<Rightarrow> bool" where
  "clean s = (\<not> list_ex cargo_error (bs_out s))"

text \<open>A build is accepted when the script ends with status zero and has printed no error.\<close>

definition cargo_accepts :: "(build_stop + unit) \<times> build_state \<Rightarrow> bool" where
  "cargo_accepts = (\<lambda>(r, s). r = Inr () \<and> clean s)"

definition env_line :: "string \<Rightarrow> (string \<times> string) option" where
  "env_line l = Option.bind (strip_prefix ''cargo::rustc-env='' l) (split_once (\<lambda>c. c = CHR ''=''))"

definition rustc_env :: "string list \<Rightarrow> string \<Rightarrow> string option" where
  "rustc_env out = map_of (rev (List.map_filter env_line out))"

fun client_prefix :: "static_file \<Rightarrow> string" where
  "client_prefix Css = ''NUTWG_CLIENT_CSS''"
| "client_prefix JavaScript = ''NUTWG_CLIENT_JS''"
| "client_prefix Icon = ''NUTWG_CLIENT_ICON''"
| "client_prefix Sprite_Sheet = ''NUTWG_CLIENT_SPRITE_SHEET''"

text \<open>The statics of \<open>lib.rs\<close>: \<open>env!\<close> of an unset variable and \<open>include_bytes!\<close> of a file that cannot be
  read fail the compilation.\<close>

definition compile_asset :: "build_state \<Rightarrow> static_file \<Rightarrow> asset option" where
  "compile_asset s f = do {
     path \<leftarrow> rustc_env (bs_out s) (client_prefix f @ ''_PATH'');
     content \<leftarrow> (case bs_files s path of Inl _ \<Rightarrow> None | Inr b \<Rightarrow> Some b);
     name \<leftarrow> rustc_env (bs_out s) (client_prefix f @ ''_NAME'');
     sha \<leftarrow> rustc_env (bs_out s) (client_prefix f @ ''_SHA256'');
     Some \<lparr>as_bytes = content, as_name = name, as_sha256 = sha\<rparr>
   }"

section \<open>Running the script\<close>

lemma run_println [simp]: "run_state (println l) s = ((), s\<lparr>bs_out := bs_out s @ [l]\<rparr>)"
  by (simp add: println_def State_Monad.update_def)

lemma run_question:
  "run_state (question m k) s =
     (case run_state m s of (Inl e, s') \<Rightarrow> (Inl (Build_Error e), s') | (Inr x, s') \<Rightarrow> run_state (k x) s')"
  by (simp add: question_def split: prod.split sum.split)

lemma run_and_then:
  "run_state (and_then m k) s = (case run_state m s of (Inl e, s') \<Rightarrow> (Inl e, s') | (Inr _, s') \<Rightarrow> run_state k s')"
  by (simp add: and_then_def split: prod.split sum.split)

text \<open>The text a command leaves behind, and the state after it.\<close>

fun exec_report :: "string \<Rightarrow> string + bool \<Rightarrow> string list" where
  "exec_report cmd (Inr True) = []"
| "exec_report cmd (Inr False) = [''cargo::error='' @ cmd @ '': execution failed.'']"
| "exec_report cmd (Inl e) = [''cargo::error='' @ e]"

definition ran :: "host \<Rightarrow> string \<Rightarrow> string list \<Rightarrow> build_state \<Rightarrow> build_state" where
  "ran h cmd args s =
     (let (r, fs) = ho_run h cmd args (bs_files s)
      in s\<lparr>bs_files := fs, bs_out := bs_out s @ exec_report cmd r, bs_ran := bs_ran s @ [(cmd, args, r)]\<rparr>)"

lemma run_exec:
  "run_state (exec h cmd args) s =
     (fst (ho_run h cmd (List.map_filter into_cli_arg args) (bs_files s)), ran h cmd (List.map_filter into_cli_arg args) s)"
  by (auto simp: exec_def command_status_def ran_def Let_def split: prod.split sum.split)

lemma clean_append: "clean (s\<lparr>bs_out := bs_out s @ ls\<rparr>) \<longleftrightarrow> clean s \<and> \<not> list_ex cargo_error ls"
  by (auto simp: clean_def)

lemma cargo_error_report: "list_ex cargo_error (exec_report cmd r) \<longleftrightarrow> r \<noteq> Inr True"
  by (cases "(cmd, r)" rule: exec_report.cases) (simp_all add: cargo_error_def)

lemma clean_ran:
  "clean (ran h cmd args s) \<longleftrightarrow> clean s \<and> fst (ho_run h cmd args (bs_files s)) = Inr True"
  using cargo_error_report [of cmd "fst (ho_run h cmd args (bs_files s))"]
  by (auto simp: ran_def clean_def split: prod.split)

lemma ran_success:
  assumes "fst (ho_run h cmd args (bs_files s)) = Inr True"
  shows "bs_out (ran h cmd args s) = bs_out s" and "bs_ran (ran h cmd args s) = bs_ran s @ [(cmd, args, Inr True)]"
  using assms by (auto simp: ran_def split: prod.split)

text \<open>No step takes a printed line back, so an error stays.\<close>

definition keeps_errors :: "(build_state, 'a) state \<Rightarrow> bool" where
  "keeps_errors m = state_io_rel (\<lambda>s s'. clean s' \<longrightarrow> clean s) m"

lemma keeps_errorsD: "keeps_errors m \<Longrightarrow> run_state m s = (r, s') \<Longrightarrow> clean s' \<Longrightarrow> clean s"
  unfolding keeps_errors_def by (drule (1) state_io_relD) blast

lemma keeps_errors_return [simp]: "keeps_errors (State_Monad.return x)"
  by (auto simp: keeps_errors_def state_io_rel_def)

lemma keeps_errors_println [simp]: "keeps_errors (println l)"
  by (auto simp: keeps_errors_def state_io_rel_def clean_append)

lemma keeps_errors_exec [simp]: "keeps_errors (exec h cmd args)"
  by (auto simp: keeps_errors_def state_io_rel_def run_exec clean_ran)

lemma keeps_errors_bind:
  assumes m: "keeps_errors m" and k: "\<And>x. keeps_errors (k x)"
  shows "keeps_errors (State_Monad.bind m k)"
  unfolding keeps_errors_def
proof (rule state_io_relI, rule impI)
  fix r s s'
  assume run: "run_state (State_Monad.bind m k) s = (r, s')" and "clean s'"
  obtain x t where t: "run_state m s = (x, t)" by fastforce
  then have "run_state (k x) t = (r, s')" using run by simp
  then have "clean t" using k \<open>clean s'\<close> by (blast dest: keeps_errorsD)
  with m t show "clean s" by (rule keeps_errorsD)
qed

lemma keeps_errors_question:
  "keeps_errors m \<Longrightarrow> (\<And>x. keeps_errors (k x)) \<Longrightarrow> keeps_errors (question m k)"
  unfolding question_def by (rule keeps_errors_bind) (auto split: sum.split)

lemma keeps_errors_and_then: "keeps_errors m \<Longrightarrow> keeps_errors k \<Longrightarrow> keeps_errors (and_then m k)"
  unfolding and_then_def by (rule keeps_errors_bind) (auto split: sum.split)

lemma keeps_errors_get [simp]: "keeps_errors State_Monad.get"
  by (auto simp: keeps_errors_def state_io_rel_def)

lemma keeps_errors_copy [simp]: "keeps_errors (fs_copy h src dst)"
  by (auto simp: keeps_errors_def state_io_rel_def fs_copy_def clean_def split: sum.split option.split)

lemma keeps_errors_create_asset [simp]: "keeps_errors (create_asset h dir pre name)"
  by (auto simp: create_asset_def asset_dir_def Let_def intro!: keeps_errors_question keeps_errors_bind)

lemma keeps_errors_detect [simp]: "keeps_errors (detect_package_manager h)"
  by (auto simp: detect_package_manager_def intro!: keeps_errors_bind)

lemma keeps_errors_bundle [simp]: "keeps_errors (bundle_assets h outdir profile)"
  by (auto simp: bundle_assets_def create_assets_def intro!: keeps_errors_question keeps_errors_and_then keeps_errors_bind)

section \<open>The announced assets\<close>

fun client_name :: "static_file \<Rightarrow> string" where
  "client_name Css = ''style.css''"
| "client_name JavaScript = ''index.js''"
| "client_name Icon = ''icon.svg''"
| "client_name Sprite_Sheet = ''feather-sprite.svg''"

definition asset_lines :: "string \<Rightarrow> string \<Rightarrow> string \<Rightarrow> string \<Rightarrow> string list" where
  "asset_lines pre path name sha =
     [''cargo::rustc-env='' @ pre @ ''_PATH='' @ path, ''cargo::rustc-env='' @ pre @ ''_NAME='' @ name,
      ''cargo::rustc-env='' @ pre @ ''_SHA256='' @ sha]"

definition asset_root :: "host \<Rightarrow> string \<Rightarrow> files \<Rightarrow> string \<Rightarrow> bool" where
  "asset_root h outdir fs d = (if is_relative outdir then ho_canonicalize h outdir fs = Inr d else d = outdir)"

lemma create_asset_ok:
  assumes "run_state (create_asset h dir pre name) s = (Inr (), s')"
  obtains d content where "asset_root h dir (bs_files s) d" "bs_files s (path_join d name) = Inr content"
    "s' = s\<lparr>bs_out := bs_out s @ asset_lines pre (path_join d name) name (calc_sha256 h content)\<rparr>"
  using assms
  by (auto simp: create_asset_def asset_dir_def run_question asset_root_def asset_lines_def Let_def
      split: sum.splits if_splits)

lemma asset_root_unique: "asset_root h dir fs d \<Longrightarrow> asset_root h dir fs d' \<Longrightarrow> d' = d"
  by (simp add: asset_root_def split: if_splits)

definition announced :: "host \<Rightarrow> string \<Rightarrow> (static_file \<Rightarrow> string) \<Rightarrow> static_file \<Rightarrow> string list" where
  "announced h d content f =
     asset_lines (client_prefix f) (path_join d (client_name f)) (client_name f) (calc_sha256 h (content f))"

definition rerun_lines :: "string list" where
  "rerun_lines = map ((@) ''cargo::rerun-if-changed='') [''src'', ''static'', ''../nut_webgui/src/http/hypermedia'', ''package.json'']"

lemma and_then_ok:
  assumes "run_state (and_then m k) s = (Inr x, s')"
  obtains t y where "run_state m s = (Inr y, t)" "run_state k t = (Inr x, s')"
  using assms by (auto simp: run_and_then split: prod.splits sum.splits)

lemma question_ok:
  assumes "run_state (question m k) s = (Inr x, s')"
  obtains t y where "run_state m s = (Inr y, t)" "run_state (k y) t = (Inr x, s')"
  using assms by (auto simp: run_question split: prod.splits sum.splits)

lemma create_assets_ok:
  assumes "run_state (create_assets h outdir) s = (Inr (), s')"
  obtains d content where "asset_root h outdir (bs_files s) d"
    "\<And>f. bs_files s (path_join d (client_name f)) = Inr (content f)"
    "s' = s\<lparr>bs_out := bs_out s @ concat (map (announced h d content) [Css, JavaScript, Icon, Sprite_Sheet]) @ rerun_lines\<rparr>"
proof -
  obtain d1 c1 d2 c2 d3 c3 d4 c4 where
    r: "asset_root h outdir (bs_files s) d1" "asset_root h outdir (bs_files s) d2"
      "asset_root h outdir (bs_files s) d3" "asset_root h outdir (bs_files s) d4"
    and c: "bs_files s (path_join d1 ''style.css'') = Inr c1" "bs_files s (path_join d2 ''index.js'') = Inr c2"
      "bs_files s (path_join d3 ''icon.svg'') = Inr c3" "bs_files s (path_join d4 ''feather-sprite.svg'') = Inr c4"
    and s': "s' = s\<lparr>bs_out := bs_out s @
      asset_lines ''NUTWG_CLIENT_CSS'' (path_join d1 ''style.css'') ''style.css'' (calc_sha256 h c1) @
      asset_lines ''NUTWG_CLIENT_JS'' (path_join d2 ''index.js'') ''index.js'' (calc_sha256 h c2) @
      asset_lines ''NUTWG_CLIENT_ICON'' (path_join d3 ''icon.svg'') ''icon.svg'' (calc_sha256 h c3) @
      asset_lines ''NUTWG_CLIENT_SPRITE_SHEET'' (path_join d4 ''feather-sprite.svg'') ''feather-sprite.svg'' (calc_sha256 h c4) @
      rerun_lines\<rparr>"
    using assms unfolding create_assets_def rerun_lines_def
    by (elim and_then_ok) (auto elim!: create_asset_ok)
  define content where "content = case_static_file c1 c2 c3 c4"
  have d: "d2 = d1" "d3 = d1" "d4 = d1"
    using r by (blast intro: asset_root_unique)+
  show thesis
  proof (rule that)
    show "asset_root h outdir (bs_files s) d1" by (rule r)
    show "bs_files s (path_join d1 (client_name f)) = Inr (content f)" for f
      using c by (cases f) (simp_all add: content_def d)
    show "s' = s\<lparr>bs_out := bs_out s @ concat (map (announced h d1 content) [Css, JavaScript, Icon, Sprite_Sheet]) @ rerun_lines\<rparr>"
      by (simp add: s' d announced_def content_def)
  qed
qed

text \<open>The compiler reads the announced values back.\<close>

lemma env_line_announced:
  assumes "CHR ''='' \<notin> set key"
  shows "env_line (''cargo::rustc-env='' @ key @ CHR ''='' # v) = Some (key, v)"
  using assms split_once_first [of "\<lambda>c. c = CHR ''=''" key "CHR ''=''" v]
  by (simp add: env_line_def strip_prefix_def list_ex_iff)

lemma env_lines_asset:
  assumes "CHR ''='' \<notin> set pre"
  shows "List.map_filter env_line (asset_lines pre path name sha @ ls) =
    (pre @ ''_PATH'', path) # (pre @ ''_NAME'', name) # (pre @ ''_SHA256'', sha) # List.map_filter env_line ls"
  using assms env_line_announced [of "pre @ ''_PATH''" path] env_line_announced [of "pre @ ''_NAME''" name]
    env_line_announced [of "pre @ ''_SHA256''" sha]
  by (simp add: asset_lines_def List.map_filter_simps)

lemma client_prefix_plain: "CHR ''='' \<notin> set (client_prefix f)"
  by (cases f) simp_all

lemma env_lines_rerun: "List.map_filter env_line rerun_lines = []"
  by (simp add: rerun_lines_def List.map_filter_simps env_line_def strip_prefix_def)

lemma rustc_env_announced:
  assumes "out = concat (map (announced h d content) [Css, JavaScript, Icon, Sprite_Sheet]) @ rerun_lines"
  shows "rustc_env out (client_prefix f @ ''_PATH'') = Some (path_join d (client_name f))"
    and "rustc_env out (client_prefix f @ ''_NAME'') = Some (client_name f)"
    and "rustc_env out (client_prefix f @ ''_SHA256'') = Some (calc_sha256 h (content f))"
proof -
  have "List.map_filter env_line out =
    concat (map (\<lambda>f. [(client_prefix f @ ''_PATH'', path_join d (client_name f)),
      (client_prefix f @ ''_NAME'', client_name f), (client_prefix f @ ''_SHA256'', calc_sha256 h (content f))])
      [Css, JavaScript, Icon, Sprite_Sheet])"
    by (simp only: assms announced_def concat.simps list.map append_assoc env_lines_asset [OF client_prefix_plain]
        append_Nil env_lines_rerun append_Cons)
  then show "rustc_env out (client_prefix f @ ''_PATH'') = Some (path_join d (client_name f))"
    and "rustc_env out (client_prefix f @ ''_NAME'') = Some (client_name f)"
    and "rustc_env out (client_prefix f @ ''_SHA256'') = Some (calc_sha256 h (content f))"
    by (cases f; simp add: rustc_env_def)+
qed

section \<open>An accepted build\<close>

lemma fs_copy_ok:
  assumes "run_state (fs_copy h src dst) s = (Inr x, s')"
  obtains content where "bs_files s src = Inr content" "s' = s\<lparr>bs_files := (bs_files s)(dst := Inr content)\<rparr>"
  using assms by (auto simp: fs_copy_def split: sum.splits option.splits)

lemma exec_ok:
  assumes "run_state (exec h cmd args) s = (r, t)" and "clean t"
  shows "r = Inr True" and "bs_out t = bs_out s"
    and "bs_ran t = bs_ran s @ [(cmd, List.map_filter into_cli_arg args, Inr True)]" and "clean s"
  using assms ran_success [of h cmd "List.map_filter into_cli_arg args" s] by (auto simp: run_exec clean_ran)

definition cli :: "cli_arg list \<Rightarrow> string list" where
  "cli args = List.map_filter into_cli_arg args"

lemma copied_icon:
  assumes "\<not> is_relative outdir"
  shows "path_join outdir name \<noteq> ''static/icon.svg''" "path_join outdir name \<noteq> ''static/feather-sprite.svg''"
  using assms by (auto simp: is_relative_def path_join_def prefix_def)

lemma path_join_inj [simp]: "path_join d a = path_join d b \<longleftrightarrow> a = b"
  by (simp add: path_join_def)

lemma bundle_ok:
  assumes run: "run_state (bundle_assets h outdir profile) s = (Inr (), s')" and "clean s'"
  obtains d content where "asset_root h outdir (bs_files s') d"
    "\<And>f. bs_files s' (path_join d (client_name f)) = Inr (content f)"
    "bs_out s' = bs_out s @ concat (map (announced h d content) [Css, JavaScript, Icon, Sprite_Sheet]) @ rerun_lines"
    "bs_ran s' = bs_ran s @ [(''node'', cli (tailwind_args outdir profile), Inr True), (''node'', cli (esbuild_args outdir profile), Inr True)]"
    "\<not> is_relative outdir \<Longrightarrow> bs_files s' ''static/icon.svg'' = Inr (content Icon)"
    "\<not> is_relative outdir \<Longrightarrow> bs_files s' ''static/feather-sprite.svg'' = Inr (content Sprite_Sheet)"
proof -
  obtain r1 r2 s1 s2 c3 s3 c4 s4 where
    1: "run_state (exec h ''node'' (tailwind_args outdir profile)) s = (Inr r1, s1)" and
    2: "run_state (exec h ''node'' (esbuild_args outdir profile)) s1 = (Inr r2, s2)" and
    3: "bs_files s2 ''static/icon.svg'' = Inr c3"
       "s3 = s2\<lparr>bs_files := (bs_files s2)(path_join outdir ''icon.svg'' := Inr c3)\<rparr>" and
    4: "bs_files s3 ''static/feather-sprite.svg'' = Inr c4"
       "s4 = s3\<lparr>bs_files := (bs_files s3)(path_join outdir ''feather-sprite.svg'' := Inr c4)\<rparr>" and
    5: "run_state (create_assets h outdir) s4 = (Inr (), s')"
    using run unfolding bundle_assets_def by (elim question_ok) (auto elim!: fs_copy_ok)
  obtain d content where
    a: "asset_root h outdir (bs_files s4) d" "\<And>f. bs_files s4 (path_join d (client_name f)) = Inr (content f)"
      "s' = s4\<lparr>bs_out := bs_out s4 @ concat (map (announced h d content) [Css, JavaScript, Icon, Sprite_Sheet]) @ rerun_lines\<rparr>"
    by (rule create_assets_ok [OF 5]) (rule that)
  have "clean s4" using \<open>clean s'\<close> unfolding a(3) clean_append by blast
  then have "clean s2" by (simp add: 3 4 clean_def)
  note e2 = exec_ok [OF 2 this] and e1 = exec_ok [OF 1 exec_ok(4) [OF 2 this]]
  have d: "d = outdir" if "\<not> is_relative outdir" using a(1) that by (simp add: asset_root_def)
  have icon: "content Icon = c3" "content Sprite_Sheet = c4" if "\<not> is_relative outdir"
    using a(2) [of Icon] a(2) [of Sprite_Sheet] d [OF that] by (simp_all add: 3(2) 4(2))
  show thesis
  proof (rule that)
    show "asset_root h outdir (bs_files s') d" "bs_files s' (path_join d (client_name f)) = Inr (content f)" for f
      using a by simp_all
    show "bs_out s' = bs_out s @ concat (map (announced h d content) [Css, JavaScript, Icon, Sprite_Sheet]) @ rerun_lines"
      using a(3) e1(2) e2(2) by (simp add: 3(2) 4(2))
    show "bs_ran s' = bs_ran s @ [(''node'', cli (tailwind_args outdir profile), Inr True), (''node'', cli (esbuild_args outdir profile), Inr True)]"
      using a(3) e1(3) e2(3) by (simp add: 3(2) 4(2) cli_def)
    show "bs_files s' ''static/icon.svg'' = Inr (content Icon)" if "\<not> is_relative outdir"
      using a(3) 3(1) copied_icon [OF that, symmetric] icon [OF that] by (simp add: 3(2) 4(2))
    show "bs_files s' ''static/feather-sprite.svg'' = Inr (content Sprite_Sheet)" if "\<not> is_relative outdir"
      using a(3) 4(1) copied_icon [OF that, symmetric] icon [OF that] by (simp add: 3(2) 4(2))
  qed
qed

lemma detect_clean:
  assumes "run_state (detect_package_manager h) s = (m, t)" and "clean t"
  shows "m = Some Pnpm" and "bs_out t = bs_out s" and "bs_ran t = bs_ran s @ [(''pnpm'', [''--version''], Inr True)]"
    and "fst (ho_run h ''pnpm'' [''--version''] (bs_files s)) = Inr True"
proof -
  obtain r1 s1 where 1: "run_state (exec h ''pnpm'' [Arg_Str ''--version'']) s = (r1, s1)" by fastforce
  have "clean s1"
    using assms 1 by (auto simp: detect_package_manager_def split: if_splits prod.splits dest: keeps_errorsD [OF keeps_errors_exec])
  note e = exec_ok [OF 1 this]
  show "fst (ho_run h ''pnpm'' [''--version''] (bs_files s)) = Inr True"
    using 1 e(1) by (simp add: run_exec List.map_filter_simps)
  show "m = Some Pnpm" "bs_out t = bs_out s" "bs_ran t = bs_ran s @ [(''pnpm'', [''--version''], Inr True)]"
    using assms(1) 1 e by (simp_all add: detect_package_manager_def List.map_filter_simps)
qed

lemma base16_lower_length: "length (base16_lower bs) = 2 * length bs"
  by (induction bs) (simp_all add: base16_lower_def)

lemma base16_digit_ascii: "n < 16 \<Longrightarrow> byte (base16_digit n) < 128"
  by (simp add: base16_digit_def nth_Cons' numeral_eq_Suc)

lemma base16_lower_ascii: "c \<in> set (base16_lower bs) \<Longrightarrow> byte c < 128"
proof -
  assume "c \<in> set (base16_lower bs)"
  then obtain b :: "8 word" where "c = base16_digit (unat b div 16) \<or> c = base16_digit (unat b mod 16)"
    by (auto simp: base16_lower_def)
  moreover have "unat b div 16 < 16" using unsigned_less [of b, where 'a = nat] by simp
  ultimately show ?thesis by (auto intro: base16_digit_ascii)
qed

lemma short_hash_digest:
  assumes "length (ho_sha256 h b) = 32" and "cf_sha256 f = calc_sha256 h b"
  shows "short_hash f = Some (take 8 (cf_sha256 f))"
proof -
  have len: "length (cf_sha256 f) = 64" using assms by (simp add: calc_sha256_def base16_lower_length)
  have "\<not> is_cont (cf_sha256 f ! 8)"
    using base16_lower_ascii [of "cf_sha256 f ! 8" "ho_sha256 h b"] len assms(2)
    by (simp add: is_cont_def calc_sha256_def)
  with len show ?thesis by (simp add: short_hash_def str_slice_def is_char_boundary_def)
qed

lemma build_accepted:
  assumes run: "run_state (build_main h) s0 = (Inr (), s)" and "clean s"
  obtains outdir profile t where "ho_var h ''OUT_DIR'' = Some outdir" "ho_var h ''PROFILE'' = Some profile"
    "run_state (bundle_assets h outdir profile) t = (Inr (), s)" "bs_out t = bs_out s0"
    "bs_ran t = bs_ran s0 @ [(''node'', [''--version''], Inr True), (''pnpm'', [''--version''], Inr True), (''pnpm'', [''install''], Inr True)]"
    "\<exists>fs. fst (ho_run h ''pnpm'' [''--version''] fs) = Inr True"
proof -
  obtain outdir profile where v: "ho_var h ''OUT_DIR'' = Some outdir" "ho_var h ''PROFILE'' = Some profile"
    using run by (auto simp: build_main_def split: option.splits)
  obtain node s1 where 1: "run_state (exec h ''node'' [Arg_Str ''--version'']) s0 = (node, s1)" by fastforce
  obtain m s2 where 2: "run_state (detect_package_manager h) s1 = (m, s2)" by fastforce
  have node: "node = Inr True"
    using run 1 \<open>clean s\<close> by (auto simp: build_main_def v clean_append cargo_error_def split: if_splits)
  with run 1 2 \<open>clean s\<close> obtain pm where m: "m = Some pm"
    by (cases m) (auto simp: build_main_def v clean_append cargo_error_def)
  with run 1 2 node obtain r t where 3: "run_state (exec h (manager_command pm) [Arg_Str ''install'']) s2 = (Inr r, t)"
    and 4: "run_state (bundle_assets h outdir profile) t = (Inr (), s)"
    by (auto simp: build_main_def v elim: question_ok)
  have "clean t" using keeps_errors_bundle 4 \<open>clean s\<close> by (rule keeps_errorsD)
  note e3 = exec_ok [OF 3 this]
  note e2 = detect_clean [OF 2 e3(4)]
  have "clean s1"
    using keeps_errorsD [OF keeps_errors_detect 2 e3(4)] .
  note e1 = exec_ok [OF 1 this]
  show thesis
    using that [OF v 4] e1 e2 e3 m by (auto simp: List.map_filter_simps)
qed


text \<open>Since probing for pnpm goes through the same macro as every command, a machine that only has npm is
  detected correctly and still fails the build: the probe has printed an error.\<close>

theorem npm_only_rejected:
  assumes "\<And>fs. fst (ho_run h ''pnpm'' [''--version''] fs) \<noteq> Inr True"
  shows "\<not> cargo_accepts (run_state (build_main h) (build_start fs))"
  using assms by (auto simp: cargo_accepts_def elim: build_accepted)

section \<open>A concrete machine\<close>

text \<open>A machine with node and pnpm whose commands write the two bundles, and one with npm in the place of
  pnpm.\<close>

definition demo_run :: "string \<Rightarrow> string \<Rightarrow> string list \<Rightarrow> files \<Rightarrow> (string + bool) \<times> files" where
  "demo_run manager cmd args fs =
     (if cmd = ''node'' then (Inr True, fs(''/out/style.css'' := Inr ''a{}'', ''/out/index.js'' := Inr ''f()''))
      else if cmd = manager then (Inr True, fs)
      else (Inl ''No such file or directory (os error 2)'', fs))"

definition demo_host :: "string \<Rightarrow> host" where
  "demo_host manager =
     \<lparr>ho_var = [''OUT_DIR'' \<mapsto> ''/out'', ''PROFILE'' \<mapsto> ''Release''], ho_run = demo_run manager,
      ho_canonicalize = (\<lambda>p fs. Inr p), ho_create = (\<lambda>_. None), ho_sha256 = (\<lambda>b. replicate 32 171)\<rparr>"

definition demo_files :: files where
  "demo_files = (\<lambda>_. Inl ''No such file or directory (os error 2)'')
     (''static/icon.svg'' := Inr ''<svg/>'', ''static/feather-sprite.svg'' := Inr ''<svg></svg>'')"

lemma demo_accepted: "cargo_accepts (run_state (build_main (demo_host ''pnpm'')) (build_start demo_files))"
  by code_simp


theorem npm_only_rejected_witness:
  "fst (run_state (build_main (demo_host ''npm'')) (build_start demo_files)) = Inr ()
   \<and> \<not> cargo_accepts (run_state (build_main (demo_host ''npm'')) (build_start demo_files))"
proof
  show "fst (run_state (build_main (demo_host ''npm'')) (build_start demo_files)) = Inr ()" by code_simp
  show "\<not> cargo_accepts (run_state (build_main (demo_host ''npm'')) (build_start demo_files))"
    by (rule npm_only_rejected) (simp add: demo_host_def demo_run_def)
qed

end
