(* ===== verification/Pool_Refinement.thy ===== *)
theory Pool_Refinement
  imports Client_Pool
begin

text \<open>
  The operations of \<open>item_pool.rs\<close> and the calls of \<open>client_pool.rs\<close> as functions implement the transition system of
  the shared pool: each is a run of it, next to any number of guards and detached items that other
  tasks have. So the limit, which is shown of the transition system, holds of the functions too.
\<close>

section \<open>The abstraction\<close>

definition abs_pool :: "'i item_pool \<Rightarrow> 'i multiset \<Rightarrow> 'i multiset \<Rightarrow> 'i pool_state" where
  "abs_pool p G D =
     \<lparr>ps_items = ip_items p, ps_free = ip_permits p, ps_closed = ip_closed p, ps_acquired = 0, ps_checking = {#},
      ps_creating = 0, ps_guards = G, ps_releasing = {#}, ps_released = 0, ps_detached = D\<rparr>"

lemma abs_pool_new: "abs_pool (ip_new limit) {#} {#} = ps_new limit"
  by (simp add: abs_pool_def ip_new_def ps_new_def)

abbreviation pool_steps :: "'i pool_state \<Rightarrow> 'i pool_state \<Rightarrow> bool" where
  "pool_steps \<equiv> pool_step\<^sup>*\<^sup>*"

text \<open>A task with a permit in hand, and the guards after a result.\<close>

abbreviation with_permit :: "'i pool_state \<Rightarrow> 'i pool_state" where
  "with_permit s \<equiv> s\<lparr>ps_acquired := Suc (ps_acquired s)\<rparr>"

fun guarded :: "'e + 'i \<Rightarrow> 'i multiset \<Rightarrow> 'i multiset" where
  "guarded (Inr i) G = add_mset i G"
| "guarded (Inl _) G = G"

lemma acquire_steps:
  "acquire p = Some (Inr p') \<Longrightarrow> pool_steps (abs_pool p G D) (with_permit (abs_pool p' G D))"
  using Acquire [of "abs_pool p G D" "ip_permits p'"] by (auto simp: acquire_def abs_pool_def split: if_splits)

lemma init_steps:
  assumes "ip_init init w p = (r, w', p')" "ip_items p = []"
  shows "pool_steps (with_permit (abs_pool p G D)) (abs_pool p' (guarded r G) D)"
proof -
  let ?s = "(abs_pool p G D)\<lparr>ps_creating := 1\<rparr>"
  have 1: "pool_step (with_permit (abs_pool p G D)) ?s"
    using Pop_Empty [of "with_permit (abs_pool p G D)" 0] assms(2) by (simp add: abs_pool_def)
  have "pool_step ?s (abs_pool p' (guarded r G) D)"
    using assms(1) Init_Ok [of ?s 0] Init_Err [of ?s 0]
    by (auto simp: ip_init_def abs_pool_def drop_permit_def split: prod.splits sum.splits)
  with 1 show ?thesis by (meson converse_rtranclp_into_rtranclp r_into_rtranclp)
qed

lemma get_steps:
  fixes init :: "'w \<Rightarrow> ('e + 'i) \<times> 'w"
  assumes "ip_get init w p = Some (r, w', p')"
  shows "pool_steps (abs_pool p G D) (abs_pool p' (guarded r G) D)"
proof (cases "acquire p :: ('e item_pool_error + 'i item_pool) option")
  case (Some q)
  show ?thesis
  proof (cases q)
    case (Inr p1)
    note a = acquire_steps [OF Some [unfolded Inr], of G D]
    show ?thesis
    proof (cases "ip_items p1")
      case Nil
      then have "ip_init init w p1 = (r, w', p')" using assms Some Inr by (simp add: ip_get_def)
      from a init_steps [OF this Nil] show ?thesis by (rule rtranclp_trans)
    next
      case (Cons i rest)
      then have "r = Inr i" "p' = p1\<lparr>ip_items := rest\<rparr>" using assms Some Inr by (simp_all add: ip_get_def)
      then have "pool_step (with_permit (abs_pool p1 G D)) (abs_pool p' (guarded r G) D)"
        using Pop [of "with_permit (abs_pool p1 G D)" 0 i rest] Cons by (simp add: abs_pool_def)
      with a show ?thesis by (rule rtranclp.rtrancl_into_rtrancl)
    qed
  qed (use assms Some in \<open>auto simp: ip_get_def acquire_def split: if_splits\<close>)
qed (use assms in \<open>simp add: ip_get_def\<close>)

lemma check_loop_steps:
  assumes "ip_check_loop init check w p = (r, w', p')"
  shows "pool_steps (with_permit (abs_pool p G D)) (abs_pool p' (guarded r G) D)"
  using assms
proof (induction init check w p arbitrary: r w' p' rule: ip_check_loop.induct)
  case (1 init check w p)
  show ?case
  proof (cases "ip_items p")
    case Nil
    then show ?thesis using "1.prems" init_steps by (simp add: ip_check_loop.simps [of _ _ _ p])
  next
    case (Cons i rest)
    let ?s = "(abs_pool p G D)\<lparr>ps_items := rest, ps_checking := {#i#}\<rparr>"
    have pop: "pool_step (with_permit (abs_pool p G D)) ?s"
      using Pop_Check [of "with_permit (abs_pool p G D)" 0 i rest] Cons by (simp add: abs_pool_def)
    obtain c w1 where c: "check i w = (c, w1)" by fastforce
    show ?thesis
    proof (cases c)
      case (Ready j)
      then have "pool_step ?s (abs_pool p' (guarded r G) D)"
        using "1.prems" Cons c Check_Ready [of ?s i "{#}" j] by (auto simp: ip_check_loop.simps [of _ _ _ p] abs_pool_def)
      with pop show ?thesis by (meson converse_rtranclp_into_rtranclp r_into_rtranclp)
    next
      case (Destroy j)
      let ?p1 = "p\<lparr>ip_items := rest, ip_dealloc := ip_dealloc p @ [j]\<rparr>"
      have "pool_step ?s (with_permit (abs_pool ?p1 G D))"
        using Check_Destroy [of ?s i "{#}"] by (simp add: abs_pool_def)
      moreover have "pool_steps (with_permit (abs_pool ?p1 G D)) (abs_pool p' (guarded r G) D)"
        using "1.prems" Cons c Destroy by (intro "1.IH" [OF Cons c [symmetric] Destroy]) (simp add: ip_check_loop.simps [of _ _ _ p])
      ultimately show ?thesis using pop by (meson converse_rtranclp_into_rtranclp)
    qed
  qed
qed

lemma get_checked_steps:
  assumes "ip_get_checked init check w p = Some (r, w', p')"
  shows "pool_steps (abs_pool p G D) (abs_pool p' (guarded r G) D)"
proof (cases "ip_closed p")
  case True
  then show ?thesis using assms by (auto simp: ip_get_checked_def acquire_def)
next
  case False
  then have a: "acquire p = Some (Inr (p\<lparr>ip_permits := ip_permits p - 1\<rparr>))" "ip_check_loop init check w (p\<lparr>ip_permits := ip_permits p - 1\<rparr>) = (r, w', p')"
    using assms by (auto simp: ip_get_checked_def acquire_def split: if_splits)
  show ?thesis using acquire_steps [OF a(1)] check_loop_steps [OF a(2)] by (rule rtranclp_trans)
qed

section \<open>Ending a guard\<close>

lemma use_step: "pool_steps (abs_pool p (add_mset i G) D) (abs_pool p (add_mset j G) D)"
  using Use [of "abs_pool p (add_mset i G) D" i G j] by (simp add: abs_pool_def)

lemma drop_steps: "pool_steps (abs_pool p (add_mset i G) D) (abs_pool (guard_drop i p) G D)"
  using Drop [of "abs_pool p (add_mset i G) D" i G] by (simp add: abs_pool_def guard_drop_def drop_permit_def)

lemma into_inner_steps: "pool_steps (abs_pool p (add_mset i G) D) (abs_pool (snd (guard_into_inner i p)) G (add_mset i D))"
  using Into_Inner [of "abs_pool p (add_mset i G) D" i G] by (simp add: abs_pool_def guard_into_inner_def drop_permit_def)

lemma release_steps: "pool_steps (abs_pool p (add_mset i G) D) (abs_pool (guard_release i p) G D)"
proof -
  let ?s = "abs_pool p (add_mset i G) D"
  let ?released = "(abs_pool (inner_release i p) G D)\<lparr>ps_released := 1\<rparr>"
  have "pool_steps ?s ?released"
  proof (cases "ip_closed p")
    case True
    then show ?thesis
      using Release_Closed [of ?s i G] by (simp add: abs_pool_def inner_release_def)
  next
    case False
    let ?r = "?s\<lparr>ps_guards := G, ps_releasing := {#i#}\<rparr>"
    have "pool_step ?s ?r" "pool_step ?r ?released"
      using False Release_Open [of ?s i G] Release_Push [of ?r i "{#}"] by (simp_all add: abs_pool_def inner_release_def)
    then show ?thesis by (meson converse_rtranclp_into_rtranclp r_into_rtranclp)
  qed
  moreover have "pool_step ?released (abs_pool (guard_release i p) G D)"
    using Release_Done [of ?released 0] by (simp add: abs_pool_def guard_release_def drop_permit_def)
  ultimately show ?thesis by (rule rtranclp.rtrancl_into_rtrancl)
qed

lemma action_steps:
  assumes "pooled_action f c p = (r, p')"
  shows "pool_steps (abs_pool p (add_mset c G) D) (abs_pool p' G D)"
proof -
  obtain x c' where f: "f c = (x, c')" by fastforce
  have "p' = guard_release c' p \<or> p' = guard_drop c' p"
    using assms f by (auto simp: pooled_action_def split: sum.splits)
  then show ?thesis
    using use_step [of p c G D c'] release_steps [of p c' G D] drop_steps [of p c' G D] by (auto intro: rtranclp_trans)
qed

lemma call_steps:
  assumes "pooled_call init f w p = Some (r, w', p')"
  shows "pool_steps (abs_pool p G D) (abs_pool p' G D)"
proof -
  obtain g w1 p1 where g: "ip_get init w p = Some (g, w1, p1)"
    using assms by (cases "ip_get init w p") (auto simp: pooled_call_def)
  note get = get_steps [OF g, of G D]
  show ?thesis
  proof (cases g)
    case (Inl e)
    then show ?thesis using get g assms by (simp add: pooled_call_def)
  next
    case (Inr c)
    obtain x p2 where x: "pooled_action f c p1 = (x, p2)" by fastforce
    have first: "pool_steps (abs_pool p G D) (abs_pool p2 G D)"
      using get action_steps [OF x, of G D] Inr by (auto intro: rtranclp_trans)
    show ?thesis
    proof (cases "\<exists>err. x = Inl err \<and> retries err")
      case False
      then have "p' = p2" using assms g Inr x by (auto simp: pooled_call_def split: sum.splits)
      then show ?thesis using first by simp
    next
      case True
      then obtain g2 w3 p3 where g2: "ip_get_checked init prealloc_check w1 p2 = Some (g2, w3, p3)"
        using assms g Inr x by (cases "ip_get_checked init prealloc_check w1 p2") (auto simp: pooled_call_def)
      have "pool_steps (abs_pool p3 (guarded g2 G) D) (abs_pool p' G D)"
        using True assms g Inr x g2
        by (cases g2) (auto simp: pooled_call_def split: prod.splits intro: action_steps)
      then show ?thesis using first get_checked_steps [OF g2, of G D] by (meson rtranclp_trans)
    qed
  qed
qed

lemma client_steps:
  assumes "get_client init w p = Some (r, w', p')"
  shows "pool_steps (abs_pool p G D) (abs_pool p' G (guarded r D))"
proof -
  obtain g w1 p1 where g: "ip_get_checked init prealloc_check w p = Some (g, w1, p1)"
    using assms by (cases "ip_get_checked init prealloc_check w p") (auto simp: get_client_def)
  have "pool_steps (abs_pool p1 (guarded g G) D) (abs_pool p' G (guarded r D))"
    using assms g into_inner_steps [of p1 _ G D]
    by (cases g) (auto simp: get_client_def guard_into_inner_def)
  with get_checked_steps [OF g] show ?thesis by (rule rtranclp_trans)
qed

lemma clear_steps: "pool_steps (abs_pool p G D) (abs_pool (ip_clear p) G D)"
  using Clear [of "abs_pool p G D" 0] by (simp add: abs_pool_def ip_clear_def r_into_rtranclp)

lemma close_steps: "pool_steps (abs_pool p G D) (abs_pool (ip_close p) G D)"
proof -
  have "pool_step (abs_pool p G D) (abs_pool (p\<lparr>ip_closed := True\<rparr>) G D)"
    using Close [of "abs_pool p G D"] by (simp add: abs_pool_def)
  then show ?thesis
    using clear_steps [of "p\<lparr>ip_closed := True\<rparr>" G D] by (simp add: ip_close_def converse_rtranclp_into_rtranclp)
qed

section \<open>Properties\<close>

text \<open>C10: The pool's functions implement the shared pool. A pooled call with its retry, taking a client out,
  clearing and closing are runs of the transition system in which tasks interleave, whatever guards (G) and
  detached clients (D) other tasks have: a call leaves those as they are, and taking a client out adds it to the
  detached ones.\<close>

theorem pool_calls_refine:
  "(pooled_call init f w p = Some (r, w', p') \<longrightarrow> pool_step\<^sup>*\<^sup>* (abs_pool p G D) (abs_pool p' G D))
   \<and> (get_client init w p = Some (rc, w', p') \<longrightarrow> pool_step\<^sup>*\<^sup>* (abs_pool p G D) (abs_pool p' G (guarded rc D)))
   \<and> pool_step\<^sup>*\<^sup>* (abs_pool p G D) (abs_pool (ip_clear p) G D)
   \<and> pool_step\<^sup>*\<^sup>* (abs_pool p G D) (abs_pool (ip_close p) G D)"
  by (intro conjI impI; (erule call_steps | erule client_steps | rule clear_steps close_steps))

text \<open>A pool of four, a daemon that refuses: the call comes back with the error, and the pool is in a state that
  the shared pool reaches, so the limit holds there.\<close>

theorem pool_calls_refine_witness:
  "\<exists>r p'. pooled_call (\<lambda>w :: unit. (Inr (nc_new [''ERR ACCESS-DENIED'' @ [LF]] Idle), w)) list_ups () (ip_new 4) = Some (r, (), p')
     \<and> pool_step\<^sup>*\<^sup>* (ps_new 4) (abs_pool p' {#} {#})"
proof -
  let ?call = "pooled_call (\<lambda>w :: unit. (Inr (nc_new [''ERR ACCESS-DENIED'' @ [LF]] Idle), w)) list_ups () (ip_new 4)"
  have "?call \<noteq> None"
    by (simp add: pooled_call_def ip_get_def acquire_def ip_new_def ip_init_def ip_get_checked_def inner_release_def pooled_action_def guard_release_def guard_drop_def drop_permit_def
        split: prod.splits sum.splits)
  then obtain r p' where c: "?call = Some (r, (), p')" by auto
  then show ?thesis
    using pool_calls_refine [of _ list_ups "()" "ip_new 4" r "()" p' "{#}" "{#}"] by (auto simp: abs_pool_new)
qed

end
