(* ===== verification/Client_Api.thy ===== *)
theory Client_Api
  imports Http_Api_Laws Pool_Refinement
begin

text \<open>
  The trait \<open>AsyncNutClient\<close> of \<open>client.rs\<close> and its three implementations: the plain connection of
  \<open>client_base.rs\<close>, the authenticated one of \<open>client_auth.rs\<close>, which forwards every request to the connection it
  wraps, and the pool of \<open>client_pool.rs\<close>. A request of the trait is a value, with the kind of its answer. The
  locale \<open>read_client\<close> is what the background services rely on of a client: a request writes at most its own
  command, and a successful one is answered in its own kind.
\<close>

section \<open>The trait\<close>

datatype nut_request =
    Ask_Cmd_Desc ups_name cmd_name
  | Ask_Protver
  | Ask_Ups_Desc ups_name
  | Ask_Var ups_name var_name
  | Ask_Var_Type ups_name var_name
  | Ask_Var_Desc ups_name var_name
  | Ask_Ver
  | Ask_Client_List ups_name
  | Ask_Cmd_List ups_name
  | Ask_Enum_List ups_name var_name
  | Ask_Range_List ups_name var_name
  | Ask_Rw_List ups_name
  | Ask_Ups_List
  | Ask_Var_List ups_name

datatype (discs_sels) nut_reply =
    Re_Cmd_Desc cmd_desc
  | Re_Protver string
  | Re_Ups_Desc ups_desc
  | Re_Var ups_var
  | Re_Var_Type ups_var_type
  | Re_Var_Desc ups_var_desc
  | Re_Ver string
  | Re_Client_List client_list
  | Re_Cmd_List cmd_list
  | Re_Enum_List enum_list
  | Re_Range_List range_list
  | Re_Rw_List rw_list
  | Re_Ups_List "ups_device list"
  | Re_Var_List ups_var_list

text \<open>The output type of a request.\<close>

fun answers :: "nut_request \<Rightarrow> nut_reply \<Rightarrow> bool" where
  "answers (Ask_Cmd_Desc _ _) r = is_Re_Cmd_Desc r"
| "answers Ask_Protver r = is_Re_Protver r"
| "answers (Ask_Ups_Desc _) r = is_Re_Ups_Desc r"
| "answers (Ask_Var _ _) r = is_Re_Var r"
| "answers (Ask_Var_Type _ _) r = is_Re_Var_Type r"
| "answers (Ask_Var_Desc _ _) r = is_Re_Var_Desc r"
| "answers Ask_Ver r = is_Re_Ver r"
| "answers (Ask_Client_List _) r = is_Re_Client_List r"
| "answers (Ask_Cmd_List _) r = is_Re_Cmd_List r"
| "answers (Ask_Enum_List _ _) r = is_Re_Enum_List r"
| "answers (Ask_Range_List _ _) r = is_Re_Range_List r"
| "answers (Ask_Rw_List _) r = is_Re_Rw_List r"
| "answers Ask_Ups_List r = is_Re_Ups_List r"
| "answers (Ask_Var_List _) r = is_Re_Var_List r"

fun request_command :: "nut_request \<Rightarrow> command" where
  "request_command (Ask_Cmd_Desc ups cmd) = GetCmdDesc ups cmd"
| "request_command Ask_Protver = GetProtVer"
| "request_command (Ask_Ups_Desc ups) = GetUpsDesc ups"
| "request_command (Ask_Var ups var) = GetVar ups var"
| "request_command (Ask_Var_Type ups var) = GetVarType ups var"
| "request_command (Ask_Var_Desc ups var) = GetVarDesc ups var"
| "request_command Ask_Ver = GetDaemonVer"
| "request_command (Ask_Client_List ups) = ListClient ups"
| "request_command (Ask_Cmd_List ups) = ListCmd ups"
| "request_command (Ask_Enum_List ups var) = ListEnum ups var"
| "request_command (Ask_Range_List ups var) = ListRange ups var"
| "request_command (Ask_Rw_List ups) = ListRw ups"
| "request_command Ask_Ups_List = ListUps"
| "request_command (Ask_Var_List ups) = ListVar ups"

section \<open>The implementations\<close>

definition reply :: "('a \<Rightarrow> nut_reply) \<Rightarrow> (fault + 'a) \<times> 'c \<Rightarrow> (fault + nut_reply) \<times> 'c" where
  "reply f = map_prod (map_sum id f) id"

fun ask :: "nut_request \<Rightarrow> conn \<Rightarrow> (fault + nut_reply) \<times> conn" where
  "ask (Ask_Cmd_Desc ups cmd) c = reply Re_Cmd_Desc (get_cmd_desc ups cmd c)"
| "ask Ask_Protver c = reply Re_Protver (get_protver c)"
| "ask (Ask_Ups_Desc ups) c = reply Re_Ups_Desc (get_ups_desc ups c)"
| "ask (Ask_Var ups var) c = reply Re_Var (get_var ups var c)"
| "ask (Ask_Var_Type ups var) c = reply Re_Var_Type (get_var_type ups var c)"
| "ask (Ask_Var_Desc ups var) c = reply Re_Var_Desc (get_var_desc ups var c)"
| "ask Ask_Ver c = reply Re_Ver (get_ver c)"
| "ask (Ask_Client_List ups) c = reply Re_Client_List (list_client ups c)"
| "ask (Ask_Cmd_List ups) c = reply Re_Cmd_List (list_cmd ups c)"
| "ask (Ask_Enum_List ups var) c = reply Re_Enum_List (list_enum ups var c)"
| "ask (Ask_Range_List ups var) c = reply Re_Range_List (list_range ups var c)"
| "ask (Ask_Rw_List ups) c = reply Re_Rw_List (list_rw ups c)"
| "ask Ask_Ups_List c = reply Re_Ups_List (list_ups c)"
| "ask (Ask_Var_List ups) c = reply Re_Var_List (list_var ups c)"

text \<open>\<open>NutAuthClient\<close>: a client that has logged in.\<close>

record auth_client =
  ac_inner :: conn

definition on_inner :: "(conn \<Rightarrow> 'r \<times> conn) \<Rightarrow> auth_client \<Rightarrow> 'r \<times> auth_client" where
  "on_inner f a = (case f (ac_inner a) of (r, c) \<Rightarrow> (r, a\<lparr>ac_inner := c\<rparr>))"

fun auth_ask :: "nut_request \<Rightarrow> auth_client \<Rightarrow> (fault + nut_reply) \<times> auth_client" where
  "auth_ask (Ask_Cmd_Desc ups cmd) a = reply Re_Cmd_Desc (on_inner (get_cmd_desc ups cmd) a)"
| "auth_ask Ask_Protver a = reply Re_Protver (on_inner get_protver a)"
| "auth_ask (Ask_Ups_Desc ups) a = reply Re_Ups_Desc (on_inner (get_ups_desc ups) a)"
| "auth_ask (Ask_Var ups var) a = reply Re_Var (on_inner (get_var ups var) a)"
| "auth_ask (Ask_Var_Type ups var) a = reply Re_Var_Type (on_inner (get_var_type ups var) a)"
| "auth_ask (Ask_Var_Desc ups var) a = reply Re_Var_Desc (on_inner (get_var_desc ups var) a)"
| "auth_ask Ask_Ver a = reply Re_Ver (on_inner get_ver a)"
| "auth_ask (Ask_Client_List ups) a = reply Re_Client_List (on_inner (list_client ups) a)"
| "auth_ask (Ask_Cmd_List ups) a = reply Re_Cmd_List (on_inner (list_cmd ups) a)"
| "auth_ask (Ask_Enum_List ups var) a = reply Re_Enum_List (on_inner (list_enum ups var) a)"
| "auth_ask (Ask_Range_List ups var) a = reply Re_Range_List (on_inner (list_range ups var) a)"
| "auth_ask (Ask_Rw_List ups) a = reply Re_Rw_List (on_inner (list_rw ups) a)"
| "auth_ask Ask_Ups_List a = reply Re_Ups_List (on_inner list_ups a)"
| "auth_ask (Ask_Var_List ups) a = reply Re_Var_List (on_inner (list_var ups) a)"

definition detach :: "auth_client \<Rightarrow> (fault + unit) \<times> auth_client" where
  "detach = on_inner auth_close"

definition auth_into_inner :: "auth_client \<Rightarrow> conn" where
  "auth_into_inner = ac_inner"

definition auth_is_open :: "auth_client \<Rightarrow> bool \<times> auth_client" where
  "auth_is_open = on_inner is_open"

text \<open>\<open>NutAuthClient::connect\<close>; opening the socket is a parameter.\<close>

definition auth_connect ::
    "('w \<Rightarrow> (fault + conn) \<times> 'w) \<Rightarrow> string \<Rightarrow> string \<Rightarrow> 'w \<Rightarrow> (fault + auth_client) \<times> 'w" where
  "auth_connect connect username password w =
     (case connect w of
        (Inl e, w) \<Rightarrow> (Inl e, w)
      | (Inr c, w) \<Rightarrow>
          (case authenticate username password c of
             (Inl e, _) \<Rightarrow> (Inl e, w)
           | (Inr _, c) \<Rightarrow> (Inr \<lparr>ac_inner = c\<rparr>, w)))"

text \<open>\<open>impl_pooled_call!\<close> on every request.\<close>

definition pool_ask ::
    "('w \<Rightarrow> (fault + conn) \<times> 'w) \<Rightarrow> nut_request \<Rightarrow> 'w \<Rightarrow> conn item_pool \<Rightarrow> ((fault + nut_reply) \<times> 'w \<times> conn item_pool) option" where
  "pool_ask init q = pooled_call init (ask q)"

section \<open>The contract of a client\<close>

text \<open>What a single request may write.\<close>

definition at_most :: "command \<Rightarrow> conn \<Rightarrow> conn \<Rightarrow> bool" where
  "at_most cmd c c' \<longleftrightarrow> wrote c [] c' \<or> wrote c [cmd] c'"

primrec run_queries :: "(nut_request \<Rightarrow> 'c \<Rightarrow> 'r \<times> 'c) \<Rightarrow> nut_request list \<Rightarrow> 'c \<Rightarrow> 'c" where
  "run_queries query [] c = c"
| "run_queries query (q # qs) c = run_queries query qs (snd (query q c))"

locale read_client =
  fixes query :: "nut_request \<Rightarrow> 'c \<Rightarrow> (fault + nut_reply) \<times> 'c" and stream :: "'c \<Rightarrow> conn"
  assumes query_wrote: "query q c = (r, c') \<Longrightarrow> at_most (request_command q) (stream c) (stream c')"
    and query_typed: "query q c = (Inr x, c') \<Longrightarrow> answers q x"
begin

lemma queries_wrote: "\<exists>cmds. subseq cmds (map request_command qs) \<and> wrote (stream c) cmds (stream (run_queries query qs c))"
proof (induction qs arbitrary: c)
  case Nil
  then show ?case by (auto simp: wrote_Nil)
next
  case (Cons q qs)
  obtain k where k: "wrote (stream c) (take k [request_command q]) (stream (snd (query q c)))"
    using query_wrote [of q c "fst (query q c)" "snd (query q c)"]
    by (auto simp: at_most_def intro: that [of 0] that [of 1])
  obtain cmds where "subseq cmds (map request_command qs)" "wrote (stream (snd (query q c))) cmds (stream (run_queries query (q # qs) c))"
    using Cons.IH [of "snd (query q c)"] by auto
  moreover have "subseq (take k [request_command q]) [request_command q]"
    by (cases k) auto
  ultimately have "subseq (take k [request_command q] @ cmds) (map request_command (q # qs))"
    using list_emb_append_mono [of "(=)" "take k [request_command q]" "[request_command q]" cmds "map request_command qs"] by simp
  then show ?case using wrote_trans [OF k] \<open>wrote _ cmds _\<close> by blast
qed

end

section \<open>The implementations keep the contract\<close>

lemma send_wrote_one:
  assumes "send d (serialize cmd) c = (r, c')"
  shows "at_most cmd c c'"
proof -
  obtain k where "k \<le> 1" "wrote c (take k [cmd]) c'" using send_wrote [OF assms] by blast
  then show ?thesis by (cases k) (auto simp: at_most_def)
qed

lemma get_line_wrote:
  assumes "get_line cmd c = (r, c')"
  shows "at_most cmd c c'"
proof -
  have "c' = snd (send (\<lambda>_. Inr ()) (serialize cmd) c)"
    using assms by (auto simp: get_line_def send_def split: option.splits prod.splits sum.splits if_splits)
  then show ?thesis using send_wrote_one [of "\<lambda>_. Inr ()" cmd c] by (metis prod.collapse)
qed

lemma reply_wrote:
  assumes "\<And>r c'. x = (r, c') \<Longrightarrow> at_most cmd c c'" and "reply f x = (r, c')"
  shows "at_most cmd c c'"
  using assms by (cases x) (auto simp: reply_def)

lemmas request_defs = get_cmd_desc_def get_protver_def get_ups_desc_def get_var_def get_var_type_def get_var_desc_def get_ver_def
  list_client_def list_cmd_def list_enum_def list_range_def list_rw_def list_ups_def list_var_def

lemma ask_wrote: "ask q c = (r, c') \<Longrightarrow> at_most (request_command q) c c'"
  by (cases q; simp only: ask.simps request_defs request_command.simps; erule reply_wrote [rotated];
      (erule send_wrote_one | erule get_line_wrote))

lemma reply_Inr: "reply f x = (Inr r, c') \<Longrightarrow> \<exists>y. r = f y"
  by (cases x; cases "fst x") (auto simp: reply_def)

lemma ask_typed: "ask q c = (Inr r, c') \<Longrightarrow> answers q r"
  by (cases q) (auto dest!: reply_Inr)

lemma auth_ask_forwards: "auth_ask q a = on_inner (ask q) a"
  by (cases q) (simp_all add: on_inner_def reply_def case_prod_unfold)

interpretation plain_client: read_client ask id
  by unfold_locales (auto dest: ask_wrote ask_typed)

interpretation logged_in_client: read_client auth_ask ac_inner
  by unfold_locales (auto simp: auth_ask_forwards on_inner_def split: prod.splits dest: ask_wrote ask_typed)

section \<open>Reading never acts\<close>

text \<open>The commands that change something at the daemon, or log in.\<close>

fun acts :: "command \<Rightarrow> bool" where
  "acts (AttachCommand _) = True"
| "acts DetachCommand = True"
| "acts (FsdCommand _) = True"
| "acts (InstCmd _ _) = True"
| "acts (Password _) = True"
| "acts (Username _) = True"
| "acts (SetVariable _ _ _) = True"
| "acts _ = False"

lemma request_harmless [simp]: "\<not> acts (request_command q)"
  by (cases q) simp_all

lemma requests_harmless:
  assumes "subseq cmds (map request_command qs)"
  shows "list_all (\<lambda>cmd. \<not> acts cmd) cmds"
  unfolding list_all_iff
proof
  fix cmd
  assume "cmd \<in> set cmds"
  with assms obtain y where "y \<in> set (map request_command qs)" "cmd = y" by (rule list_emb_set)
  then show "\<not> acts cmd" by auto
qed

definition only_reads :: "conn \<Rightarrow> bool" where
  "only_reads c \<longleftrightarrow> (\<exists>cmds. list_all (\<lambda>cmd. \<not> acts cmd) cmds \<and> wrote (c\<lparr>outbox := []\<rparr>) cmds c)"

lemma only_reads_fresh: "outbox c = [] \<Longrightarrow> only_reads c"
  by (auto simp: only_reads_def wrote_def intro!: exI [of _ "[]"])

lemma only_reads_wrote: "only_reads c \<Longrightarrow> wrote c cmds c' \<Longrightarrow> list_all (\<lambda>cmd. \<not> acts cmd) cmds \<Longrightarrow> only_reads c'"
  unfolding only_reads_def wrote_def by (elim exE conjE, rule_tac x = "cmdsa @ cmds" in exI) simp

lemma only_reads_at_most: "only_reads c \<Longrightarrow> at_most cmd c c' \<Longrightarrow> \<not> acts cmd \<Longrightarrow> only_reads c'"
  by (auto simp: at_most_def intro: only_reads_wrote)

lemma only_reads_outbox: "outbox c' = outbox c \<Longrightarrow> only_reads c \<Longrightarrow> only_reads c'"
  by (erule only_reads_wrote [of c "[]"]) (simp_all add: wrote_def)

lemma is_open_wrote: "is_open c = (b, c') \<Longrightarrow> at_most GetProtVer c c'"
  using get_line_wrote [of GetProtVer c "fst (get_line GetProtVer c)" c']
  by (auto simp: is_open_def get_line_def split: option.splits prod.splits sum.splits if_splits)

lemma client_allocator_reads:
  assumes "\<And>w c w'. connect w = (Inr c, w') \<Longrightarrow> outbox c = []" and "\<And>c c'. handshake c = Inr c' \<Longrightarrow> outbox c' = outbox c"
  shows "item_allocator (allocator_init connect handshake a) prealloc_check only_reads"
proof
  fix w c w'
  assume init: "allocator_init connect handshake a w = (Inr c, w')"
  then obtain c0 c1 where c0: "connect w = (Inr c0, w')"
    and c1: "(if ca_tls a then connect_with_tls handshake (set_timeout 60 c0) else Inr c0) = Inr c1" "outbox c = outbox c1"
    by (auto simp: allocator_init_def set_timeout_def Let_def split: prod.splits sum.splits option.splits)
  have fresh: "only_reads c0" "only_reads (set_timeout 60 c0)"
    using assms(1) [OF c0] by (simp_all add: only_reads_fresh set_timeout_def)
  have "only_reads c1"
  proof (cases "ca_tls a")
    case True
    then obtain c2 x where tls: "send deserialize_prot_ok_tls (serialize StartTls) (set_timeout 60 c0) = (x, c2)" "handshake c2 = Inr c1"
      using c1(1) by (auto simp: connect_with_tls_def split: prod.splits sum.splits)
    have "only_reads c2" using only_reads_at_most [OF fresh(2) send_wrote_one [OF tls(1)]] by simp
    with assms(2) [OF tls(2)] show ?thesis by (rule only_reads_outbox)
  qed (use c1 fresh in simp)
  then show "only_reads c" using c1(2) by (rule only_reads_outbox [rotated])
next
  fix c w c' w'
  assume "only_reads c" "prealloc_check c w = (Ready c', w')"
  then show "only_reads c'"
    by (auto simp: prealloc_check_def split: prod.splits bool.splits intro: only_reads_at_most is_open_wrote)
qed

lemma action_reads:
  assumes "pooled_action (ask q) c p = (r, p')" "pool_all only_reads p" "only_reads c"
  shows "pool_all only_reads p' \<and> (\<forall>x. r = Inr x \<longrightarrow> answers q x)"
proof -
  obtain x c' where a: "ask q c = (x, c')" by fastforce
  have "only_reads c'" using only_reads_at_most [OF assms(3) ask_wrote [OF a]] by simp
  then have "pool_all only_reads (guard_release c' p)" "pool_all only_reads (guard_drop c' p)"
    using assms(2) by (simp_all add: guard_release_def guard_drop_def inner_release_def drop_permit_def pool_all_def)
  then show ?thesis
    using assms(1) a ask_typed by (cases x) (auto simp: pooled_action_def)
qed

lemma action_answers: "pooled_action (ask q) c p = (Inr x, p') \<Longrightarrow> answers q x"
  by (auto simp: pooled_action_def split: prod.splits sum.splits dest: ask_typed)

lemma pool_ask_reads:
  assumes "item_allocator init prealloc_check only_reads" and "pool_all only_reads p"
    and "pool_ask init q w p = Some (r, w', p')"
  shows "pool_all only_reads p' \<and> (\<forall>x. r = Inr x \<longrightarrow> answers q x)"
proof -
  obtain g w1 p1 where g: "ip_get init w p = Some (g, w1, p1)"
    using assms(3) by (cases "ip_get init w p") (auto simp: pool_ask_def pooled_call_def)
  note first = item_allocator.get_ok [OF assms(1,2) g]
  show ?thesis
  proof (cases g)
    case (Inl e)
    then show ?thesis using first g assms(3) by (auto simp: pool_ask_def pooled_call_def)
  next
    case (Inr c)
    obtain x p2 where x: "pooled_action (ask q) c p1 = (x, p2)" by fastforce
    have one: "pool_all only_reads p2 \<and> (\<forall>y. x = Inr y \<longrightarrow> answers q y)"
      using action_reads [OF x] first Inr by blast
    show ?thesis
    proof (cases "\<exists>err. x = Inl err \<and> retries err")
      case False
      then show ?thesis using one assms(3) g Inr x by (auto simp: pool_ask_def pooled_call_def split: sum.splits)
    next
      case True
      then obtain g2 w3 p3 where g2: "ip_get_checked init prealloc_check w1 p2 = Some (g2, w3, p3)"
        using assms(3) g Inr x by (cases "ip_get_checked init prealloc_check w1 p2") (auto simp: pool_ask_def pooled_call_def)
      note second = item_allocator.get_checked_ok [OF assms(1) conjunct1 [OF one] g2]
      then show ?thesis
        using True assms(3) g Inr x g2
        by (cases g2) (auto simp: pool_ask_def pooled_call_def split: prod.splits dest: action_reads action_answers)
    qed
  qed
qed

section \<open>Properties\<close>



end
