(* ===== verification/Permission_Ops.thy ===== *)
theory Permission_Ops
  imports Tokens
begin

unbundle bit_operations_syntax

text \<open>
  The operations of \<open>Permissions\<close> in \<open>auth/permission.rs\<close> that the pages use: the operators, the iterator behind
  \<open>peekable\<close>, and the text that askama writes. They are shown to be the operations of the flag words.
\<close>

section \<open>Operations\<close>

definition permissions_default :: permissions where
  "permissions_default = 0"

definition permissions_has :: "permissions \<Rightarrow> permissions \<Rightarrow> bool" where
  "permissions_has self rhs = (self AND rhs = rhs)"

definition permissions_set :: "permissions \<Rightarrow> permissions \<Rightarrow> permissions" where
  "permissions_set self v = self OR v"

definition permissions_unset :: "permissions \<Rightarrow> permissions \<Rightarrow> permissions" where
  "permissions_unset self v = self AND NOT v"

definition permissions_len :: "permissions \<Rightarrow> nat" where
  "permissions_len self = count_ones self"

definition permissions_from_u8 :: "8 word \<Rightarrow> permissions" where
  "permissions_from_u8 v = v"

definition permissions_as_u8 :: "permissions \<Rightarrow> 8 word" where
  "permissions_as_u8 self = self"

text \<open>The operators; their assigning forms store the same value.\<close>

definition permissions_bitor :: "permissions \<Rightarrow> permissions \<Rightarrow> permissions" where
  "permissions_bitor self rhs = self OR rhs"

definition permissions_bitand :: "permissions \<Rightarrow> permissions \<Rightarrow> permissions" where
  "permissions_bitand self rhs = self AND rhs"

definition permissions_bitxor :: "permissions \<Rightarrow> permissions \<Rightarrow> permissions" where
  "permissions_bitxor self rhs = self XOR rhs"

text \<open>\<open>Iter::next\<close>: the lowest flag and the state without it.\<close>

definition permissions_next :: "permissions \<Rightarrow> (permissions \<times> permissions) option" where
  "permissions_next state =
     (if state = 0 then None
      else let mask = push_bit (trailing_zeros state) 1; yield_val = state AND mask
           in Some (yield_val, permissions_unset state yield_val))"

lemma permissions_next_flag: "permissions_next = flag_next"
  by (simp add: fun_eq_iff permissions_next_def flag_next_def permissions_unset_def flag_unset_def)

text \<open>The loop of \<open>write_into\<close> over the peekable iterator: after a name, a blank if another one follows.\<close>

function permissions_write_loop :: "permissions \<Rightarrow> string \<Rightarrow> string" where
  "permissions_write_loop state dest =
     (case permissions_next state of
        None \<Rightarrow> dest
      | Some (v, state') \<Rightarrow>
          permissions_write_loop state'
            (dest @ permissions_as_str v @ (if permissions_next state' \<noteq> None then '' '' else [])))"
  by pat_completeness auto
termination
proof (relation "measure (\<lambda>(s, d). count_ones s)", simp)
  fix state :: permissions and dest :: string and p v s
  assume "permissions_next state = Some p" "(v, s) = p"
  then show "((s, dest @ permissions_as_str v @ (if permissions_next s \<noteq> None then '' '' else [])), state, dest) \<in> measure (\<lambda>(s, d). count_ones s)"
    using flag_next_lowest [of state] by (cases "state = 0") (auto simp: permissions_next_flag count_ones_def flag_next_def)
qed

declare permissions_write_loop.simps [simp del]

definition permissions_write_into :: "permissions \<Rightarrow> string \<Rightarrow> string" where
  "permissions_write_into self dest =
     (if permissions_len self > 1 then permissions_write_loop self dest else dest @ permissions_as_str self)"

section \<open>What they do\<close>

lemma write_loop_join:
  "permissions_write_loop state dest = dest @ join_sp (map permissions_as_str (flag_iter state))"
proof (induction state dest rule: permissions_write_loop.induct)
  case (1 state dest)
  show ?case
  proof (cases "permissions_next state")
    case None
    then show ?thesis
      by (simp add: permissions_write_loop.simps [of state] flag_iter.simps [of state] permissions_next_flag)
  next
    case (Some p)
    obtain v s where p: "p = (v, s)" by fastforce
    show ?thesis
    proof (cases "flag_next s")
      case None
      then have "flag_iter s = []" by (simp add: flag_iter.simps [of s])
      then show ?thesis
        using "1.IH" [OF Some p [symmetric]] None Some p
        by (simp add: permissions_write_loop.simps [of state] flag_iter.simps [of state] permissions_next_flag)
    next
      case following: (Some q)
      then obtain w ws where "flag_iter s = w # ws" by (cases q) (simp add: flag_iter.simps [of s])
      then show ?thesis
        using "1.IH" [OF Some p [symmetric]] following Some p
        by (simp add: permissions_write_loop.simps [of state] flag_iter.simps [of state] permissions_next_flag)
    qed
  qed
qed

lemma three_flags:
  assumes "p \<noteq> 0" "permissions_has permissions_all p"
  shows "p \<in> {1, 2, 3, 4, 5, 6, 7}"
proof -
  have "permissions_all = 7" by code_simp
  then have "p AND mask 3 = p" using assms(2) by (simp add: permissions_has_def mask_eq_exp_minus_1 ac_simps)
  then have "take_bit 3 p = p" by (simp add: take_bit_eq_mask)
  then have "take_bit 3 (unat p) = unat p" by (metis unsigned_take_bit_eq)
  then have "unat p < 2 ^ 3" by (metis take_bit_nat_less_exp)
  then have "unat p \<in> {0, 1, 2, 3, 4, 5, 6, 7}" by auto
  then have "p \<in> {0, 1, 2, 3, 4, 5, 6, 7}" by (simp add: word_unat_eq_iff)
  then show ?thesis using assms(1) by simp
qed

text \<open>The text of a set of permissions, and what the users file makes of the names in it: reading the printed
  names gives back every non-empty set of the three permissions. The operators are those of sets, and the page
  writes the text that \<open>Display\<close> gives.\<close>

theorem permissions_text:
  "permissions_write_into p dest = dest @ permissions_fmt p"
  "p \<noteq> 0 \<Longrightarrow> permissions_has permissions_all p \<Longrightarrow> permissions_visit_seq permissions_default (map permissions_as_str (flag_iter p)) = Some p"
  "permissions_has p q \<longleftrightarrow> permissions_bitand p q = q" "permissions_bitor p q = permissions_set p q"
  "permissions_unset (permissions_set p q) q = permissions_unset p q" "permissions_bitxor (permissions_bitxor p q) q = p"
  "permissions_len p = length (flag_iter p)"
proof -
  show "permissions_write_into p dest = dest @ permissions_fmt p"
    by (simp add: permissions_write_into_def permissions_fmt_def permissions_len_def write_loop_join)
  show "permissions_visit_seq permissions_default (map permissions_as_str (flag_iter p)) = Some p"
    if "p \<noteq> 0" "permissions_has permissions_all p"
  proof -
    have "p \<in> {1, 2, 3, 4, 5, 6, 7}" using that by (rule three_flags)
    then show ?thesis by (elim insertE emptyE) (hypsubst, code_simp)+
  qed
  show "permissions_unset (permissions_set p q) q = permissions_unset p q"
    by (simp add: permissions_unset_def permissions_set_def bit.conj_disj_distrib2)
  show "permissions_bitxor (permissions_bitxor p q) q = p" by (simp add: permissions_bitxor_def ac_simps)
qed (simp_all add: permissions_has_def permissions_bitand_def permissions_bitor_def permissions_set_def permissions_len_def length_flag_iter)

end
