(* ===== verification/Sockets.thy ===== *)
theory Sockets
  imports Daemon_State Tokens
begin

text \<open>
  The addresses that \<open>sync/reverse_dns.rs\<close> hands to \<open>getnameinfo\<close>, as the bytes they have in memory. The machine may
  store integers with either end first; the structures of C take addresses in network order. Fields that are
  zero are written out. \<open>getnameinfo\<close> and \<open>gai_strerror\<close> are parameters.
\<close>

datatype endian = Little_Endian | Big_Endian

text \<open>The bytes of an integer of \<open>k\<close> bytes in memory, and \<open>to_be\<close>, which swaps them on a little endian machine.\<close>

fun native_bytes :: "endian \<Rightarrow> nat \<Rightarrow> nat \<Rightarrow> bytes" where
  "native_bytes Little_Endian k n = le_bytes k n"
| "native_bytes Big_Endian k n = rev (le_bytes k n)"

fun to_be :: "endian \<Rightarrow> nat \<Rightarrow> nat \<Rightarrow> nat" where
  "to_be Little_Endian k n = le_val (rev (le_bytes k n))"
| "to_be Big_Endian k n = n"

text \<open>\<open>to_bits\<close> of an address: its octets, the first one the most significant.\<close>

definition ipv4_to_bits :: "8 word list \<Rightarrow> nat" where
  "ipv4_to_bits os = le_val (rev os)"

definition group_octets :: "16 word \<Rightarrow> 8 word list" where
  "group_octets g = [ucast (drop_bit 8 g), ucast g]"

definition ipv6_to_bits :: "16 word list \<Rightarrow> nat" where
  "ipv6_to_bits gs = le_val (rev (concat (map group_octets gs)))"

record sockaddr_in =
  sin_family :: nat
  sin_port :: nat
  sin_addr :: nat
  sin_zero :: bytes

record sockaddr_in6 =
  sin6_family :: nat
  sin6_port :: nat
  sin6_addr :: bytes
  sin6_flowinfo :: nat
  sin6_scope_id :: nat

definition AF_INET :: nat where
  "AF_INET = 2"

definition AF_INET6 :: nat where
  "AF_INET6 = 10"

text \<open>What \<open>getnameinfo\<close> is given: one of the two structures.\<close>

datatype sockaddr = Inet sockaddr_in | Inet6 sockaddr_in6

definition lookup_inner ::
    "(sockaddr \<Rightarrow> int \<times> string) \<Rightarrow> (int \<Rightarrow> string option) \<Rightarrow> sockaddr \<Rightarrow> dns_error + string" where
  "lookup_inner getnameinfo gai_strerror socket =
     (case getnameinfo socket of (errcode, host) \<Rightarrow>
        if errcode \<noteq> 0 then Inl (dns_error_from_code gai_strerror errcode)
        else (case cstr_until_nul host of
                None \<Rightarrow> Inl InvalidCStr
              | Some s \<Rightarrow> if utf8_valid s then Inr s else Inl DnsInvalidUtf8))"

definition lookup_ipv4 ::
    "endian \<Rightarrow> (sockaddr \<Rightarrow> int \<times> string) \<Rightarrow> (int \<Rightarrow> string option) \<Rightarrow> 8 word list \<Rightarrow> dns_error + string" where
  "lookup_ipv4 e getnameinfo gai_strerror ip =
     lookup_inner getnameinfo gai_strerror
       (Inet \<lparr>sin_family = AF_INET, sin_port = 0, sin_addr = to_be e 4 (ipv4_to_bits ip), sin_zero = replicate 8 0\<rparr>)"

definition lookup_ipv6 ::
    "(sockaddr \<Rightarrow> int \<times> string) \<Rightarrow> (int \<Rightarrow> string option) \<Rightarrow> 16 word list \<Rightarrow> dns_error + string" where
  "lookup_ipv6 getnameinfo gai_strerror ip =
     lookup_inner getnameinfo gai_strerror
       (Inet6 \<lparr>sin6_family = AF_INET6, sin6_port = 0, sin6_addr = rev (le_bytes 16 (ipv6_to_bits ip)),
               sin6_flowinfo = 0, sin6_scope_id = 0\<rparr>)"

fun lookup_addr ::
    "endian \<Rightarrow> (sockaddr \<Rightarrow> int \<times> string) \<Rightarrow> (int \<Rightarrow> string option) \<Rightarrow> ip_addr \<Rightarrow> dns_error + string" where
  "lookup_addr e getnameinfo gai_strerror (V4 ip) = lookup_ipv4 e getnameinfo gai_strerror ip"
| "lookup_addr e getnameinfo gai_strerror (V6 ip) = lookup_ipv6 getnameinfo gai_strerror ip"

text \<open>\<open>Display\<close>; \<open>lossy\<close> is \<open>CString::to_string_lossy\<close> on texts that are not UTF-8.\<close>

fun dns_error_fmt :: "(string \<Rightarrow> string) \<Rightarrow> dns_error \<Rightarrow> string" where
  "dns_error_fmt lossy InvalidCStr = ''invalid cstr returned''"
| "dns_error_fmt lossy DnsInvalidUtf8 = ''cstr not a valid utf-8''"
| "dns_error_fmt lossy UnspecifiedError = ''lookup failed with no error message''"
| "dns_error_fmt lossy (NameInfoError inner) = (if utf8_valid inner then inner else lossy inner)"

section \<open>Network order\<close>

text \<open>The octets of an address as the resolver reads them from memory.\<close>

fun address_octets :: "endian \<Rightarrow> sockaddr \<Rightarrow> bytes" where
  "address_octets e (Inet a) = native_bytes e 4 (sin_addr a)"
| "address_octets e (Inet6 a) = sin6_addr a"

fun ip_octets :: "ip_addr \<Rightarrow> bytes" where
  "ip_octets (V4 os) = os"
| "ip_octets (V6 gs) = concat (map group_octets gs)"

lemma rev_bytes: "length os = k \<Longrightarrow> rev (le_bytes k (le_val (rev os))) = os"
  using le_bytes_le_val [of "rev os"] by simp

lemma network_order: "length os = 4 \<Longrightarrow> native_bytes e 4 (to_be e 4 (ipv4_to_bits os)) = os"
  using le_bytes_le_val [of os] by (cases e) (simp_all add: ipv4_to_bits_def rev_bytes)

text \<open>The resolver is asked for exactly the address, on machines of both kinds: the octets it finds in memory are those of
  the address, first octet first.\<close>

theorem lookup_asks_for_address:
  assumes "case ip of V4 os \<Rightarrow> length os = 4 | V6 gs \<Rightarrow> length gs = 8"
  shows "\<exists>sock. address_octets e sock = ip_octets ip
    \<and> lookup_addr e getnameinfo gai_strerror ip = lookup_ip (\<lambda>_. getnameinfo sock) gai_strerror ip"
proof (cases ip)
  case (V4 os)
  then show ?thesis
    using assms network_order [of os e]
    by (intro exI [of _ "Inet \<lparr>sin_family = AF_INET, sin_port = 0, sin_addr = to_be e 4 (ipv4_to_bits os), sin_zero = replicate 8 0\<rparr>"])
      (simp add: lookup_ipv4_def lookup_inner_def lookup_ip_def)
next
  case (V6 gs)
  have "length (concat (map group_octets gs)) = 16"
    using assms V6 by (simp add: length_concat group_octets_def comp_def sum_list_triv)
  then show ?thesis
    using V6 rev_bytes [of "concat (map group_octets gs)" 16]
    by (intro exI [of _ "Inet6 \<lparr>sin6_family = AF_INET6, sin6_port = 0, sin6_addr = rev (le_bytes 16 (ipv6_to_bits gs)),
               sin6_flowinfo = 0, sin6_scope_id = 0\<rparr>"]) (simp add: lookup_ipv6_def lookup_inner_def lookup_ip_def ipv6_to_bits_def)
qed

end
