(* ===== verification/Device_Sync.thy ===== *)
theory Device_Sync
  imports Daemon_State "HOL-Library.Multiset"
begin

text \<open>
  \<open>sync/sync_device.rs\<close>: the service that keeps the device table of one daemon in step with the
  daemon's device list. What the daemon answers in one round is the record \<open>upsd\<close>: one field per
  request of the pooled client. \<open>try_join!\<close> is modelled as the first failing argument in order,
  \<open>it\<close> is the iteration order of a hash map of variables, \<open>order\<close> the order in which a \<open>JoinSet\<close>
  yields the results of its tasks, and \<open>Inl None\<close> a panic, which a joined task turns into a join
  error. A round has two phases, because the table is unlocked while the devices are loaded:
  \<open>diff_upsd\<close> on the table it reads and \<open>device_apply\<close> on the table it locks afterwards.
\<close>

section \<open>Answers and errors\<close>

record upsd =
  q_list_ups :: "fault + ups_device list"
  q_protver :: "fault + string"
  q_ver :: "fault + string"
  q_list_client :: "ups_name \<Rightarrow> fault + client_list"
  q_list_cmd :: "ups_name \<Rightarrow> fault + cmd_list"
  q_list_rw :: "ups_name \<Rightarrow> fault + rw_list"
  q_list_var :: "ups_name \<Rightarrow> fault + ups_var_list"
  q_var_type :: "ups_name \<Rightarrow> var_name \<Rightarrow> fault + ups_var_type"
  q_list_enum :: "ups_name \<Rightarrow> var_name \<Rightarrow> fault + enum_list"
  q_list_range :: "ups_name \<Rightarrow> var_name \<Rightarrow> fault + range_list"
  q_get_var :: "ups_name \<Rightarrow> var_name \<Rightarrow> fault + ups_var"
  q_cmd_desc :: "ups_name \<Rightarrow> cmd_name \<Rightarrow> fault + cmd_desc"
  q_var_desc :: "ups_name \<Rightarrow> var_name \<Rightarrow> fault + ups_var_desc"

datatype sync_task_error = ClientError error_kind | DeviceLoadFailed

record device_load_error =
  dl_inner :: error_kind
  dl_name :: ups_name

type_synonym 'a load_result = "device_load_error option + 'a"

definition map_load_err :: "ups_name \<Rightarrow> fault + 'a \<Rightarrow> 'a load_result" where
  "map_load_err name r =
     (case r of
        Inr val \<Rightarrow> Inr val
      | Inl (Err err) \<Rightarrow> Inl (Some \<lparr>dl_inner = err, dl_name = name\<rparr>)
      | Inl Panic \<Rightarrow> Inl None)"

definition sync_err :: "fault + 'a \<Rightarrow> sync_task_error option + 'a" where
  "sync_err r =
     (case r of Inr x \<Rightarrow> Inr x | Inl (Err err) \<Rightarrow> Inl (Some (ClientError err)) | Inl Panic \<Rightarrow> Inl None)"

section \<open>Loading a device\<close>

fun var_detail_loop :: "upsd \<Rightarrow> ups_name \<Rightarrow> var_name \<Rightarrow> var_type list \<Rightarrow> (var_name \<times> var_detail) load_result" where
  "var_detail_loop a ups var [] = Inr (var, VD_String 64)"
| "var_detail_loop a ups var (ReadWrite # ts) = var_detail_loop a ups var ts"
| "var_detail_loop a ups var (Enum # ts) =
     bind_res (map_load_err ups (q_list_enum a ups var)) (\<lambda>l. Inr (el_name l, VD_Enum (el_values l)))"
| "var_detail_loop a ups var (Range # ts) =
     bind_res (map_load_err ups (q_list_range a ups var)) (\<lambda>l.
       if rl_ranges l = [] then Inr (rl_name l, VD_Range (V_Int i64_min) (V_Int i64_max))
       else Inr (rl_name l, VD_Range (fst (last (rl_ranges l))) (snd (last (rl_ranges l)))))"
| "var_detail_loop a ups var (VT_String max_len # ts) = Inr (var, VD_String max_len)"
| "var_detail_loop a ups var (Number # ts) = Inr (var, VD_Number)"

definition load_var_detail :: "upsd \<Rightarrow> ups_name \<Rightarrow> var_name \<Rightarrow> (var_name \<times> var_detail) load_result" where
  "load_var_detail a ups var =
     bind_res (map_load_err ups (q_var_type a ups var)) (\<lambda>info. var_detail_loop a ups var (uvt_var_types info))"

text \<open>The inserts of the loop over the loaded details; a failed one is left out.\<close>

definition insert_details :: "(var_name \<times> var_detail) load_result list \<Rightarrow> (var_name \<rightharpoonup> var_detail)" where
  "insert_details rs = foldl (\<lambda>m r. case r of Inr (n, d) \<Rightarrow> m(n \<mapsto> d) | Inl _ \<Rightarrow> m) Map.empty rs"

definition status_of :: "ups_variables \<Rightarrow> ups_status" where
  "status_of vars = (case vars UPS_STATUS of Some v \<Rightarrow> status_from_value v | None \<Rightarrow> 0)"

definition load_device_entry ::
    "(ups_variables \<Rightarrow> var_name list) \<Rightarrow> (ip_addr \<Rightarrow> 'e + string) \<Rightarrow> time \<Rightarrow> upsd \<Rightarrow> ups_device \<Rightarrow> device_entry load_result" where
  "load_device_entry it lookup now a device =
     (let ups = dev_ups_name device in
      bind_res (map_load_err ups
          (bind_res (q_list_client a ups) (\<lambda>clients.
           bind_res (q_list_cmd a ups) (\<lambda>commands.
           bind_res (q_list_rw a ups) (\<lambda>rw_vars.
           bind_res (q_list_var a ups) (\<lambda>vars. Inr (clients, commands, rw_vars, vars)))))))
        (\<lambda>(clients, commands, rw_vars, vars).
          let details = map (load_var_detail a ups) (it (rw_variables rw_vars)) in
          if Inl None \<in> set details then Inl None
          else Inr \<lparr>de_attached = map (client_info_of lookup) (cl_ips clients),
                    de_commands = cml_cmds commands, de_desc = dev_desc device, de_last_modified = now,
                    de_name = ups, de_rw_variables = insert_details details,
                    de_status = status_of (vl_variables vars), de_variables = vl_variables vars\<rparr>))"

section \<open>The difference\<close>

record device_diff_patch =
  dp_added :: "device_entry list"
  dp_deleted :: "ups_name list"
  dp_updated :: "ups_device list"
  dp_prot_ver :: string
  dp_upsd_ver :: string

definition deleted_devices :: "daemon_state \<Rightarrow> ups_device list \<Rightarrow> ups_name list" where
  "deleted_devices st remote =
     filter (\<lambda>local. find (\<lambda>v. dev_ups_name v = local) remote = None) (map fst (ds_devices st))"

text \<open>The loop over the remote devices: the new ones, the ones to check again, the ones with another
  description.\<close>

fun split_remote ::
    "daemon_state \<Rightarrow> ups_device list \<Rightarrow> ups_device list \<times> ups_device list \<times> ups_device list" where
  "split_remote st [] = ([], [], [])"
| "split_remote st (d # ds) =
     (case split_remote st ds of (new_devices, recheck_devices, updated) \<Rightarrow>
        (case map_of (ds_devices st) (dev_ups_name d) of
           Some local \<Rightarrow>
             if st_has (de_status local) ST_NOCOMM then (new_devices, d # recheck_devices, updated)
             else if de_desc local \<noteq> dev_desc d then (new_devices, recheck_devices, d # updated)
             else (new_devices, recheck_devices, updated)
         | None \<Rightarrow> (d # new_devices, recheck_devices, updated)))"

definition nocomm_entry :: "time \<Rightarrow> ups_name \<Rightarrow> device_entry" where
  "nocomm_entry now name =
     \<lparr>de_attached = [], de_commands = [], de_desc = [], de_last_modified = now, de_name = name,
      de_rw_variables = Map.empty, de_status = ST_NOCOMM, de_variables = Map.empty\<rparr>"

text \<open>The loops over the joined tasks: the entries they push and the failures they count.\<close>

fun join_new :: "time \<Rightarrow> device_entry load_result list \<Rightarrow> device_entry list \<times> nat" where
  "join_new now [] = ([], 0)"
| "join_new now (r # rs) =
     (case join_new now rs of (added, failure_count) \<Rightarrow>
        (case r of
           Inr device \<Rightarrow> (device # added, failure_count)
         | Inl (Some err) \<Rightarrow> (nocomm_entry now (dl_name err) # added, Suc failure_count)
         | Inl None \<Rightarrow> (added, Suc failure_count)))"

fun join_recheck :: "device_entry load_result list \<Rightarrow> device_entry list \<times> nat" where
  "join_recheck [] = ([], 0)"
| "join_recheck (r # rs) =
     (case join_recheck rs of (added, failure_count) \<Rightarrow>
        (case r of Inr device \<Rightarrow> (device # added, failure_count) | Inl _ \<Rightarrow> (added, Suc failure_count)))"

definition diff_upsd ::
    "(ups_variables \<Rightarrow> var_name list) \<Rightarrow> (ip_addr \<Rightarrow> 'e + string)
       \<Rightarrow> (device_entry load_result list \<Rightarrow> device_entry load_result list)
       \<Rightarrow> time \<Rightarrow> upsd \<Rightarrow> daemon_state \<Rightarrow> sync_task_error option + device_diff_patch" where
  "diff_upsd it lookup order now a st =
     bind_res (sync_err (q_list_ups a)) (\<lambda>remote.
     bind_res (sync_err (q_protver a)) (\<lambda>prot_ver.
     bind_res (sync_err (q_ver a)) (\<lambda>upsd_ver.
       case split_remote st remote of (new_devices, recheck_devices, updated) \<Rightarrow>
       case join_new now (order (map (load_device_entry it lookup now a) new_devices)) of (added1, failures1) \<Rightarrow>
       case join_recheck (order (map (load_device_entry it lookup now a) recheck_devices)) of (added2, failures2) \<Rightarrow>
         if failures1 + failures2 < length remote then
           Inr \<lparr>dp_added = added1 @ added2, dp_deleted = deleted_devices st remote, dp_updated = updated,
                dp_prot_ver = prot_ver, dp_upsd_ver = upsd_ver\<rparr>
         else Inl (Some DeviceLoadFailed))))"

section \<open>Applying it\<close>

type_synonym device_table = "(ups_name \<times> device_entry) list"

definition apply_added :: "device_entry list \<Rightarrow> device_table \<times> event_batch \<Rightarrow> device_table \<times> event_batch" where
  "apply_added added s =
     foldl (\<lambda>(devices, events) entry.
        (AList.update (de_name entry) entry devices, new_device (de_name entry) events)) s added"

definition apply_updated :: "ups_device list \<Rightarrow> device_table \<times> event_batch \<Rightarrow> device_table \<times> event_batch" where
  "apply_updated updated s =
     foldl (\<lambda>(devices, events) entry.
        case map_of devices (dev_ups_name entry) of
          Some device \<Rightarrow>
            (AList.update (dev_ups_name entry) (device\<lparr>de_desc := dev_desc entry\<rparr>) devices,
             updated_device (dev_ups_name entry) events)
        | None \<Rightarrow> (devices, events)) s updated"

definition apply_deleted :: "ups_name list \<Rightarrow> device_table \<times> event_batch \<Rightarrow> device_table \<times> event_batch" where
  "apply_deleted deleted s =
     foldl (\<lambda>(devices, events) name. (AList.delete name devices, removed_device name events)) s deleted"

text \<open>The two branches of \<open>next\<close> under the write lock: the state and the events they leave.\<close>

definition apply_patch :: "string \<Rightarrow> time \<Rightarrow> device_diff_patch \<Rightarrow> daemon_state \<Rightarrow> daemon_state \<times> event_batch" where
  "apply_patch ns now patch st =
     (case apply_deleted (dp_deleted patch) (apply_updated (dp_updated patch)
             (apply_added (dp_added patch) (ds_devices st, event_batch_new ns))) of
        (devices, events) \<Rightarrow>
          (st\<lparr>ds_devices := devices, ds_status := Online, ds_last_device_sync := Some now,
              ds_prot_ver := Some (dp_prot_ver patch), ds_ver := Some (dp_upsd_ver patch)\<rparr>,
           if ds_status st \<noteq> Online then set_upsd_status Online events else events))"

definition apply_failure :: "string \<Rightarrow> time \<Rightarrow> daemon_state \<Rightarrow> daemon_state \<times> event_batch" where
  "apply_failure ns now st =
     (let events = foldl (\<lambda>b (name, _). removed_device name b) (event_batch_new ns) (ds_devices st);
          (st, events) =
            (if ds_status st \<noteq> Dead
             then (st\<lparr>ds_status := Dead, ds_prot_ver := None, ds_ver := None\<rparr>, set_upsd_status Dead events)
             else (st, events)) in
      (st\<lparr>ds_devices := [], ds_last_device_sync := Some now\<rparr>, events))"

text \<open>The second half of \<open>next\<close>; a panic of the difference ends the service before it.\<close>

definition device_apply ::
    "('c \<Rightarrow> system_event \<Rightarrow> bool \<times> 'c) \<Rightarrow> string \<Rightarrow> time \<Rightarrow> sync_task_error option + device_diff_patch
       \<Rightarrow> daemon_state \<Rightarrow> 'c \<Rightarrow> ((sync_task_error + unit) \<times> daemon_state \<times> 'c) option" where
  "device_apply send ns now diff st c =
     (case diff of
        Inr patch \<Rightarrow>
          (case apply_patch ns now patch st of (st', events) \<Rightarrow> Some (Inr (), st', snd (batch_send send events c)))
      | Inl (Some err) \<Rightarrow>
          (case apply_failure ns now st of (st', events) \<Rightarrow> Some (Inl err, st', snd (batch_send send events c)))
      | Inl None \<Rightarrow> None)"

text \<open>One undisturbed round of \<open>next\<close>.\<close>

definition device_next ::
    "(ups_variables \<Rightarrow> var_name list) \<Rightarrow> (ip_addr \<Rightarrow> 'e + string)
       \<Rightarrow> (device_entry load_result list \<Rightarrow> device_entry load_result list) \<Rightarrow> ('c \<Rightarrow> system_event \<Rightarrow> bool \<times> 'c) \<Rightarrow> string \<Rightarrow> time \<Rightarrow> upsd \<Rightarrow> daemon_state \<Rightarrow> 'c
       \<Rightarrow> ((sync_task_error + unit) \<times> daemon_state \<times> 'c) option" where
  "device_next it lookup order send ns now a st c =
     device_apply send ns now (diff_upsd it lookup order now a st) st c"

section \<open>Loaded devices\<close>

lemma load_device_entry_name:
  "load_device_entry it lookup now a d = Inr e \<Longrightarrow> de_name e = dev_ups_name d"
  by (auto simp: load_device_entry_def Let_def bind_res_eq_Inr split: if_splits)

lemma load_device_entry_err:
  "load_device_entry it lookup now a d = Inl (Some err) \<Longrightarrow> dl_name err = dev_ups_name d"
  by (auto simp: load_device_entry_def Let_def bind_res_eq_Inl map_load_err_def split: if_splits sum.splits fault.splits)

section \<open>The device table\<close>

named_theorems table_simps \<open>one step of the loops over a patch\<close>

lemma apply_added_simps [table_simps]:
  "apply_added [] s = s"
  "apply_added (e # es) (devs, b) = apply_added es (AList.update (de_name e) e devs, new_device (de_name e) b)"
  by (simp_all add: apply_added_def)

lemma apply_updated_simps [table_simps]:
  "apply_updated [] s = s"
  "apply_updated (d # ds) (devs, b) = apply_updated ds
     (case map_of devs (dev_ups_name d) of
        Some e \<Rightarrow> (AList.update (dev_ups_name d) (e\<lparr>de_desc := dev_desc d\<rparr>) devs, updated_device (dev_ups_name d) b)
      | None \<Rightarrow> (devs, b))"
  by (simp_all add: apply_updated_def)

lemma apply_deleted_simps [table_simps]:
  "apply_deleted [] s = s"
  "apply_deleted (n # ns) (devs, b) = apply_deleted ns (AList.delete n devs, removed_device n b)"
  by (simp_all add: apply_deleted_def)

lemmas [table_simps] = update_conv delete_conv

text \<open>What the table maps a name to after each loop.\<close>

lemma apply_added_lookup_other:
  "n \<notin> de_name ` set es \<Longrightarrow> map_of (fst (apply_added es (devs, b))) n = map_of devs n"
  by (induction es arbitrary: devs b) (simp_all add: table_simps)

lemma apply_added_lookup:
  assumes "\<And>e. e \<in> set es \<Longrightarrow> de_name e = n \<Longrightarrow> e = e0" and "e0 \<in> set es" and "de_name e0 = n"
  shows "map_of (fst (apply_added es (devs, b))) n = Some e0"
  using assms
proof (induction es arbitrary: devs b)
  case (Cons e es)
  show ?case
  proof (cases "e0 \<in> set es")
    case True
    then show ?thesis using Cons by (simp add: table_simps)
  next
    case False
    then have "e = e0" using Cons.prems by simp
    moreover have "n \<notin> de_name ` set es" using False Cons.prems(1) by fastforce
    ultimately show ?thesis
      using Cons.prems(3) by (simp add: table_simps apply_added_lookup_other)
  qed
qed simp

lemma apply_updated_lookup:
  assumes "distinct (map dev_ups_name ds)"
  shows "map_of (fst (apply_updated ds (devs, b))) n =
    (case find (\<lambda>d. dev_ups_name d = n) ds of
       Some d \<Rightarrow> map_option (\<lambda>e. e\<lparr>de_desc := dev_desc d\<rparr>) (map_of devs n)
     | None \<Rightarrow> map_of devs n)"
  using assms
proof (induction ds arbitrary: devs b)
  case (Cons d ds)
  then have "dev_ups_name d = n \<Longrightarrow> find (\<lambda>d. dev_ups_name d = n) ds = None"
    by (auto simp: find_None_iff image_iff)
  then show ?case
    using Cons by (cases "map_of devs (dev_ups_name d)")
      (auto simp: table_simps split: option.split)
qed (simp add: table_simps)

lemma apply_deleted_lookup:
  "map_of (fst (apply_deleted ns (devs, b))) n = (if n \<in> set ns then None else map_of devs n)"
  by (induction ns arbitrary: devs b) (simp_all add: table_simps)

text \<open>The well-formed tables: every name once, every entry under its own name.\<close>

definition table_ok :: "device_table \<Rightarrow> bool" where
  "table_ok devs \<longleftrightarrow> distinct (map fst devs) \<and> list_all (\<lambda>(n, e). de_name e = n) devs"

lemma table_ok_Nil [simp]: "table_ok []"
  by (simp add: table_ok_def)

lemma table_ok_update: "table_ok devs \<Longrightarrow> de_name e = n \<Longrightarrow> table_ok (AList.update n e devs)"
proof (induction devs)
  case (Cons p devs)
  then show ?case
    by (cases p) (auto simp: table_ok_def update_keys simp flip: set_map)
qed (simp add: table_ok_def)

lemma table_ok_delete: "table_ok devs \<Longrightarrow> table_ok (AList.delete n devs)"
  by (induction devs) (auto simp: table_ok_def delete_keys list_all_iff)

lemma table_ok_lookup: "table_ok devs \<Longrightarrow> map_of devs n = Some e \<Longrightarrow> de_name e = n"
  by (fastforce simp: table_ok_def list_all_iff dest: map_of_SomeD)

lemma apply_loops_ok:
  assumes "table_ok devs"
  shows "table_ok (fst (apply_added es (devs, b)))" "table_ok (fst (apply_updated ds (devs, b)))"
    "table_ok (fst (apply_deleted ns (devs, b)))"
proof -
  show "table_ok (fst (apply_added es (devs, b)))"
    using assms by (induction es arbitrary: devs b) (simp_all add: table_simps table_ok_update)
  show "table_ok (fst (apply_updated ds (devs, b)))"
    using assms by (induction ds arbitrary: devs b)
      (simp_all add: table_simps table_ok_update table_ok_lookup split: option.split)
  show "table_ok (fst (apply_deleted ns (devs, b)))"
    using assms by (induction ns arbitrary: devs b) (simp_all add: table_simps table_ok_delete)
qed

section \<open>What a round computes\<close>

text \<open>The specification of a round, per remote device: a new device is loaded or reported as not
  communicating, a device that did not communicate is loaded or left, and any other device keeps
  its entry with the description the daemon gives.\<close>

definition synced ::
    "(ups_device \<Rightarrow> device_entry load_result) \<Rightarrow> time \<Rightarrow> device_table \<Rightarrow> ups_device \<Rightarrow> device_entry option" where
  "synced load now devs d =
     (case map_of devs (dev_ups_name d) of
        None \<Rightarrow>
          (case load d of
             Inr e \<Rightarrow> Some e
           | Inl (Some _) \<Rightarrow> Some (nocomm_entry now (dev_ups_name d))
           | Inl None \<Rightarrow> None)
      | Some e \<Rightarrow>
          if st_has (de_status e) ST_NOCOMM then (case load d of Inr e' \<Rightarrow> Some e' | Inl _ \<Rightarrow> Some e)
          else Some (e\<lparr>de_desc := dev_desc d\<rparr>))"

text \<open>What a joined task contributes.\<close>

definition pushed :: "time \<Rightarrow> device_entry load_result \<Rightarrow> device_entry option" where
  "pushed now r =
     (case r of Inr e \<Rightarrow> Some e | Inl (Some err) \<Rightarrow> Some (nocomm_entry now (dl_name err)) | Inl None \<Rightarrow> None)"

lemma join_new_set: "e \<in> set (fst (join_new now rs)) \<longleftrightarrow> (\<exists>r\<in>set rs. pushed now r = Some e)"
proof (induction rs)
  case (Cons r rs)
  obtain added n where "join_new now rs = (added, n)" by fastforce
  then show ?case using Cons
    by (cases r; cases "projl r") (auto simp: pushed_def)
qed simp

lemma join_recheck_set: "e \<in> set (fst (join_recheck rs)) \<longleftrightarrow> Inr e \<in> set rs"
proof (induction rs)
  case (Cons r rs)
  obtain added n where "join_recheck rs = (added, n)" by fastforce
  then show ?case using Cons by (cases r) auto
qed simp

definition is_new :: "daemon_state \<Rightarrow> ups_device \<Rightarrow> bool" where
  "is_new st d \<longleftrightarrow> map_of (ds_devices st) (dev_ups_name d) = None"

definition is_silent :: "daemon_state \<Rightarrow> ups_device \<Rightarrow> bool" where
  "is_silent st d \<longleftrightarrow>
     (case map_of (ds_devices st) (dev_ups_name d) of Some e \<Rightarrow> st_has (de_status e) ST_NOCOMM | None \<Rightarrow> False)"

definition is_renamed :: "daemon_state \<Rightarrow> ups_device \<Rightarrow> bool" where
  "is_renamed st d \<longleftrightarrow>
     (case map_of (ds_devices st) (dev_ups_name d) of
        Some e \<Rightarrow> \<not> st_has (de_status e) ST_NOCOMM \<and> de_desc e \<noteq> dev_desc d
      | None \<Rightarrow> False)"

lemma split_remote_filter:
  "split_remote st remote = (filter (is_new st) remote, filter (is_silent st) remote, filter (is_renamed st) remote)"
  by (induction remote) (simp_all add: is_new_def is_silent_def is_renamed_def split: option.split)

lemma find_by_name:
  "distinct (map dev_ups_name ds) \<Longrightarrow> d \<in> set ds \<Longrightarrow> find (\<lambda>x. dev_ups_name x = dev_ups_name d) ds = Some d"
  by (induction ds) auto

lemma distinct_names_filter: "distinct (map dev_ups_name ds) \<Longrightarrow> distinct (map dev_ups_name (filter P ds))"
  by (induction ds) auto

lemma find_name_None: "n \<notin> dev_ups_name ` set ds \<Longrightarrow> find (\<lambda>x. dev_ups_name x = n) ds = None"
  by (auto simp: find_None_iff)

lemma added_entries:
  assumes "\<And>rs. set (order rs) = set rs"
    and "join_new now (order (map load (filter (is_new st) remote))) = (added1, n1)"
    and "join_recheck (order (map load (filter (is_silent st) remote))) = (added2, n2)"
  shows "e \<in> set (added1 @ added2) \<longleftrightarrow>
    (\<exists>d\<in>set remote. is_new st d \<and> pushed now (load d) = Some e \<or> is_silent st d \<and> load d = Inr e)"
  using join_new_set [of e now "order (map load (filter (is_new st) remote))"]
    join_recheck_set [of e "order (map load (filter (is_silent st) remote))"] assms
  by (auto simp: image_iff)

lemma diff_upsd_Inr:
  assumes "diff_upsd it lookup order now a st = Inr patch" "q_list_ups a = Inr remote"
  obtains added1 n1 added2 n2 where
    "join_new now (order (map (load_device_entry it lookup now a) (filter (is_new st) remote))) = (added1, n1)"
    "join_recheck (order (map (load_device_entry it lookup now a) (filter (is_silent st) remote))) = (added2, n2)"
    "n1 + n2 < length remote" "dp_added patch = added1 @ added2" "dp_deleted patch = deleted_devices st remote"
    "dp_updated patch = filter (is_renamed st) remote" "q_protver a = Inr (dp_prot_ver patch)" "q_ver a = Inr (dp_upsd_ver patch)"
proof -
  obtain added1 n1 where 1: "join_new now (order (map (load_device_entry it lookup now a) (filter (is_new st) remote))) = (added1, n1)"
    by fastforce
  obtain added2 n2 where 2: "join_recheck (order (map (load_device_entry it lookup now a) (filter (is_silent st) remote))) = (added2, n2)"
    by fastforce
  show thesis
    using assms 1 2
    by (intro that [OF 1 2]; cases "q_protver a"; cases "q_ver a")
      (auto simp: diff_upsd_def sync_err_def split_remote_filter bind_res_eq_Inr split: fault.splits if_splits)
qed

lemma added_pairs:
  "apply_patch ns now patch st = (st', b) \<Longrightarrow>
   ds_devices st' = fst (apply_deleted (dp_deleted patch) (apply_updated (dp_updated patch)
     (apply_added (dp_added patch) (ds_devices st, event_batch_new ns))))"
  by (auto simp: apply_patch_def split: prod.splits)

lemma name_unique:
  "distinct (map dev_ups_name ds) \<Longrightarrow> x \<in> set ds \<Longrightarrow> d \<in> set ds \<Longrightarrow> dev_ups_name x = dev_ups_name d \<Longrightarrow> x = d"
  using find_by_name by (metis option.inject)

lemma loaded_name:
  assumes "pushed now (load_device_entry it lookup now a x) = Some e \<or> load_device_entry it lookup now a x = Inr e"
  shows "de_name e = dev_ups_name x"
  using assms by (auto simp: pushed_def nocomm_entry_def split: sum.splits option.splits
      dest: load_device_entry_name load_device_entry_err)

text \<open>What the round adds for a remote device, if anything.\<close>

definition addition :: "(ups_device \<Rightarrow> device_entry load_result) \<Rightarrow> time \<Rightarrow> daemon_state \<Rightarrow> ups_device \<Rightarrow> device_entry option" where
  "addition load now st d =
     (if is_new st d then pushed now (load d)
      else if is_silent st d then (case load d of Inr e \<Rightarrow> Some e | Inl _ \<Rightarrow> None) else None)"

lemma addition_iff:
  "addition load now st d = Some e \<longleftrightarrow> is_new st d \<and> pushed now (load d) = Some e \<or> is_silent st d \<and> load d = Inr e"
  by (auto simp: addition_def is_new_def is_silent_def split: sum.splits option.splits)

lemma addition_lookup:
  assumes "\<And>e. e \<in> set added \<longleftrightarrow> (\<exists>d\<in>set remote. addition load now st0 d = Some e)"
    and "\<And>x e. addition load now st0 x = Some e \<Longrightarrow> de_name e = dev_ups_name x"
    and "distinct (map dev_ups_name remote)" and "d \<in> set remote"
  shows "map_of (fst (apply_added added (devs, b))) (dev_ups_name d) =
    (case addition load now st0 d of Some e \<Rightarrow> Some e | None \<Rightarrow> map_of devs (dev_ups_name d))"
proof (cases "addition load now st0 d")
  case None
  then have "dev_ups_name d \<notin> de_name ` set added"
    using assms name_unique [OF assms(3)] by (metis image_iff option.simps(3))
  then show ?thesis using None by (simp add: apply_added_lookup_other)
next
  case (Some e)
  then have "map_of (fst (apply_added added (devs, b))) (dev_ups_name d) = Some e"
    using assms name_unique [OF assms(3)] by (intro apply_added_lookup; metis option.inject)
  then show ?thesis using Some by simp
qed

lemma renamed_lookup:
  assumes "distinct (map dev_ups_name remote)" "d \<in> set remote"
  shows "map_of (fst (apply_updated (filter (is_renamed st) remote) (devs, b))) (dev_ups_name d) =
    map_option (\<lambda>e. if is_renamed st d then e\<lparr>de_desc := dev_desc d\<rparr> else e) (map_of devs (dev_ups_name d))"
proof (cases "is_renamed st d")
  case True
  then show ?thesis
    using assms find_by_name [OF distinct_names_filter [OF assms(1)], of d "is_renamed st"]
    by (simp add: apply_updated_lookup [OF distinct_names_filter])
next
  case False
  then have "find (\<lambda>x. dev_ups_name x = dev_ups_name d) (filter (is_renamed st) remote) = None"
    using name_unique [OF assms(1)] assms(2) by (auto simp: find_None_iff)
  then show ?thesis
    using False assms by (simp add: apply_updated_lookup [OF distinct_names_filter] option.map_ident)
qed

text \<open>The table after a round, where the table may have changed between the difference and its
  application.\<close>

lemma patch_lookup:
  assumes ord: "\<And>rs. set (order rs) = set rs" and remote: "q_list_ups a = Inr remote" "distinct (map dev_ups_name remote)"
    and diff: "diff_upsd it lookup order now a st0 = Inr patch" and d: "d \<in> set remote"
  shows "map_of (ds_devices (fst (apply_patch ns now patch st1))) (dev_ups_name d) =
    map_option (\<lambda>e. if is_renamed st0 d then e\<lparr>de_desc := dev_desc d\<rparr> else e)
      (case addition (load_device_entry it lookup now a) now st0 d of
         Some e \<Rightarrow> Some e | None \<Rightarrow> map_of (ds_devices st1) (dev_ups_name d))"
proof -
  let ?load = "load_device_entry it lookup now a"
  obtain added1 n1 added2 n2 where j:
    "join_new now (order (map ?load (filter (is_new st0) remote))) = (added1, n1)"
    "join_recheck (order (map ?load (filter (is_silent st0) remote))) = (added2, n2)"
    and patch: "dp_added patch = added1 @ added2" "dp_deleted patch = deleted_devices st0 remote"
    "dp_updated patch = filter (is_renamed st0) remote"
    using diff_upsd_Inr [OF diff remote(1)] by metis
  have added: "e \<in> set (dp_added patch) \<longleftrightarrow> (\<exists>d\<in>set remote. addition ?load now st0 d = Some e)" for e
    unfolding patch addition_iff by (rule added_entries [OF ord j])
  have names: "addition ?load now st0 x = Some e \<Longrightarrow> de_name e = dev_ups_name x" for x e
    unfolding addition_iff using loaded_name by blast
  obtain T2 b2 where T2: "apply_added (dp_added patch) (ds_devices st1, event_batch_new ns) = (T2, b2)" by fastforce
  obtain T3 b3 where T3: "apply_updated (dp_updated patch) (T2, b2) = (T3, b3)" by fastforce
  obtain st' b where ap: "apply_patch ns now patch st1 = (st', b)" by fastforce
  have "dev_ups_name d \<notin> set (dp_deleted patch)"
    using find_by_name [OF remote(2) d] by (simp add: patch deleted_devices_def)
  then have "map_of (ds_devices st') (dev_ups_name d) = map_of T3 (dev_ups_name d)"
    using added_pairs [OF ap] T2 T3 apply_deleted_lookup [of "dp_deleted patch" T3 b3 "dev_ups_name d"] by simp
  then show ?thesis
    using renamed_lookup [OF remote(2) d, of st0 T2 b2] T3 ap patch(3)
      addition_lookup [OF added names remote(2) d, of "ds_devices st1" "event_batch_new ns"] T2 by simp
qed

lemma patch_lookup_gone:
  assumes remote: "q_list_ups a = Inr remote" and diff: "diff_upsd it lookup order now a st0 = Inr patch"
    and n: "map_of (ds_devices st0) n \<noteq> None" "n \<notin> dev_ups_name ` set remote"
  shows "map_of (ds_devices (fst (apply_patch ns now patch st1))) n = None"
proof -
  obtain st' b where ap: "apply_patch ns now patch st1 = (st', b)" by fastforce
  obtain T b3 where T: "apply_updated (dp_updated patch)
      (apply_added (dp_added patch) (ds_devices st1, event_batch_new ns)) = (T, b3)" by fastforce
  have "n \<in> set (deleted_devices st0 remote)"
    using n find_name_None [OF n(2)] by (simp add: deleted_devices_def map_of_eq_None_iff)
  moreover have "dp_deleted patch = deleted_devices st0 remote"
    using diff_upsd_Inr [OF diff remote] by metis
  ultimately show ?thesis
    using added_pairs [OF ap] T ap by (simp add: apply_deleted_lookup)
qed

lemma patch_lookup_absent:
  assumes ord: "\<And>rs. set (order rs) = set rs" and remote: "q_list_ups a = Inr remote"
    and diff: "diff_upsd it lookup order now a st0 = Inr patch"
    and n: "map_of (ds_devices st1) n = None" "n \<notin> dev_ups_name ` set remote"
  shows "map_of (ds_devices (fst (apply_patch ns now patch st1))) n = None"
proof -
  let ?load = "load_device_entry it lookup now a"
  obtain added1 n1 added2 n2 where j:
    "join_new now (order (map ?load (filter (is_new st0) remote))) = (added1, n1)"
    "join_recheck (order (map ?load (filter (is_silent st0) remote))) = (added2, n2)"
    and patch: "dp_added patch = added1 @ added2" "dp_updated patch = filter (is_renamed st0) remote"
    using diff_upsd_Inr [OF diff remote] by metis
  have "n \<notin> de_name ` set (dp_added patch)"
    using n(2) loaded_name unfolding patch image_iff Bex_def added_entries [OF ord j] by metis
  moreover obtain T2 b2 where T2: "apply_added (dp_added patch) (ds_devices st1, event_batch_new ns) = (T2, b2)"
    by fastforce
  ultimately have "map_of T2 n = None"
    using n(1) apply_added_lookup_other by (metis fst_conv)
  moreover have upd: "map_of devs n = None \<Longrightarrow> map_of (fst (apply_updated ds (devs, b))) n = None" for ds devs b
  proof (induction ds arbitrary: devs b)
    case (Cons d ds)
    then show ?case by (cases "map_of devs (dev_ups_name d)"; cases "dev_ups_name d = n") (simp_all add: table_simps)
  qed (simp add: table_simps)
  moreover obtain T3 b3 where T3: "apply_updated (dp_updated patch) (T2, b2) = (T3, b3)" by fastforce
  ultimately have "map_of T3 n = None" by (metis fst_conv)
  moreover obtain st' b where ap: "apply_patch ns now patch st1 = (st', b)" by fastforce
  ultimately show ?thesis
    using added_pairs [OF ap] T2 T3 by (simp add: apply_deleted_lookup)
qed

lemma addition_synced:
  assumes "\<And>err. load d = Inl (Some err) \<Longrightarrow> dl_name err = dev_ups_name d"
  shows "map_option (\<lambda>e. if is_renamed st d then e\<lparr>de_desc := dev_desc d\<rparr> else e)
     (case addition load now st d of Some e \<Rightarrow> Some e | None \<Rightarrow> map_of (ds_devices st) (dev_ups_name d))
   = synced load now (ds_devices st) d"
proof (cases "map_of (ds_devices st) (dev_ups_name d)")
  case None
  then show ?thesis
    using assms by (simp add: addition_def is_new_def is_silent_def is_renamed_def synced_def pushed_def
        option.map_ident split: sum.split option.split)
next
  case (Some e)
  then show ?thesis
    by (simp add: addition_def is_new_def is_silent_def is_renamed_def synced_def option.map_ident split: sum.split)
qed

section \<open>Properties\<close>

text \<open>C8: A device round computes its specification. When a round of the device service succeeds and the
  daemon lists its devices under different names, the table afterwards has exactly the listed
  devices (less the new ones whose loading panicked), each with the entry of the specification:
  new devices as loaded, or as not communicating when they cannot be loaded; silent devices as
  loaded again, or as they were; all others as they were, with the listed description. The
  order in which the loading tasks finish does not matter, and the daemon is online with the
  versions it gave.\<close>

theorem device_sync_refines:
  assumes "\<And>rs. set (order rs) = set rs" and "q_list_ups a = Inr remote" and "distinct (map dev_ups_name remote)"
    and "device_next it lookup order send ns now a st c = Some (Inr (), st', c')"
  shows "map_of (ds_devices st') =
      (\<lambda>n. case find (\<lambda>d. dev_ups_name d = n) remote of
             Some d \<Rightarrow> synced (load_device_entry it lookup now a) now (ds_devices st) d
           | None \<Rightarrow> None)
    \<and> ds_status st' = Online
    \<and> (\<exists>prot_ver ver. q_protver a = Inr prot_ver \<and> ds_prot_ver st' = Some prot_ver
         \<and> q_ver a = Inr ver \<and> ds_ver st' = Some ver)"
proof -
  obtain patch where diff: "diff_upsd it lookup order now a st = Inr patch"
    and st': "st' = fst (apply_patch ns now patch st)"
    using assms(4) by (auto simp: device_next_def device_apply_def split: sum.splits option.splits prod.splits)
  have "map_of (ds_devices st') n = (case find (\<lambda>d. dev_ups_name d = n) remote of
             Some d \<Rightarrow> synced (load_device_entry it lookup now a) now (ds_devices st) d | None \<Rightarrow> None)" for n
  proof (cases "n \<in> dev_ups_name ` set remote")
    case True
    then obtain d where d: "d \<in> set remote" "n = dev_ups_name d" by blast
    then show ?thesis
      using patch_lookup [OF assms(1-3) diff d(1), of ns st] find_by_name [OF assms(3) d(1)]
        addition_synced [OF load_device_entry_err] by (simp add: st')
  next
    case False
    then show ?thesis
      using patch_lookup_absent [OF assms(1,2) diff, of st n ns] patch_lookup_gone [OF assms(2) diff, of n ns st]
        find_name_None [OF False] False by (cases "map_of (ds_devices st) n") (simp_all add: st')
  qed
  moreover have "q_protver a = Inr (dp_prot_ver patch)" "q_ver a = Inr (dp_upsd_ver patch)"
    using diff_upsd_Inr [OF diff assms(2)] by metis+
  ultimately show ?thesis
    by (auto simp: st' apply_patch_def split: prod.splits)
qed

text \<open>A daemon that answers nothing, and one with a single device that can be loaded.\<close>

definition unreachable :: upsd where
  "unreachable =
     \<lparr>q_list_ups = Inl (Err EmptyResponse), q_protver = Inl (Err EmptyResponse), q_ver = Inl (Err EmptyResponse),
      q_list_client = (\<lambda>_. Inl (Err EmptyResponse)), q_list_cmd = (\<lambda>_. Inl (Err EmptyResponse)),
      q_list_rw = (\<lambda>_. Inl (Err EmptyResponse)), q_list_var = (\<lambda>_. Inl (Err EmptyResponse)),
      q_var_type = (\<lambda>_ _. Inl (Err EmptyResponse)), q_list_enum = (\<lambda>_ _. Inl (Err EmptyResponse)),
      q_list_range = (\<lambda>_ _. Inl (Err EmptyResponse)), q_get_var = (\<lambda>_ _. Inl (Err EmptyResponse)),
      q_cmd_desc = (\<lambda>_ _. Inl (Err EmptyResponse)), q_var_desc = (\<lambda>_ _. Inl (Err EmptyResponse))\<rparr>"

definition one_device :: upsd where
  "one_device = unreachable
     \<lparr>q_list_ups := Inr [\<lparr>dev_ups_name = UpsName ''a'', dev_desc = ''x''\<rparr>], q_protver := Inr ''1.3'', q_ver := Inr ''2.8'',
      q_list_client := (\<lambda>u. Inr \<lparr>cl_ups_name = u, cl_ips = []\<rparr>), q_list_cmd := (\<lambda>u. Inr \<lparr>cml_ups_name = u, cml_cmds = []\<rparr>),
      q_list_rw := (\<lambda>u. Inr \<lparr>rw_variables = Map.empty, rw_ups_name = u\<rparr>),
      q_list_var := (\<lambda>u. Inr \<lparr>vl_variables = Map.empty, vl_ups_name = u\<rparr>)\<rparr>"

theorem device_sync_refines_witness:
  "\<exists>st' c'. device_next (\<lambda>_. []) (\<lambda>ip. Inl ()) rev (\<lambda>c e. (True, c @ [e])) ''ns'' 5 one_device daemon_state_new [] = Some (Inr (), st', c')
     \<and> ds_status st' = Online \<and> map_of (ds_devices st') (UpsName ''b'') = None"
proof -
  obtain st' c' where n: "device_next (\<lambda>_. []) (\<lambda>ip. Inl ()) rev (\<lambda>c e. (True, c @ [e])) ''ns'' 5 one_device daemon_state_new []
      = Some (Inr (), st', c')"
    by (simp add: device_next_def diff_upsd_def one_device_def sync_err_def daemon_state_new_def load_device_entry_def
        map_load_err_def Let_def device_apply_def apply_patch_def deleted_devices_def table_simps)
  show ?thesis
    using device_sync_refines [OF _ _ _ n, of "[\<lparr>dev_ups_name = UpsName ''a'', dev_desc = ''x''\<rparr>]"] n
    by (simp add: one_device_def)
qed

lemma removed_events:
  "foldl (\<lambda>b (name, _). removed_device name b) b0 devs = b0\<lparr>eb_removed := eb_removed b0 @ map fst devs\<rparr>"
  by (induction devs arbitrary: b0) (auto simp: removed_device_def)

text \<open>C36: A failed round takes everything down. When the daemon cannot be asked or none of the listed
  devices can be read, every device is removed from the table and announced as removed, the
  daemon is dead, and the change of its status is announced exactly when it was not dead
  before; nothing else is announced.\<close>

theorem device_sync_failure:
  assumes "diff_upsd it lookup order now a st = Inl (Some err)"
  shows "device_next it lookup order send ns now a st c =
    Some (Inl err,
      st\<lparr>ds_devices := [], ds_status := Dead, ds_last_device_sync := Some now,
         ds_prot_ver := (if ds_status st = Dead then ds_prot_ver st else None),
         ds_ver := (if ds_status st = Dead then ds_ver st else None)\<rparr>,
      snd (send_all send
        ((if ds_devices st = [] then [] else [DeviceRemoval (map fst (ds_devices st)) ns])
         @ (if ds_status st = Dead then [] else [DaemonStatusUpdate Dead ns])) c))"
  using assms
  by (cases "ds_status st = Dead"; cases "ds_devices st = []")
    (simp_all add: device_next_def device_apply_def apply_failure_def Let_def removed_events
      set_upsd_status_def event_batch_new_def batch_send_events batch_events_def)

theorem device_sync_failure_witness:
  "device_next (\<lambda>_. []) (\<lambda>ip. Inl ()) rev (\<lambda>c e. (True, c @ [e])) ''ns'' 5 unreachable daemon_state_new []
   = Some (Inl (ClientError EmptyResponse),
       \<lparr>ds_devices = [], ds_last_device_sync = Some 5, ds_status = Dead, ds_prot_ver = None, ds_ver = None\<rparr>,
       [DaemonStatusUpdate Dead ''ns''])"
  using device_sync_failure [of "\<lambda>_. []" "\<lambda>ip. Inl ()" rev 5 unreachable daemon_state_new "ClientError EmptyResponse"
      "\<lambda>c e. (True, c @ [e])" "''ns''" "[]"]
  by (simp add: diff_upsd_def unreachable_def sync_err_def daemon_state_new_def)

lemma join_failures:
  "snd (join_new now rs) = length (filter (\<lambda>r. \<not> is_ok r) rs)" "snd (join_recheck rs) = length (filter (\<lambda>r. \<not> is_ok r) rs)"
proof -
  show "snd (join_new now rs) = length (filter (\<lambda>r. \<not> is_ok r) rs)"
  proof (induction rs)
    case (Cons r rs)
    obtain added n where "join_new now rs = (added, n)" by fastforce
    then show ?case using Cons by (cases r; cases "projl r") simp_all
  qed simp
  show "snd (join_recheck rs) = length (filter (\<lambda>r. \<not> is_ok r) rs)"
  proof (induction rs)
    case (Cons r rs)
    obtain added n where "join_recheck rs = (added, n)" by fastforce
    then show ?case using Cons by (cases r) simp_all
  qed simp
qed

lemma failures_any_order:
  "(\<And>rs. mset (order rs) = mset rs) \<Longrightarrow>
   length (filter P (order (map f xs))) = length (filter (\<lambda>x. P (f x)) xs)"
  by (metis (no_types, lifting) filter_map length_map mset_filter size_mset comp_apply filter_cong)

lemma failures_split:
  "length (filter (\<lambda>d. P d \<and> F d) ds) + length (filter (\<lambda>d. Q d \<and> F d) ds) = length (filter (\<lambda>d. (P d \<or> Q d) \<and> F d) ds)"
  if "\<And>d. \<not> (P d \<and> Q d)"
  using that by (induction ds) auto



end
