(* ===== verification/Status_Sync.thy ===== *)
theory Status_Sync
  imports Device_Sync
begin

text \<open>
  \<open>sync/sync_status.rs\<close>: the service that polls the devices of one daemon. A poll has two
  phases as well: it takes a snapshot of the names under the read lock, asks the daemon, and
  applies the answers under the write lock to whatever the table is then. Durations are numbers
  of seconds; \<open>join_all\<close> keeps the order of the devices.
\<close>

section \<open>The polling interval\<close>

datatype ups_poll_type = Full | Partial

fun ups_poll_type_fmt :: "ups_poll_type \<Rightarrow> string" where
  "ups_poll_type_fmt Full = ''Full''"
| "ups_poll_type_fmt Partial = ''Partial''"

text \<open>The interval the service asks for: never longer than the frequency of full polls.\<close>

definition effective_interval :: "nat \<Rightarrow> nat \<Rightarrow> nat" where
  "effective_interval poll_interval poll_freq =
     (if poll_interval \<ge> poll_freq then poll_freq else poll_interval)"

record ups_poll_interval =
  pi_last_full_sync :: "time option"
  pi_full_sync_period :: nat

definition ups_poll_interval_new :: "nat \<Rightarrow> ups_poll_interval" where
  "ups_poll_interval_new poll_freq = \<lparr>pi_last_full_sync = None, pi_full_sync_period = poll_freq\<rparr>"

text \<open>\<open>tick\<close> at the instant the timer fires; \<open>duration_since\<close> saturates at zero.\<close>

definition tick :: "time \<Rightarrow> ups_poll_interval \<Rightarrow> ups_poll_type \<times> ups_poll_interval" where
  "tick instant p =
     (case pi_last_full_sync p of
        Some last_sync \<Rightarrow>
          if instant - last_sync \<ge> pi_full_sync_period p
          then (Full, p\<lparr>pi_last_full_sync := Some instant\<rparr>) else (Partial, p)
      | None \<Rightarrow> (Full, p\<lparr>pi_last_full_sync := Some instant\<rparr>))"

section \<open>The clients of a device\<close>

record client_diff =
  cd_connected :: "ip_addr list"
  cd_disconnected :: "ip_addr list"

definition client_diff_of :: "client_info list \<Rightarrow> ip_addr list \<Rightarrow> client_diff" where
  "client_diff_of source target =
     \<lparr>cd_connected = filter (\<lambda>new. find (\<lambda>v. ci_addr v = new) source = None) target,
      cd_disconnected = filter (\<lambda>old. find (\<lambda>v. v = old) target = None) (map ci_addr source)\<rparr>"

text \<open>\<open>Vec::swap_remove\<close> at the first client with the address, if there is one.\<close>

definition swap_remove :: "nat \<Rightarrow> 'a list \<Rightarrow> 'a list" where
  "swap_remove i xs = butlast (xs[i := last xs])"

fun find_index :: "('a \<Rightarrow> bool) \<Rightarrow> 'a list \<Rightarrow> nat option" where
  "find_index P [] = None"
| "find_index P (x # xs) = (if P x then Some 0 else map_option Suc (find_index P xs))"

definition detach_client :: "client_info list \<Rightarrow> ip_addr \<Rightarrow> client_info list" where
  "detach_client attached ip =
     (case find_index (\<lambda>c. ci_addr c = ip) attached of Some idx \<Rightarrow> swap_remove idx attached | None \<Rightarrow> attached)"

definition detach_clients :: "ip_addr list \<Rightarrow> client_info list \<Rightarrow> client_info list" where
  "detach_clients ips attached = foldl detach_client attached ips"

definition attach_clients :: "(ip_addr \<Rightarrow> 'e + string) \<Rightarrow> ip_addr list \<Rightarrow> client_info list \<Rightarrow> client_info list" where
  "attach_clients lookup ips attached = foldl (\<lambda>as ip. as @ [client_info_of lookup ip]) attached ips"

section \<open>Polls\<close>

definition snapshot_active_device_names :: "daemon_state \<Rightarrow> ups_name list" where
  "snapshot_active_device_names st =
     map fst (filter (\<lambda>(k, v). \<not> st_has (de_status v) ST_NOCOMM) (ds_devices st))"

text \<open>One iteration of the loop of \<open>status_sync\<close>: the answer to \<open>GET VAR ups.status\<close> of one device.\<close>

definition status_sync_step ::
    "time \<Rightarrow> fault + ups_var \<Rightarrow> device_table \<times> device_status_change list \<Rightarrow> device_table \<times> device_status_change list" where
  "status_sync_step now result s =
     (case s of (devices, changes) \<Rightarrow>
        (case result of
           Inr variable \<Rightarrow>
             (case map_of devices (uv_ups_name variable) of
                Some entry \<Rightarrow>
                  let old_status = de_status entry;
                      new_status = status_from_value (uv_value variable);
                      entry = entry\<lparr>de_status := new_status,
                                    de_variables := fst (uv_insert (de_variables entry) (uv_name variable) (uv_value variable)),
                                    de_last_modified := now\<rparr> in
                  (AList.update (uv_ups_name variable) entry devices,
                   if old_status \<noteq> new_status
                   then changes @ [\<lparr>sc_name = uv_ups_name variable, sc_old = old_status, sc_new = new_status\<rparr>]
                   else changes)
              | None \<Rightarrow> (devices, changes))
         | Inl _ \<Rightarrow> (devices, changes)))"

definition status_sync_apply ::
    "time \<Rightarrow> (fault + ups_var) list \<Rightarrow> daemon_state \<Rightarrow> daemon_state \<times> device_status_change list" where
  "status_sync_apply now responses st =
     (case foldl (\<lambda>s r. status_sync_step now r s) (ds_devices st, []) responses of
        (devices, changes) \<Rightarrow> (st\<lparr>ds_devices := devices\<rparr>, changes))"

definition status_responses :: "upsd \<Rightarrow> ups_name list \<Rightarrow> (fault + ups_var) list" where
  "status_responses a devices = map (\<lambda>d. q_get_var a d UPS_STATUS) devices"

text \<open>\<open>status_sync\<close> with the table it reads and the table it finds when it has the answers. A panic of
  a request ends the service: \<open>None\<close>.\<close>

definition status_sync ::
    "('c \<Rightarrow> system_event \<Rightarrow> bool \<times> 'c) \<Rightarrow> string \<Rightarrow> time \<Rightarrow> upsd \<Rightarrow> daemon_state \<Rightarrow> daemon_state \<Rightarrow> 'c \<Rightarrow> (daemon_state \<times> 'c) option" where
  "status_sync send ns now a st0 st c =
     (let devices = snapshot_active_device_names st0;
          responses = status_responses a devices in
      if devices = [] then Some (st, c)
      else if Inl Panic \<in> set responses then None
      else (case status_sync_apply now responses st of (st', changes) \<Rightarrow>
              Some (st', if changes \<noteq> [] then snd (send c (DeviceStatusChange changes ns)) else c)))"

type_synonym full_answer = "fault + (ups_var_list \<times> client_list \<times> cmd_list)"

definition full_response :: "upsd \<Rightarrow> ups_name \<Rightarrow> full_answer" where
  "full_response a device =
     bind_res (q_list_var a device) (\<lambda>vars.
     bind_res (q_list_client a device) (\<lambda>clients.
     bind_res (q_list_cmd a device) (\<lambda>cmds. Inr (vars, clients, cmds))))"

definition full_responses :: "upsd \<Rightarrow> ups_name list \<Rightarrow> (ups_name \<times> full_answer) list" where
  "full_responses a devices = map (\<lambda>d. (d, full_response a d)) devices"

text \<open>The update of one entry in \<open>state_sync\<close>, with its events.\<close>

definition refresh_status :: "ups_name \<Rightarrow> ups_variables \<Rightarrow> device_entry \<times> event_batch \<Rightarrow> device_entry \<times> event_batch" where
  "refresh_status name vars s =
     (case s of (entry, events) \<Rightarrow>
        (case vars UPS_STATUS of
           Some status_value \<Rightarrow>
             let new_status = status_from_value status_value; old_status = de_status entry in
             if old_status \<noteq> new_status
             then (entry\<lparr>de_status := new_status\<rparr>, status_change name old_status new_status events)
             else (entry, events)
         | None \<Rightarrow> (entry, events)))"

definition refresh_clients ::
    "(ip_addr \<Rightarrow> 'e + string) \<Rightarrow> ups_name \<Rightarrow> ip_addr list \<Rightarrow> device_entry \<times> event_batch \<Rightarrow> device_entry \<times> event_batch" where
  "refresh_clients lookup name ips s =
     (case s of (entry, events) \<Rightarrow>
        let diff = client_diff_of (de_attached entry) ips;
            (entry, events) =
              (if cd_disconnected diff \<noteq> []
               then (entry\<lparr>de_attached := detach_clients (cd_disconnected diff) (de_attached entry)\<rparr>,
                     client_disconnect name (cd_disconnected diff) events)
               else (entry, events)) in
        if cd_connected diff \<noteq> []
        then (entry\<lparr>de_attached := attach_clients lookup (cd_connected diff) (de_attached entry)\<rparr>,
              client_connection name (cd_connected diff) events)
        else (entry, events))"

definition state_sync_step ::
    "(ip_addr \<Rightarrow> 'e + string) \<Rightarrow> time \<Rightarrow> ups_name \<times> full_answer \<Rightarrow> device_table \<times> event_batch \<Rightarrow> device_table \<times> event_batch" where
  "state_sync_step lookup now r s =
     (case (r, s) of ((name, result), (devices, events)) \<Rightarrow>
        (case result of
           Inr (var_list, clients, commands) \<Rightarrow>
             (case map_of devices name of
                Some entry \<Rightarrow>
                  (case refresh_clients lookup name (cl_ips clients) (refresh_status name (vl_variables var_list) (entry, events)) of
                     (entry, events) \<Rightarrow>
                       (AList.update name (entry\<lparr>de_variables := vl_variables var_list, de_commands := cml_cmds commands,
                                                 de_last_modified := now\<rparr>) devices,
                        updated_device name events))
              | None \<Rightarrow> (devices, events))
         | Inl _ \<Rightarrow>
             (case map_of devices name of
                Some entry \<Rightarrow>
                  (AList.update name (mark_as_dead_with now ST_NOCOMM entry) devices,
                   status_change name (de_status entry) ST_NOCOMM events)
              | None \<Rightarrow> (devices, events))))"

definition state_sync_apply ::
    "(ip_addr \<Rightarrow> 'e + string) \<Rightarrow> string \<Rightarrow> time \<Rightarrow> (ups_name \<times> full_answer) list \<Rightarrow> daemon_state \<Rightarrow> daemon_state \<times> event_batch" where
  "state_sync_apply lookup ns now responses st =
     (case foldl (\<lambda>s r. state_sync_step lookup now r s) (ds_devices st, event_batch_new ns) responses of
        (devices, events) \<Rightarrow> (st\<lparr>ds_devices := devices\<rparr>, events))"

definition state_sync ::
    "(ip_addr \<Rightarrow> 'e + string) \<Rightarrow> ('c \<Rightarrow> system_event \<Rightarrow> bool \<times> 'c) \<Rightarrow> string \<Rightarrow> time \<Rightarrow> upsd \<Rightarrow> daemon_state \<Rightarrow> daemon_state
       \<Rightarrow> 'c \<Rightarrow> (daemon_state \<times> 'c) option" where
  "state_sync lookup send ns now a st0 st c =
     (let devices = snapshot_active_device_names st0;
          responses = full_responses a devices in
      if devices = [] then Some (st, c)
      else if Inl Panic \<in> snd ` set responses then None
      else (case state_sync_apply lookup ns now responses st of (st', events) \<Rightarrow>
              Some (st', snd (batch_send send events c))))"

section \<open>Lemmas on clients\<close>

lemma find_index_Some: "find_index P xs = Some i \<Longrightarrow> i < length xs \<and> P (xs ! i)"
  by (induction xs arbitrary: i) (auto split: if_splits)

lemma find_index_None: "find_index P xs = None \<longleftrightarrow> (\<forall>x\<in>set xs. \<not> P x)"
  by (induction xs) auto

lemma mset_butlast: "xs \<noteq> [] \<Longrightarrow> mset (butlast xs) = mset xs - {#last xs#}"
  by (induction xs rule: rev_induct) auto

lemma mset_swap_remove:
  assumes "i < length xs" shows "mset (swap_remove i xs) = mset xs - {#xs ! i#}"
proof -
  have ne: "xs[i := last xs] \<noteq> []" using assms by auto
  have "last (xs[i := last xs]) = last xs"
    using assms by (subst last_list_update) auto
  then show ?thesis
    using mset_butlast [OF ne] assms by (simp add: swap_remove_def mset_update)
qed

abbreviation addrs :: "client_info list \<Rightarrow> ip_addr multiset" where
  "addrs cs \<equiv> mset (map ci_addr cs)"

lemma addrs_detach_client: "addrs (detach_client cs ip) = addrs cs - {#ip#}"
proof (cases "find_index (\<lambda>c. ci_addr c = ip) cs")
  case None
  then have "ip \<notin># addrs cs" by (auto simp: find_index_None)
  then show ?thesis using None by (simp add: detach_client_def diff_single_trivial)
next
  case (Some i)
  then have "i < length cs" "ci_addr (cs ! i) = ip" by (auto dest: find_index_Some)
  then show ?thesis
    using Some by (simp add: detach_client_def mset_swap_remove image_mset_Diff)
qed

lemma addrs_detach_clients: "addrs (detach_clients ips cs) = addrs cs - mset ips"
proof (induction ips arbitrary: cs)
  case (Cons ip ips)
  then show ?case
    using addrs_detach_client [of cs ip] by (simp add: detach_clients_def diff_diff_add_mset)
qed (simp add: detach_clients_def)

lemma addrs_attach_clients: "addrs (attach_clients lookup ips cs) = addrs cs + mset ips"
  by (induction ips arbitrary: cs) (simp_all add: attach_clients_def client_info_of_def)

lemma client_diff_filter:
  "client_diff_of cs ips =
     \<lparr>cd_connected = filter (\<lambda>ip. ip \<notin> ci_addr ` set cs) ips,
      cd_disconnected = filter (\<lambda>ip. ip \<notin> set ips) (map ci_addr cs)\<rparr>"
  by (auto simp: client_diff_of_def find_None_iff intro!: filter_cong)

lemma refresh_clients_entry:
  "fst (refresh_clients lookup name ips (e, b)) =
     e\<lparr>de_attached := attach_clients lookup (cd_connected (client_diff_of (de_attached e) ips))
       (detach_clients (cd_disconnected (client_diff_of (de_attached e) ips)) (de_attached e))\<rparr>"
  by (cases e) (simp add: refresh_clients_def Let_def attach_clients_def detach_clients_def)

lemma refresh_status_entry:
  "fst (refresh_status name vars (e, b)) =
     e\<lparr>de_status := (case vars UPS_STATUS of Some v \<Rightarrow> status_from_value v | None \<Rightarrow> de_status e)\<rparr>"
  by (cases e) (simp add: refresh_status_def Let_def split: option.split)

lemma refresh_clients_addrs:
  "addrs (de_attached (fst (refresh_clients lookup name ips (e, b)))) =
     filter_mset (\<lambda>ip. ip \<in> set ips) (addrs (de_attached e))
     + filter_mset (\<lambda>ip. ip \<notin> ci_addr ` set (de_attached e)) (mset ips)"
proof -
  let ?a = "map ci_addr (de_attached e)"
  have "mset ?a = filter_mset (\<lambda>ip. ip \<notin> set ips) (mset ?a) + filter_mset (\<lambda>ip. ip \<in> set ips) (mset ?a)"
    using multiset_partition [of "mset ?a" "\<lambda>ip. ip \<notin> set ips"] by simp
  then have "mset ?a - mset (filter (\<lambda>ip. ip \<notin> set ips) ?a) = filter_mset (\<lambda>ip. ip \<in> set ips) (mset ?a)"
    unfolding mset_filter by (metis add_diff_cancel_left')
  then show ?thesis
    using addrs_attach_clients [of lookup "filter (\<lambda>ip. ip \<notin> ci_addr ` set (de_attached e)) ips"
        "detach_clients (filter (\<lambda>ip. ip \<notin> set ips) ?a) (de_attached e)"]
      addrs_detach_clients [of "filter (\<lambda>ip. ip \<notin> set ips) ?a" "de_attached e"]
    by (simp add: refresh_clients_entry client_diff_filter)
qed

section \<open>Lemmas on polls\<close>

text \<open>The refreshed entry of a device that answered.\<close>

definition refreshed ::
    "(ip_addr \<Rightarrow> 'e + string) \<Rightarrow> time \<Rightarrow> ups_name \<Rightarrow> ups_var_list \<times> client_list \<times> cmd_list \<Rightarrow> device_entry \<Rightarrow> device_entry" where
  "refreshed lookup now name ans e =
     (case ans of (var_list, clients, commands) \<Rightarrow>
        e\<lparr>de_status := (case vl_variables var_list UPS_STATUS of Some v \<Rightarrow> status_from_value v | None \<Rightarrow> de_status e),
          de_attached := attach_clients lookup (cd_connected (client_diff_of (de_attached e) (cl_ips clients)))
            (detach_clients (cd_disconnected (client_diff_of (de_attached e) (cl_ips clients))) (de_attached e)),
          de_variables := vl_variables var_list, de_commands := cml_cmds commands, de_last_modified := now\<rparr>)"

text \<open>The entry after a full poll that asked for it.\<close>

definition polled :: "(ip_addr \<Rightarrow> 'e + string) \<Rightarrow> time \<Rightarrow> ups_name \<Rightarrow> full_answer \<Rightarrow> device_entry \<Rightarrow> device_entry" where
  "polled lookup now name ans e =
     (case ans of Inr r \<Rightarrow> refreshed lookup now name r e | Inl _ \<Rightarrow> mark_as_dead_with now ST_NOCOMM e)"

lemma state_sync_step_table:
  "fst (state_sync_step lookup now (name, ans) (devs, b)) =
     (case map_of devs name of Some e \<Rightarrow> AList.update name (polled lookup now name ans e) devs | None \<Rightarrow> devs)"
proof (cases "map_of devs name")
  case (Some e)
  show ?thesis
  proof (cases ans)
    case (Inr r)
    obtain v c k where r: "r = (v, c, k)" by (cases r)
    obtain e1 b1 where 1: "refresh_status name (vl_variables v) (e, b) = (e1, b1)" by fastforce
    obtain e2 b2 where 2: "refresh_clients lookup name (cl_ips c) (e1, b1) = (e2, b2)" by fastforce
    show ?thesis
      using Some Inr r 1 2 refresh_status_entry [of name "vl_variables v" e b]
        refresh_clients_entry [of lookup name "cl_ips c" e1 b1]
      by (simp add: state_sync_step_def polled_def refreshed_def)
  qed (simp add: Some state_sync_step_def polled_def)
qed (simp add: state_sync_step_def split: sum.split)

lemma state_sync_fold:
  assumes "distinct (map fst rs)"
  shows "map_of (fst (foldl (\<lambda>s r. state_sync_step lookup now r s) (devs, b) rs)) n =
    (case map_of rs n of Some ans \<Rightarrow> map_option (polled lookup now n ans) (map_of devs n) | None \<Rightarrow> map_of devs n)"
  using assms
proof (induction rs arbitrary: devs b)
  case (Cons r rs)
  obtain m ans where r: "r = (m, ans)" by fastforce
  obtain devs1 b1 where s: "state_sync_step lookup now r (devs, b) = (devs1, b1)" by fastforce
  have m: "map_of devs1 x = (if x = m then map_option (polled lookup now m ans) (map_of devs m) else map_of devs x)" for x
    using state_sync_step_table [of lookup now m ans devs b] s r
    by (cases "map_of devs m") (simp_all add: update_conv)
  have "m = n \<Longrightarrow> map_of rs n = None"
    using Cons.prems r by (simp add: map_of_eq_None_iff)
  then show ?case
    using Cons s m [of n] r by (auto split: option.split)
qed simp

lemma map_of_filter_keys:
  "distinct (map fst xs) \<Longrightarrow>
   map_of (map (\<lambda>d. (d, f d)) (map fst (filter (\<lambda>(k, v). P v) xs))) n =
     (case map_of xs n of Some v \<Rightarrow> if P v then Some (f n) else None | None \<Rightarrow> None)"
proof (induction xs)
  case (Cons p xs)
  then have "fst p = n \<Longrightarrow> map_of xs n = None" by (auto simp: map_of_eq_None_iff)
  then show ?case using Cons by (cases p) auto
qed simp

lemma distinct_snapshot: "distinct (map fst xs) \<Longrightarrow> distinct (map fst (filter P xs))"
  by (induction xs) auto

section \<open>The log of status changes\<close>

definition statuses :: "device_table \<Rightarrow> ups_name \<rightharpoonup> ups_status" where
  "statuses devs n = map_option de_status (map_of devs n)"

text \<open>Replaying announced changes, each of which must start from the status the device has.\<close>

fun replay :: "(ups_name \<rightharpoonup> ups_status) \<Rightarrow> device_status_change list \<Rightarrow> (ups_name \<rightharpoonup> ups_status) option" where
  "replay m [] = Some m"
| "replay m (c # cs) =
     (if m (sc_name c) = Some (sc_old c) then replay (m(sc_name c \<mapsto> sc_new c)) cs else None)"

lemma replay_append: "replay m (cs @ ds) = Option.bind (replay m cs) (\<lambda>m'. replay m' ds)"
  by (induction cs arbitrary: m) simp_all

lemma statuses_update: "statuses (AList.update n e devs) = (statuses devs)(n \<mapsto> de_status e)"
  by (simp add: statuses_def fun_eq_iff update_conv)

lemma statuses_keep: "map_of devs n = Some e \<Longrightarrow> de_status e' = de_status e \<Longrightarrow> statuses (AList.update n e' devs) = statuses devs"
  by (auto simp: statuses_def fun_eq_iff update_conv)

lemma status_sync_step_log:
  assumes "replay m changes = Some (statuses devs)" "list_all (\<lambda>c. sc_old c \<noteq> sc_new c) changes"
    and "status_sync_step now r (devs, changes) = (devs', changes')"
  shows "replay m changes' = Some (statuses devs') \<and> list_all (\<lambda>c. sc_old c \<noteq> sc_new c) changes'"
proof (cases r)
  case (Inr v)
  show ?thesis
  proof (cases "map_of devs (uv_ups_name v)")
    case (Some e)
    then have "statuses devs (uv_ups_name v) = Some (de_status e)" by (simp add: statuses_def)
    then show ?thesis
      using assms Inr Some statuses_keep [OF Some]
      by (auto simp: status_sync_step_def Let_def replay_append statuses_update split: if_splits)
  qed (use assms Inr in \<open>simp add: status_sync_step_def\<close>)
qed (use assms in \<open>simp add: status_sync_step_def\<close>)

lemma status_sync_log:
  assumes "replay m changes = Some (statuses devs)" "list_all (\<lambda>c. sc_old c \<noteq> sc_new c) changes"
    and "foldl (\<lambda>s r. status_sync_step now r s) (devs, changes) rs = (devs', changes')"
  shows "replay m changes' = Some (statuses devs') \<and> list_all (\<lambda>c. sc_old c \<noteq> sc_new c) changes'"
  using assms
proof (induction rs arbitrary: devs changes)
  case (Cons r rs)
  obtain devs1 changes1 where "status_sync_step now r (devs, changes) = (devs1, changes1)" by fastforce
  then show ?case
    using Cons.IH [of changes1 devs1] Cons.prems status_sync_step_log [OF Cons.prems(1,2)] by simp
qed simp

lemma refresh_log:
  "eb_status_changes (snd (refresh_clients lookup name ips s)) = eb_status_changes (snd s)"
  "eb_status_changes (snd (refresh_status name vars (e, b))) = eb_status_changes b @
     (case vars UPS_STATUS of
        Some v \<Rightarrow> if de_status e \<noteq> status_from_value v
                  then [\<lparr>sc_name = name, sc_old = de_status e, sc_new = status_from_value v\<rparr>] else []
      | None \<Rightarrow> [])"
  by (cases s) (simp_all add: refresh_clients_def refresh_status_def Let_def client_connection_def client_disconnect_def
      status_change_def split: option.split)

lemma state_sync_step_log:
  assumes "replay m (eb_status_changes b) = Some (statuses devs)"
    and "state_sync_step lookup now (name, ans) (devs, b) = (devs', b')"
  shows "replay m (eb_status_changes b') = Some (statuses devs')"
proof (cases "map_of devs name")
  case (Some e)
  then have st: "statuses devs name = Some (de_status e)" by (simp add: statuses_def)
  show ?thesis
  proof (cases ans)
    case (Inl err)
    then show ?thesis
      using assms Some st
      by (auto simp: state_sync_step_def status_change_def mark_as_dead_with_def replay_append statuses_update)
  next
    case (Inr r)
    obtain v c k where r: "r = (v, c, k)" by (cases r)
    have devs': "devs' = AList.update name (refreshed lookup now name r e) devs"
      using state_sync_step_table [of lookup now name ans devs b] assms(2) Some Inr by (simp add: polled_def)
    have "eb_status_changes b' = eb_status_changes (snd (refresh_status name (vl_variables v) (e, b)))"
      using assms(2) Some Inr r refresh_log(1) [of lookup name "cl_ips c" "refresh_status name (vl_variables v) (e, b)"]
      by (auto simp: state_sync_step_def updated_device_def split: prod.splits)
    then show ?thesis
      using assms(1) st r
      by (cases "vl_variables v UPS_STATUS")
        (auto simp: devs' refresh_log(2) replay_append statuses_update refreshed_def fun_upd_idem)
  qed
next
  case None
  then show ?thesis using assms by (auto simp: state_sync_step_def split: sum.splits)
qed

lemma state_sync_log:
  assumes "replay m (eb_status_changes b) = Some (statuses devs)"
    and "foldl (\<lambda>s r. state_sync_step lookup now r s) (devs, b) rs = (devs', b')"
  shows "replay m (eb_status_changes b') = Some (statuses devs')"
  using assms
proof (induction rs arbitrary: devs b)
  case (Cons r rs)
  obtain devs1 b1 where s: "state_sync_step lookup now r (devs, b) = (devs1, b1)" by fastforce
  then show ?case
    using Cons.IH [of b1 devs1] Cons.prems state_sync_step_log [OF Cons.prems(1), of lookup now "fst r" "snd r" devs1 b1]
    by simp
qed simp

section \<open>Properties\<close>

text \<open>The clients of a device after a full poll are exactly the clients the daemon lists, whatever
  duplicates either list has, and the events announce exactly the difference: the addresses that
  left, once for each time they were attached, and the addresses that came.\<close>

theorem refresh_clients_exact:
  "set (map ci_addr (de_attached (fst (refresh_clients lookup name ips (e, b))))) = set ips
   \<and> eb_disconnections (snd (refresh_clients lookup name ips (e, b))) = eb_disconnections b @
       (let gone = filter (\<lambda>ip. ip \<notin> set ips) (map ci_addr (de_attached e)) in
        if gone = [] then [] else [\<lparr>dc_name = name, dc_clients = gone\<rparr>])
   \<and> eb_connections (snd (refresh_clients lookup name ips (e, b))) = eb_connections b @
       (let come = filter (\<lambda>ip. ip \<notin> ci_addr ` set (de_attached e)) ips in
        if come = [] then [] else [\<lparr>dc_name = name, dc_clients = come\<rparr>])"
proof -
  have "set (map ci_addr (de_attached (fst (refresh_clients lookup name ips (e, b)))))
      = set_mset (addrs (de_attached (fst (refresh_clients lookup name ips (e, b)))))"
    by simp
  also have "\<dots> = set ips"
    unfolding refresh_clients_addrs by auto
  finally show ?thesis
    by (simp add: refresh_clients_def client_diff_filter Let_def client_connection_def client_disconnect_def)
qed

text \<open>C23: The announced status changes tell the whole story. Replaying the changes a partial or a full
  poll announces, in order and each from the status the device had, turns the statuses before
  the poll into the statuses after it, whatever the daemon answered and however the table
  changed since the poll began; and a partial poll announces no change that is none.\<close>

theorem poll_status_log:
  "(case status_sync_apply now rs st of (st', changes) \<Rightarrow>
      replay (statuses (ds_devices st)) changes = Some (statuses (ds_devices st'))
      \<and> list_all (\<lambda>c. sc_old c \<noteq> sc_new c) changes)
   \<and> (case state_sync_apply lookup ns now frs st of (st', events) \<Rightarrow>
      replay (statuses (ds_devices st)) (eb_status_changes events) = Some (statuses (ds_devices st')))"
  using status_sync_log [of "statuses (ds_devices st)" "[]" "ds_devices st" now rs]
    state_sync_log [of "statuses (ds_devices st)" "event_batch_new ns" "ds_devices st" lookup now frs]
  by (auto simp: status_sync_apply_def state_sync_apply_def event_batch_new_def split: prod.splits)

text \<open>C22: A full poll refreshes exactly the devices that communicate. In an undisturbed poll every device
  that did not communicate before keeps its entry; every other one has the variables, commands
  and clients the daemon gave, with the status among the variables, or, if one of the requests
  failed, is marked as not communicating, with its variables, commands and writable variables
  gone. No device appears or disappears.\<close>

theorem state_sync_exact:
  assumes "distinct (map fst (ds_devices st))" and "state_sync lookup send ns now a st st c = Some (st', c')"
  shows "map_of (ds_devices st') n =
    (case map_of (ds_devices st) n of
       None \<Rightarrow> None
     | Some e \<Rightarrow> Some (if st_has (de_status e) ST_NOCOMM then e
         else polled lookup now n (full_response a n) e))"
proof -
  let ?rs = "full_responses a (snapshot_active_device_names st)"
  have names: "distinct (map fst ?rs)"
    using distinct_snapshot [OF assms(1)] by (simp add: full_responses_def snapshot_active_device_names_def comp_def)
  have lookup: "map_of ?rs n = (case map_of (ds_devices st) n of
      Some e \<Rightarrow> if \<not> st_has (de_status e) ST_NOCOMM then Some (full_response a n) else None | None \<Rightarrow> None)"
    unfolding full_responses_def snapshot_active_device_names_def
    by (subst map_of_filter_keys [OF assms(1)]) simp
  show ?thesis
  proof (cases "snapshot_active_device_names st = []")
    case True
    then have "st' = st" using assms(2) by (simp add: state_sync_def)
    moreover have "?rs = []" using True by (simp add: full_responses_def)
    ultimately show ?thesis using lookup by (auto split: option.splits if_splits)
  next
    case False
    then have "ds_devices st' = fst (foldl (\<lambda>s r. state_sync_step lookup now r s) (ds_devices st, event_batch_new ns) ?rs)"
      using assms(2) by (auto simp: state_sync_def state_sync_apply_def Let_def split: if_splits prod.splits)
    then show ?thesis
      using lookup by (simp add: state_sync_fold [OF names] split: option.split)
  qed
qed

theorem state_sync_exact_witness:
  "let e = nocomm_entry 1 (UpsName ''a''); f = (nocomm_entry 1 (UpsName ''b''))\<lparr>de_status := ST_ONLINE\<rparr>;
       st = daemon_state_new\<lparr>ds_devices := [(UpsName ''a'', e), (UpsName ''b'', f)], ds_status := Online\<rparr> in
   \<exists>st' c'. state_sync (\<lambda>ip. Inl ()) (\<lambda>c ev. (True, c @ [ev])) ''ns'' 9 unreachable st st [] = Some (st', c')
     \<and> map_of (ds_devices st') (UpsName ''a'') = Some e
     \<and> map_of (ds_devices st') (UpsName ''b'') = Some (mark_as_dead_with 9 ST_NOCOMM f)"
proof -
  let ?e = "nocomm_entry 1 (UpsName ''a'')" and ?f = "(nocomm_entry 1 (UpsName ''b''))\<lparr>de_status := ST_ONLINE\<rparr>"
  let ?st = "daemon_state_new\<lparr>ds_devices := [(UpsName ''a'', ?e), (UpsName ''b'', ?f)], ds_status := Online\<rparr>"
  have h: "st_has (de_status ?e) ST_NOCOMM" "\<not> st_has (de_status ?f) ST_NOCOMM"
    by (simp_all add: nocomm_entry_def; code_simp)+
  have ans: "full_response unreachable n = Inl (Err EmptyResponse)" for n
    by (simp add: full_response_def unreachable_def)
  obtain st' c' where s: "state_sync (\<lambda>ip. Inl ()) (\<lambda>c ev. (True, c @ [ev])) ''ns'' 9 unreachable ?st ?st [] = Some (st', c')"
    using h ans by (simp add: state_sync_def snapshot_active_device_names_def full_responses_def case_prod_unfold Let_def)
  have d: "distinct (map fst (ds_devices ?st))" by simp
  show ?thesis
    unfolding Let_def
    using s h ans state_sync_exact [OF d s, of "UpsName ''a''"] state_sync_exact [OF d s, of "UpsName ''b''"]
    by (simp add: polled_def)
qed

end
