(* ===== verification/Services.thy ===== *)
theory Services
  imports Status_Sync
begin

text \<open>
  The device service and the status service of one daemon run side by side. Both compute outside
  the lock and apply under it, so between the two phases of one the other may apply. The system
  is a transition relation: every transition is one locked section of the code, the pending work
  of a service is what it took out of the lock. The description service (\<open>sync/sync_desc.rs\<close>)
  follows the events.
\<close>

section \<open>The description service\<close>

record task_context =
  tc_name :: ups_name
  tc_cmds :: "cmd_name list"
  tc_vars :: "var_name list"

text \<open>The loops over the variables and over the commands: the names that have no description yet and
  were not collected for an earlier device, and the texts collected so far (\<open>tmp_lookup\<close>).\<close>

fun collect_names :: "(string \<rightharpoonup> string) \<Rightarrow> ('n \<Rightarrow> string) \<Rightarrow> 'n list \<Rightarrow> string set \<Rightarrow> 'n list \<times> string set" where
  "collect_names shared text [] seen = ([], seen)"
| "collect_names shared text (n # ns) seen =
     (if shared (text n) = None \<and> text n \<notin> seen
      then (case collect_names shared text ns (insert (text n) seen) of (rest, seen) \<Rightarrow> (n # rest, seen))
      else collect_names shared text ns seen)"

fun collect_contexts ::
    "(ups_variables \<Rightarrow> var_name list) \<Rightarrow> (string \<rightharpoonup> string) \<Rightarrow> device_table \<Rightarrow> ups_name list \<Rightarrow> string set \<Rightarrow> task_context list" where
  "collect_contexts it shared devs [] seen = []"
| "collect_contexts it shared devs (name # names) seen =
     (case map_of devs name of
        Some entry \<Rightarrow>
          (case collect_names shared var_as_str (it (de_variables entry)) seen of (vars, seen) \<Rightarrow>
           case collect_names shared cmd_str (de_commands entry) seen of (cmds, seen) \<Rightarrow>
             (if cmds \<noteq> [] \<or> vars \<noteq> [] then [\<lparr>tc_name = name, tc_cmds = cmds, tc_vars = vars\<rparr>] else [])
             @ collect_contexts it shared devs names seen)
      | None \<Rightarrow> collect_contexts it shared devs names seen)"

text \<open>\<open>into_iter().flatten()\<close> on results.\<close>

definition oks :: "('e + 'a) list \<Rightarrow> 'a list" where
  "oks rs = concat (map (\<lambda>r. case r of Inr x \<Rightarrow> [x] | Inl _ \<Rightarrow> []) rs)"

text \<open>\<open>None\<close> is a panic of one of the requests.\<close>

definition load_descs :: "upsd \<Rightarrow> task_context \<Rightarrow> (string \<times> string) list option" where
  "load_descs a ctx =
     (let cmds = map (q_cmd_desc a (tc_name ctx)) (tc_cmds ctx);
          vars = map (q_var_desc a (tc_name ctx)) (tc_vars ctx) in
      if Inl Panic \<in> set cmds \<or> Inl Panic \<in> set vars then None
      else Some (map (\<lambda>d. (cmd_str (cd_cmd d), cd_desc d)) (oks cmds)
                 @ map (\<lambda>d. (var_as_str (uvd_name d), uvd_desc d)) (oks vars)))"

text \<open>\<open>DescriptionTask::next\<close> on the daemons (their tables and answers) by namespace; \<open>order\<close> is the order
  in which the tasks are joined. \<open>join_all\<close> of a \<open>JoinSet\<close> passes on the panic of a task, which ends the
  service: \<open>None\<close>.\<close>

definition description_next ::
    "(ups_variables \<Rightarrow> var_name list) \<Rightarrow> ((string \<times> string) list list \<Rightarrow> (string \<times> string) list list)
       \<Rightarrow> (string \<rightharpoonup> daemon_state \<times> upsd) \<Rightarrow> ups_name list \<Rightarrow> string \<Rightarrow> (string \<rightharpoonup> string) \<Rightarrow> (string \<rightharpoonup> string) option" where
  "description_next it order servers devices ns shared =
     (case servers ns of
        None \<Rightarrow> Some shared
      | Some (st, a) \<Rightarrow>
          let results = map (load_descs a) (collect_contexts it shared (ds_devices st) devices {}) in
          if None \<in> set results then None
          else Some (foldl (\<lambda>m (k, v). m(k \<mapsto> v)) shared (concat (order (map the results)))))"

text \<open>One event received by the service's loop.\<close>

definition description_event ::
    "(ups_variables \<Rightarrow> var_name list) \<Rightarrow> ((string \<times> string) list list \<Rightarrow> (string \<times> string) list list)
       \<Rightarrow> (string \<rightharpoonup> daemon_state \<times> upsd) \<Rightarrow> system_event \<Rightarrow> (string \<rightharpoonup> string) \<Rightarrow> (string \<rightharpoonup> string) option" where
  "description_event it order servers ev shared =
     (case ev of DeviceAddition devices ns \<Rightarrow> description_next it order servers devices ns shared | _ \<Rightarrow> Some shared)"

section \<open>The two services of a daemon, interleaved\<close>

text \<open>A device round between its phases keeps the answers, the time and the table it read; a poll keeps
  the names it took and whether it is a full one.\<close>

record services =
  sv_state :: daemon_state
  sv_round :: "(time \<times> upsd \<times> daemon_state) option"
  sv_poll :: "(ups_poll_type \<times> daemon_state) option"
  sv_events :: "system_event list"

definition services_new :: services where
  "services_new = \<lparr>sv_state = daemon_state_new, sv_round = None, sv_poll = None, sv_events = []\<rparr>"

abbreviation log_send :: "system_event list \<Rightarrow> system_event \<Rightarrow> bool \<times> system_event list" where
  "log_send c e \<equiv> (True, c @ [e])"

inductive service_step ::
    "(ups_variables \<Rightarrow> var_name list) \<Rightarrow> (ip_addr \<Rightarrow> unit + string)
       \<Rightarrow> (device_entry load_result list \<Rightarrow> device_entry load_result list) \<Rightarrow> string \<Rightarrow> services \<Rightarrow> services \<Rightarrow> bool"
  for it lookup order ns where
  round_begin: "sv_round s = None \<Longrightarrow>
     service_step it lookup order ns s (s\<lparr>sv_round := Some (now, a, sv_state s)\<rparr>)"
| round_apply: "sv_round s = Some (now, a, st0) \<Longrightarrow>
     device_apply log_send ns now (diff_upsd it lookup order now a st0) (sv_state s) (sv_events s) = Some (r, st', evs) \<Longrightarrow>
     service_step it lookup order ns s (s\<lparr>sv_round := None, sv_state := st', sv_events := evs\<rparr>)"
| poll_begin: "sv_poll s = None \<Longrightarrow>
     service_step it lookup order ns s (s\<lparr>sv_poll := Some (t, sv_state s)\<rparr>)"
| poll_partial: "sv_poll s = Some (Partial, st0) \<Longrightarrow>
     status_sync log_send ns now a st0 (sv_state s) (sv_events s) = Some (st', evs) \<Longrightarrow>
     service_step it lookup order ns s (s\<lparr>sv_poll := None, sv_state := st', sv_events := evs\<rparr>)"
| poll_full: "sv_poll s = Some (Full, st0) \<Longrightarrow>
     state_sync lookup log_send ns now a st0 (sv_state s) (sv_events s) = Some (st', evs) \<Longrightarrow>
     service_step it lookup order ns s (s\<lparr>sv_poll := None, sv_state := st', sv_events := evs\<rparr>)"

inductive_cases service_stepE: "service_step it lookup order ns s s'"

text \<open>The invariant of the daemon state.\<close>

definition daemon_ok :: "daemon_state \<Rightarrow> bool" where
  "daemon_ok st \<longleftrightarrow> table_ok (ds_devices st)
     \<and> (ds_devices st \<noteq> [] \<longrightarrow> ds_status st = Online)
     \<and> (ds_prot_ver st \<noteq> None \<longleftrightarrow> ds_status st = Online) \<and> (ds_ver st \<noteq> None \<longleftrightarrow> ds_status st = Online)"

definition names_of :: "daemon_state \<Rightarrow> ups_name set" where
  "names_of st = fst ` set (ds_devices st)"

text \<open>A pending round saw the names the table still has, because only rounds change them.\<close>

definition services_ok :: "services \<Rightarrow> bool" where
  "services_ok s \<longleftrightarrow> daemon_ok (sv_state s)
     \<and> (case sv_round s of Some (_, _, st0) \<Rightarrow> names_of st0 = names_of (sv_state s) | None \<Rightarrow> True)"

lemma daemon_ok_patch: "daemon_ok st \<Longrightarrow> daemon_ok (fst (apply_patch ns now patch st))"
proof -
  assume ok: "daemon_ok st"
  obtain T2 b2 where T2: "apply_added (dp_added patch) (ds_devices st, event_batch_new ns) = (T2, b2)" by fastforce
  obtain T3 b3 where T3: "apply_updated (dp_updated patch) (T2, b2) = (T3, b3)" by fastforce
  have "table_ok T2" using apply_loops_ok(1) [of "ds_devices st"] ok T2 by (metis daemon_ok_def fst_conv)
  then have "table_ok T3" using apply_loops_ok(2) T3 by (metis fst_conv)
  then have "table_ok (fst (apply_deleted (dp_deleted patch) (T3, b3)))" by (rule apply_loops_ok(3))
  then show ?thesis by (auto simp: apply_patch_def T2 T3 daemon_ok_def split: prod.splits)
qed

lemma daemon_ok_failure: "daemon_ok st \<Longrightarrow> daemon_ok (fst (apply_failure ns now st))"
  by (auto simp: apply_failure_def daemon_ok_def Let_def)

text \<open>A poll changes only entries of existing devices, so it keeps the names and the invariant.\<close>

lemma update_existing_keys:
  "map_of devs n = Some e \<Longrightarrow> map fst (AList.update n e' devs) = map fst devs"
  using map_of_eq_None_iff [of devs n] by (simp add: update_keys)

lemma table_ok_replace:
  "table_ok devs \<Longrightarrow> map_of devs n = Some e \<Longrightarrow> de_name e' = de_name e \<Longrightarrow> table_ok (AList.update n e' devs)"
  by (simp add: table_ok_update table_ok_lookup)

definition same_table :: "device_table \<Rightarrow> device_table \<Rightarrow> bool" where
  "same_table devs devs' \<longleftrightarrow> map fst devs' = map fst devs \<and> (table_ok devs \<longrightarrow> table_ok devs')"

lemma same_table_refl: "same_table devs devs"
  by (simp add: same_table_def)

lemma same_table_trans: "same_table a b \<Longrightarrow> same_table b c \<Longrightarrow> same_table a c"
  by (simp add: same_table_def)

lemma same_table_replace:
  "map_of devs n = Some e \<Longrightarrow> de_name e' = de_name e \<Longrightarrow> same_table devs (AList.update n e' devs)"
  by (simp add: same_table_def update_existing_keys table_ok_replace)

lemma status_sync_step_table: "same_table devs (fst (status_sync_step now r (devs, cs)))"
proof (cases r)
  case (Inr v)
  then show ?thesis
    by (cases "map_of devs (uv_ups_name v)")
      (simp_all add: status_sync_step_def Let_def same_table_refl same_table_replace)
qed (simp add: status_sync_step_def same_table_refl)

lemma state_sync_step_same: "same_table devs (fst (state_sync_step lookup now r (devs, b)))"
proof (cases r)
  case (Pair name ans)
  have "de_name (polled lookup now name ans e) = de_name e" for e
    by (simp add: polled_def refreshed_def mark_as_dead_with_def split: sum.split prod.split)
  then show ?thesis
    by (cases "map_of devs name") (simp_all add: Pair state_sync_step_table same_table_refl same_table_replace)
qed

lemma fold_same_table:
  assumes "\<And>r s. same_table (fst s) (fst (f s r))"
  shows "same_table (fst s) (fst (foldl f s rs))"
proof (induction rs arbitrary: s)
  case (Cons r rs)
  have "same_table (fst s) (fst (foldl f (f s r) rs))"
    by (rule same_table_trans [OF assms [of s r] Cons.IH])
  then show ?case by simp
qed (simp add: same_table_refl)

lemma status_sync_same:
  assumes "status_sync send ns now a st0 st c = Some (st', c')"
  shows "\<exists>devs. st' = st\<lparr>ds_devices := devs\<rparr> \<and> same_table (ds_devices st) devs"
proof -
  have step: "same_table (fst s) (fst (status_sync_step now r s))" for r s
    using status_sync_step_table [of "fst s" now r "snd s"] by simp
  have "same_table (ds_devices st) (fst (foldl (\<lambda>s r. status_sync_step now r s) (ds_devices st, []) rs))" for rs
    using fold_same_table [of "\<lambda>s r. status_sync_step now r s" "(ds_devices st, [])" rs] step by simp
  then show ?thesis
    using assms same_table_refl exI [of _ "ds_devices st"]
    by (cases "snapshot_active_device_names st0 = []")
      (auto simp: status_sync_def status_sync_apply_def Let_def case_prod_unfold split: if_splits intro: exI [of _ "ds_devices st"])
qed

lemma state_sync_same:
  assumes "state_sync lookup send ns now a st0 st c = Some (st', c')"
  shows "\<exists>devs. st' = st\<lparr>ds_devices := devs\<rparr> \<and> same_table (ds_devices st) devs"
proof -
  have step: "same_table (fst s) (fst (state_sync_step lookup now r s))" for r s
    using state_sync_step_same [of "fst s" lookup now r "snd s"] by simp
  have "same_table (ds_devices st) (fst (foldl (\<lambda>s r. state_sync_step lookup now r s) (ds_devices st, event_batch_new ns) rs))" for rs
    using fold_same_table [of "\<lambda>s r. state_sync_step lookup now r s" "(ds_devices st, event_batch_new ns)" rs] step by simp
  then show ?thesis
    using assms same_table_refl exI [of _ "ds_devices st"]
    by (cases "snapshot_active_device_names st0 = []")
      (auto simp: state_sync_def state_sync_apply_def Let_def case_prod_unfold split: if_splits intro: exI [of _ "ds_devices st"])
qed

lemma daemon_ok_same:
  assumes "daemon_ok st" "same_table (ds_devices st) devs"
  shows "daemon_ok (st\<lparr>ds_devices := devs\<rparr>)" "names_of (st\<lparr>ds_devices := devs\<rparr>) = names_of st"
proof -
  have "map fst devs = map fst (ds_devices st)" using assms(2) by (simp add: same_table_def)
  then have "set (map fst devs) = set (map fst (ds_devices st))" "devs = [] \<longleftrightarrow> ds_devices st = []"
    by (simp, metis map_is_Nil_conv)
  then show "daemon_ok (st\<lparr>ds_devices := devs\<rparr>)" "names_of (st\<lparr>ds_devices := devs\<rparr>) = names_of st"
    using assms by (auto simp: daemon_ok_def same_table_def names_of_def)
qed

lemma services_ok_step:
  assumes "service_step it lookup order ns s s'" "services_ok s"
  shows "services_ok s'"
  using assms
proof cases
  case (round_apply now a st0 r st' evs)
  have "daemon_ok st'"
    using round_apply(3) assms(2) daemon_ok_patch daemon_ok_failure
    by (auto simp: device_apply_def services_ok_def case_prod_unfold split: sum.splits option.splits)
  then show ?thesis using round_apply(1) by (simp add: services_ok_def)
next
  case (poll_partial st0 now a st' evs)
  obtain devs where "st' = (sv_state s)\<lparr>ds_devices := devs\<rparr>" "same_table (ds_devices (sv_state s)) devs"
    using status_sync_same [OF poll_partial(3)] by blast
  then show ?thesis
    using poll_partial(1) assms(2) daemon_ok_same by (auto simp: services_ok_def split: option.splits)
next
  case (poll_full st0 now a st' evs)
  obtain devs where "st' = (sv_state s)\<lparr>ds_devices := devs\<rparr>" "same_table (ds_devices (sv_state s)) devs"
    using state_sync_same [OF poll_full(3)] by blast
  then show ?thesis
    using poll_full(1) assms(2) daemon_ok_same by (auto simp: services_ok_def split: option.splits)
qed (auto simp: services_ok_def split: option.splits)

lemma reachable_ok:
  "(service_step it lookup order ns)\<^sup>*\<^sup>* services_new s \<Longrightarrow> services_ok s"
proof (induction rule: rtranclp_induct)
  case base
  show ?case by (simp add: services_ok_def services_new_def daemon_ok_def daemon_state_new_def)
next
  case (step s s')
  then show ?case using services_ok_step by blast
qed

lemma round_names:
  assumes ord: "\<And>rs. set (order rs) = set rs" and remote: "q_list_ups a = Inr remote" "distinct (map dev_ups_name remote)"
    and diff: "diff_upsd it lookup order now a st0 = Inr patch" and names: "names_of st0 = names_of st"
    and loads: "\<And>d. d \<in> set remote \<Longrightarrow> load_device_entry it lookup now a d \<noteq> Inl None"
  shows "names_of (fst (apply_patch ns now patch st)) = dev_ups_name ` set remote"
proof -
  let ?st' = "fst (apply_patch ns now patch st)"
  have iff: "n \<in> names_of s \<longleftrightarrow> map_of (ds_devices s) n \<noteq> None" for n s
    by (simp add: names_of_def map_of_eq_None_iff)
  have "n \<in> names_of ?st' \<longleftrightarrow> n \<in> dev_ups_name ` set remote" for n
  proof (cases "n \<in> dev_ups_name ` set remote")
    case True
    then obtain d where d: "d \<in> set remote" "n = dev_ups_name d" by blast
    have "addition (load_device_entry it lookup now a) now st0 d \<noteq> None \<or> map_of (ds_devices st) n \<noteq> None"
      using loads [OF d(1)] names iff [of n st0] iff [of n st] d(2)
      by (auto simp: addition_def is_new_def pushed_def split: sum.splits option.splits)
    then show ?thesis
      using True patch_lookup [OF ord remote diff d(1), of ns st] by (auto simp: iff d(2) split: option.splits)
  next
    case False
    then show ?thesis
      using patch_lookup_absent [OF ord remote(1) diff _ False, of st ns]
        patch_lookup_gone [OF remote(1) diff _ False, of ns st] names iff [of n st0] iff [of n st] iff [of n ?st']
      by auto
  qed
  then show ?thesis by blast
qed

section \<open>Properties\<close>

text \<open>The daemon state stays consistent under every interleaving of the two services, whatever the
  daemon answers: every device is in the table once and under its own name, there are devices
  only while the daemon is online, and the versions are known exactly while it is online.\<close>

theorem services_invariant:
  assumes "(service_step it lookup order ns)\<^sup>*\<^sup>* services_new s"
  shows "daemon_ok (sv_state s)"
  using reachable_ok [OF assms] by (simp add: services_ok_def)

lemma demo_round_begin:
  "service_step (\<lambda>_. []) (\<lambda>_. Inl ()) rev ''ns'' services_new (services_new\<lparr>sv_round := Some (5, one_device, daemon_state_new)\<rparr>)"
  using round_begin [of services_new "\<lambda>_. []" "\<lambda>_. Inl ()" rev "''ns''" 5 one_device] by (simp add: services_new_def)

lemma demo_reachable:
  "(service_step (\<lambda>_. []) (\<lambda>_. Inl ()) rev ''ns'')\<^sup>*\<^sup>* services_new
     (services_new\<lparr>sv_round := Some (5, one_device, daemon_state_new)\<rparr>)"
  using demo_round_begin by (rule r_into_rtranclp)

theorem services_invariant_witness:
  "\<exists>st' evs. (service_step (\<lambda>_. []) (\<lambda>_. Inl ()) rev ''ns'')\<^sup>*\<^sup>* services_new (services_new\<lparr>sv_state := st', sv_events := evs\<rparr>)
     \<and> daemon_ok st' \<and> map fst (ds_devices st') = [UpsName ''a'']"
proof -
  let ?s = "services_new\<lparr>sv_round := Some (5, one_device, daemon_state_new)\<rparr>"
  obtain st' evs where a: "device_apply log_send ''ns'' 5
      (diff_upsd (\<lambda>_. []) (\<lambda>_. Inl ()) rev 5 one_device daemon_state_new) (sv_state ?s) (sv_events ?s) = Some (Inr (), st', evs)"
    and n: "map fst (ds_devices st') = [UpsName ''a'']"
    by (simp add: diff_upsd_def one_device_def sync_err_def daemon_state_new_def load_device_entry_def services_new_def
        map_load_err_def Let_def device_apply_def apply_patch_def deleted_devices_def table_simps)
  have "(service_step (\<lambda>_. []) (\<lambda>_. Inl ()) rev ''ns'')\<^sup>*\<^sup>* services_new (?s\<lparr>sv_round := None, sv_state := st', sv_events := evs\<rparr>)"
    using demo_round_begin round_apply [OF _ a] by (simp add: converse_rtranclp_into_rtranclp)
  then have r: "(service_step (\<lambda>_. []) (\<lambda>_. Inl ()) rev ''ns'')\<^sup>*\<^sup>* services_new (services_new\<lparr>sv_state := st', sv_events := evs\<rparr>)"
    by (simp add: services_new_def)
  show ?thesis
    using r n services_invariant [OF r] by auto
qed

text \<open>C11: Polls do not disturb a device round. Whatever the services did between the two phases of a
  round, when the round is applied the table has exactly the devices the daemon listed at its
  start: no device that the daemon dropped survives, and none that it lists is missing, even
  those that could not be loaded.\<close>

theorem round_applies_exactly:
  assumes "(service_step it lookup order ns)\<^sup>*\<^sup>* services_new s" and "sv_round s = Some (now, a, st0)"
    and "\<And>rs. set (order rs) = set rs" and "q_list_ups a = Inr remote" and "distinct (map dev_ups_name remote)"
    and "diff_upsd it lookup order now a st0 = Inr patch"
    and "\<And>d. d \<in> set remote \<Longrightarrow> load_device_entry it lookup now a d \<noteq> Inl None"
  shows "\<exists>st' evs. service_step it lookup order ns s (s\<lparr>sv_round := None, sv_state := st', sv_events := evs\<rparr>)
    \<and> fst ` set (ds_devices st') = dev_ups_name ` set remote \<and> ds_status st' = Online"
proof -
  let ?p = "apply_patch ns now patch (sv_state s)"
  have "device_apply log_send ns now (diff_upsd it lookup order now a st0) (sv_state s) (sv_events s)
      = Some (Inr (), fst ?p, snd (batch_send log_send (snd ?p) (sv_events s)))"
    by (simp add: device_apply_def assms(6) case_prod_unfold)
  then have "service_step it lookup order ns s
      (s\<lparr>sv_round := None, sv_state := fst ?p, sv_events := snd (batch_send log_send (snd ?p) (sv_events s))\<rparr>)"
    by (rule round_apply [OF assms(2)])
  moreover have "names_of (fst ?p) = dev_ups_name ` set remote"
    using reachable_ok [OF assms(1)] assms(2) by (intro round_names [OF assms(3-6) _ assms(7)]) (auto simp: services_ok_def)
  moreover have "ds_status (fst ?p) = Online"
    by (simp add: apply_patch_def case_prod_unfold)
  ultimately show ?thesis unfolding names_of_def by blast
qed

theorem round_applies_exactly_witness:
  "\<exists>st' evs. service_step (\<lambda>_. []) (\<lambda>_. Inl ()) rev ''ns'' (services_new\<lparr>sv_round := Some (5, one_device, daemon_state_new)\<rparr>)
       (services_new\<lparr>sv_round := None, sv_state := st', sv_events := evs\<rparr>)
     \<and> fst ` set (ds_devices st') = {UpsName ''a''} \<and> ds_status st' = Online"
proof -
  let ?d = "\<lparr>dev_ups_name = UpsName ''a'', dev_desc = ''x''\<rparr>"
  obtain patch where "diff_upsd (\<lambda>_. []) (\<lambda>_. Inl ()) rev 5 one_device daemon_state_new = Inr patch"
    by (simp add: diff_upsd_def one_device_def sync_err_def daemon_state_new_def load_device_entry_def map_load_err_def Let_def)
  then show ?thesis
    using round_applies_exactly [OF demo_reachable, of 5 one_device daemon_state_new "[?d]" patch]
    by (simp add: one_device_def load_device_entry_def map_load_err_def Let_def)
qed

text \<open>What the contexts ask for.\<close>

definition asked :: "task_context list \<Rightarrow> string list" where
  "asked ctxs = concat (map (\<lambda>c. map var_as_str (tc_vars c) @ map cmd_str (tc_cmds c)) ctxs)"

text \<open>The texts a list adds to a set of described and seen ones.\<close>

fun fresh :: "(string \<rightharpoonup> string) \<Rightarrow> string list \<Rightarrow> string set \<Rightarrow> string list" where
  "fresh shared [] seen = []"
| "fresh shared (t # ts) seen =
     (if shared t = None \<and> t \<notin> seen then t # fresh shared ts (insert t seen) else fresh shared ts seen)"

lemma fresh_append: "fresh shared (xs @ ys) seen = fresh shared xs seen @ fresh shared ys (seen \<union> set (fresh shared xs seen))"
  by (induction xs arbitrary: seen) simp_all

lemma fresh_set: "set (fresh shared ts seen) = {t \<in> set ts. shared t = None \<and> t \<notin> seen}"
  by (induction ts arbitrary: seen) auto

lemma fresh_distinct: "distinct (fresh shared ts seen)"
  by (induction ts arbitrary: seen) (auto simp: fresh_set)

lemma collect_names_fresh:
  "collect_names shared text ns seen = (out, seen') \<Longrightarrow>
   map text out = fresh shared (map text ns) seen \<and> seen' = seen \<union> set (fresh shared (map text ns) seen)"
  by (induction ns arbitrary: seen out) (auto split: prod.splits if_splits)

definition texts_of :: "(ups_variables \<Rightarrow> var_name list) \<Rightarrow> device_table \<Rightarrow> ups_name \<Rightarrow> string list" where
  "texts_of it devs n =
     (case map_of devs n of
        Some e \<Rightarrow> map var_as_str (it (de_variables e)) @ map cmd_str (de_commands e) | None \<Rightarrow> [])"

lemma collect_contexts_fresh:
  "asked (collect_contexts it shared devs names seen) = fresh shared (concat (map (texts_of it devs) names)) seen"
proof (induction names arbitrary: seen)
  case (Cons n names)
  show ?case
  proof (cases "map_of devs n")
    case (Some e)
    obtain vars seen1 where v: "collect_names shared var_as_str (it (de_variables e)) seen = (vars, seen1)" by fastforce
    obtain cmds seen2 where c: "collect_names shared cmd_str (de_commands e) seen1 = (cmds, seen2)" by fastforce
    have "asked (collect_contexts it shared devs (n # names) seen)
        = map var_as_str vars @ map cmd_str cmds @ asked (collect_contexts it shared devs names seen2)"
      using Some v c by (auto simp: asked_def)
    then show ?thesis
      using Cons [of seen2] collect_names_fresh [OF v] collect_names_fresh [OF c] Some
      by (simp add: texts_of_def fresh_append Un_assoc)
  qed (use Cons in \<open>simp add: asked_def texts_of_def\<close>)
qed (simp add: asked_def)

text \<open>Descriptions are asked for once. For the devices an event announces, the description service
  asks for exactly the texts of their variables and commands that have no description yet, and
  for none of them twice, however many of the devices share it.\<close>

theorem descriptions_asked_once:
  "distinct (asked (collect_contexts it shared devs names {}))
   \<and> set (asked (collect_contexts it shared devs names {})) =
       {t \<in> (\<Union>n \<in> set names. set (texts_of it devs n)). shared t = None}"
  by (simp add: collect_contexts_fresh fresh_distinct fresh_set)

end
