(* ===== verification/Event_Log.thy ===== *)
theory Event_Log
  imports Services
begin

text \<open>
  What the system events of \<open>event.rs\<close> tell a listener. A listener keeps, for one daemon, the names of the
  devices that were announced and the last connection status; \<open>observe\<close> is how an event changes that. The
  services of \<open>sync/\<close> promise that this knowledge is exact after every step of theirs, however they are
  interleaved, and that no event speaks of a device that was not announced. The locale states what any
  source of events has to guarantee for a step; it is interpreted on the interleaved services of a daemon
  here and on the whole server in the theory of the running server.
\<close>

section \<open>A listener\<close>

type_synonym known = "ups_name set \<times> connection_status"

definition nothing_known :: known where
  "nothing_known = ({}, NotReady)"

fun event_namespace :: "system_event \<Rightarrow> string" where
  "event_namespace (DeviceAddition _ ns) = ns"
| "event_namespace (DeviceRemoval _ ns) = ns"
| "event_namespace (DeviceUpdate _ ns) = ns"
| "event_namespace (DeviceStatusChange _ ns) = ns"
| "event_namespace (DaemonStatusUpdate _ ns) = ns"
| "event_namespace (ClientConnection _ ns) = ns"
| "event_namespace (ClientDisconnection _ ns) = ns"

fun observe :: "system_event \<Rightarrow> known \<Rightarrow> known" where
  "observe (DeviceAddition names _) (K, st) = (K \<union> set names, st)"
| "observe (DeviceRemoval names _) (K, st) = (K - set names, st)"
| "observe (DaemonStatusUpdate status _) (K, st) = (K, status)"
| "observe _ k = k"

text \<open>What an event may say: only devices that are known lose, change or report something, and a change
  of the connection status is a change.\<close>

fun sensible :: "system_event \<Rightarrow> known \<Rightarrow> bool" where
  "sensible (DeviceAddition names _) (K, st) = (names \<noteq> [])"
| "sensible (DeviceRemoval names _) (K, st) = (names \<noteq> [] \<and> set names \<subseteq> K)"
| "sensible (DeviceUpdate names _) (K, st) = (names \<noteq> [] \<and> set names \<subseteq> K)"
| "sensible (DeviceStatusChange changes _) (K, st) = (changes \<noteq> [] \<and> sc_name ` set changes \<subseteq> K)"
| "sensible (DaemonStatusUpdate status _) (K, st) = (status \<noteq> st)"
| "sensible (ClientConnection infos _) (K, st) = (infos \<noteq> [] \<and> dc_name ` set infos \<subseteq> K)"
| "sensible (ClientDisconnection infos _) (K, st) = (infos \<noteq> [] \<and> dc_name ` set infos \<subseteq> K)"

text \<open>A run of events leads a listener of the daemon from one knowledge to the next.\<close>

fun tells :: "string \<Rightarrow> system_event list \<Rightarrow> known \<Rightarrow> known \<Rightarrow> bool" where
  "tells ns [] k k' = (k' = k)"
| "tells ns (e # es) k k' =
     (if event_namespace e = ns then sensible e k \<and> tells ns es (observe e k) k' else tells ns es k k')"

lemma tells_append: "tells ns xs k k1 \<Longrightarrow> tells ns ys k1 k2 \<Longrightarrow> tells ns (xs @ ys) k k2"
  by (induction ns xs k k1 rule: tells.induct) (simp_all split: if_splits)

lemma tells_other: "(\<And>e. e \<in> set es \<Longrightarrow> event_namespace e \<noteq> ns) \<Longrightarrow> tells ns es k k"
  by (induction es) simp_all

section \<open>The contract of a source of events\<close>

locale faithful_log =
  fixes step :: "'s \<Rightarrow> 's \<Rightarrow> bool" and start :: 's and ok :: "'s \<Rightarrow> bool"
    and log :: "'s \<Rightarrow> system_event list" and view :: "'s \<Rightarrow> known" and ns :: string
  assumes start_ok: "ok start"
    and start_silent: "log start = []" "view start = nothing_known"
    and step_ok: "step s s' \<Longrightarrow> ok s \<Longrightarrow> ok s'"
    and step_tells: "step s s' \<Longrightarrow> ok s \<Longrightarrow> \<exists>evs. log s' = log s @ evs \<and> tells ns evs (view s) (view s')"
begin

lemma reachable_tells:
  assumes "step\<^sup>*\<^sup>* start s"
  shows "ok s \<and> tells ns (log s) nothing_known (view s)"
  using assms
proof (induction rule: rtranclp_induct)
  case base
  show ?case by (simp add: start_ok start_silent)
next
  case (step s s')
  then obtain evs where "log s' = log s @ evs" "tells ns evs (view s) (view s')"
    using step_tells by blast
  then show ?case using step step_ok by (auto intro: tells_append)
qed

end

section \<open>Batches\<close>

text \<open>The devices a batch speaks of after its additions and removals.\<close>

definition mentioned :: "event_batch \<Rightarrow> ups_name set" where
  "mentioned b = set (eb_updated b) \<union> sc_name ` set (eb_status_changes b) \<union> dc_name ` set (eb_disconnections b)
     \<union> dc_name ` set (eb_connections b)"

lemma batch_namespace: "e \<in> set (batch_events b) \<Longrightarrow> event_namespace e = eb_namespace b"
  by (auto simp: batch_events_def Let_def split: if_splits option.splits)

lemma batch_tells:
  assumes "set (eb_removed b) \<subseteq> K \<union> set (eb_new b)" and "mentioned b \<subseteq> (K \<union> set (eb_new b)) - set (eb_removed b)"
    and "eb_upsd_status b \<noteq> Some st"
  shows "tells (eb_namespace b) (batch_events b) (K, st)
    ((K \<union> set (eb_new b)) - set (eb_removed b), case eb_upsd_status b of Some s \<Rightarrow> s | None \<Rightarrow> st)"
proof -
  let ?ns = "eb_namespace b" and ?K1 = "K \<union> set (eb_new b)"
  let ?K2 = "?K1 - set (eb_removed b)"
  have 1: "tells ?ns (if eb_new b = [] then [] else [DeviceAddition (eb_new b) ?ns]) (K, st) (?K1, st)" by simp
  have 2: "tells ?ns (if eb_removed b = [] then [] else [DeviceRemoval (eb_removed b) ?ns]) (?K1, st) (?K2, st)"
    using assms(1) by simp
  have 3: "tells ?ns (if eb_updated b = [] then [] else [DeviceUpdate (eb_updated b) ?ns]) (?K2, st) (?K2, st)"
    "tells ?ns (if eb_status_changes b = [] then [] else [DeviceStatusChange (eb_status_changes b) ?ns]) (?K2, st) (?K2, st)"
    "tells ?ns (if eb_disconnections b = [] then [] else [ClientDisconnection (eb_disconnections b) ?ns]) (?K2, st) (?K2, st)"
    "tells ?ns (if eb_connections b = [] then [] else [ClientConnection (eb_connections b) ?ns]) (?K2, st) (?K2, st)"
    using assms(2) by (auto simp: mentioned_def)
  have 4: "tells ?ns (case eb_upsd_status b of Some status \<Rightarrow> [DaemonStatusUpdate status ?ns] | None \<Rightarrow> []) (?K2, st)
     (?K2, case eb_upsd_status b of Some s \<Rightarrow> s | None \<Rightarrow> st)"
    using assms(3) by (auto split: option.split)
  show ?thesis
    unfolding batch_events_def Let_def by (rule 1 2 3 4 tells_append)+
qed

lemma log_send_all: "send_all log_send es c = (True, c @ es)"
  by (induction es arbitrary: c) simp_all

lemma log_batch: "snd (batch_send log_send b c) = c @ batch_events b"
  by (simp add: batch_send_events log_send_all)

section \<open>The events of a device round\<close>

abbreviation keys :: "device_table \<Rightarrow> ups_name set" where
  "keys devs \<equiv> fst ` set devs"

lemma apply_added_events:
  "keys (fst (apply_added es (devs, b))) = keys devs \<union> de_name ` set es
   \<and> snd (apply_added es (devs, b)) = b\<lparr>eb_new := eb_new b @ map de_name es\<rparr>"
  by (induction es arbitrary: devs b) (auto simp: apply_added_simps new_device_def dom_update)

lemma apply_updated_events:
  "keys (fst (apply_updated ds (devs, b))) = keys devs
   \<and> snd (apply_updated ds (devs, b)) = b\<lparr>eb_updated := eb_updated b @ filter (\<lambda>n. n \<in> keys devs) (map dev_ups_name ds)\<rparr>"
proof (induction ds arbitrary: devs b)
  case (Cons d ds)
  show ?case
  proof (cases "map_of devs (dev_ups_name d)")
    case None
    then have "dev_ups_name d \<notin> keys devs" by (simp add: map_of_eq_None_iff)
    then show ?thesis using Cons None by (simp add: apply_updated_simps)
  next
    case (Some e)
    then have "dev_ups_name d \<in> keys devs" by (force dest: map_of_SomeD)
    then show ?thesis using Cons Some by (simp add: apply_updated_simps updated_device_def dom_update insert_absorb)
  qed
qed (simp add: apply_updated_simps)

lemma keys_delete: "keys (AList.delete n devs) = keys devs - {n}"
  using arg_cong [OF delete_keys [of n devs], of set] by simp

lemma apply_deleted_events:
  "keys (fst (apply_deleted ns (devs, b))) = keys devs - set ns
   \<and> snd (apply_deleted ns (devs, b)) = b\<lparr>eb_removed := eb_removed b @ ns\<rparr>"
  by (induction ns arbitrary: devs b) (auto simp: apply_deleted_simps removed_device_def keys_delete)

lemma deleted_unlisted:
  assumes "diff_upsd it lookup order now a st0 = Inr patch"
  shows "set (dp_deleted patch) \<subseteq> names_of st0" and "set (dp_deleted patch) \<inter> dev_ups_name ` set (dp_updated patch) = {}"
proof -
  obtain remote where remote: "q_list_ups a = Inr remote"
    using assms by (cases "q_list_ups a") (auto simp: diff_upsd_def sync_err_def bind_res_eq_Inr split: fault.splits)
  obtain "dp_deleted patch = deleted_devices st0 remote" "dp_updated patch = filter (is_renamed st0) remote"
    using assms remote by (rule diff_upsd_Inr)
  then show "set (dp_deleted patch) \<subseteq> names_of st0" "set (dp_deleted patch) \<inter> dev_ups_name ` set (dp_updated patch) = {}"
    by (auto simp: deleted_devices_def names_of_def find_None_iff)
qed

text \<open>A round leads the listener from the names and the status before it to those after it.\<close>

lemma patch_tells:
  assumes "diff_upsd it lookup order now a st0 = Inr patch" and "names_of st0 = names_of st"
    and "apply_patch ns now patch st = (st', b)"
  shows "eb_namespace b = ns \<and> tells ns (batch_events b) (names_of st, ds_status st) (names_of st', ds_status st')"
proof -
  obtain D1 b1 where 1: "apply_added (dp_added patch) (ds_devices st, event_batch_new ns) = (D1, b1)" by fastforce
  obtain D2 b2 where 2: "apply_updated (dp_updated patch) (D1, b1) = (D2, b2)" by fastforce
  obtain D3 b3 where 3: "apply_deleted (dp_deleted patch) (D2, b2) = (D3, b3)" by fastforce
  note d = deleted_unlisted [OF assms(1)]
  have keys: "keys D1 = names_of st \<union> de_name ` set (dp_added patch)" "keys D3 = keys D1 - set (dp_deleted patch)"
    and b3: "b3 = (event_batch_new ns)\<lparr>eb_new := map de_name (dp_added patch), eb_removed := dp_deleted patch,
      eb_updated := filter (\<lambda>n. n \<in> keys D1) (map dev_ups_name (dp_updated patch))\<rparr>"
    using apply_added_events [of "dp_added patch" "ds_devices st" "event_batch_new ns"] 1
      apply_updated_events [of "dp_updated patch" D1 b1] 2 apply_deleted_events [of "dp_deleted patch" D2 b2] 3
    by (simp_all add: names_of_def event_batch_new_def)
  have b: "b = (if ds_status st \<noteq> Online then set_upsd_status Online b3 else b3)"
    and st': "names_of st' = keys D3" "ds_status st' = Online"
    using assms(3) 1 2 3 by (auto simp: apply_patch_def names_of_def)
  have "tells (eb_namespace b) (batch_events b) (names_of st, ds_status st)
    ((names_of st \<union> set (eb_new b)) - set (eb_removed b), case eb_upsd_status b of Some s \<Rightarrow> s | None \<Rightarrow> ds_status st)"
    using d assms(2) keys by (intro batch_tells) (auto simp: b b3 mentioned_def set_upsd_status_def event_batch_new_def)
  then show ?thesis
    by (auto simp: b b3 st' keys set_upsd_status_def event_batch_new_def split: if_splits)
qed

lemma failure_tells:
  assumes "apply_failure ns now st = (st', b)"
  shows "eb_namespace b = ns \<and> tells ns (batch_events b) (names_of st, ds_status st) (names_of st', ds_status st')"
proof -
  have "foldl (\<lambda>b (name, _). removed_device name b) b0 devs = b0\<lparr>eb_removed := eb_removed b0 @ map fst devs\<rparr>"
    for b0 and devs :: device_table
    by (induction devs arbitrary: b0) (auto simp: removed_device_def)
  then have b: "b = (if ds_status st \<noteq> Dead then set_upsd_status Dead else id) ((event_batch_new ns)\<lparr>eb_removed := map fst (ds_devices st)\<rparr>)"
    and st': "names_of st' = {}" "ds_status st' = Dead"
    using assms by (auto simp: apply_failure_def names_of_def Let_def event_batch_new_def split: if_splits)
  have "tells (eb_namespace b) (batch_events b) (names_of st, ds_status st)
    ((names_of st \<union> set (eb_new b)) - set (eb_removed b), case eb_upsd_status b of Some s \<Rightarrow> s | None \<Rightarrow> ds_status st)"
    by (intro batch_tells) (auto simp: b names_of_def mentioned_def set_upsd_status_def event_batch_new_def)
  then show ?thesis
    by (auto simp: b st' set_upsd_status_def event_batch_new_def names_of_def [of st] split: if_splits)
qed

section \<open>The events of a poll\<close>

lemma same_table_keys: "same_table devs devs' \<Longrightarrow> keys devs' = keys devs"
  by (simp add: same_table_def flip: set_map)

lemma status_sync_names:
  assumes "foldl (\<lambda>s r. status_sync_step now r s) (devs, cs) rs = (devs', cs')" and "sc_name ` set cs \<subseteq> keys devs"
  shows "sc_name ` set cs' \<subseteq> keys devs'"
  using assms
proof (induction rs arbitrary: devs cs)
  case (Cons r rs)
  obtain devs1 cs1 where 1: "status_sync_step now r (devs, cs) = (devs1, cs1)" by fastforce
  have "sc_name ` set cs1 \<subseteq> keys devs1"
  proof (cases r)
    case (Inr v)
    show ?thesis
    proof (cases "map_of devs (uv_ups_name v)")
      case (Some e)
      then obtain e' where "devs1 = AList.update (uv_ups_name v) e' devs"
        and "set cs1 \<subseteq> set cs \<union> {c. sc_name c = uv_ups_name v}"
        using 1 Inr by (auto simp: status_sync_step_def Let_def split: if_splits)
      then show ?thesis using Cons.prems(2) by (simp add: dom_update) blast
    qed (use 1 Inr Cons.prems(2) in \<open>simp add: status_sync_step_def\<close>)
  qed (use 1 Cons.prems(2) in \<open>simp add: status_sync_step_def\<close>)
  with Cons 1 show ?case by simp
qed simp

text \<open>The batch of a full poll while it is filled.\<close>

definition poll_batch :: "string \<Rightarrow> ups_name set \<Rightarrow> event_batch \<Rightarrow> bool" where
  "poll_batch ns K b \<longleftrightarrow> eb_namespace b = ns \<and> eb_new b = [] \<and> eb_removed b = [] \<and> eb_upsd_status b = None \<and> mentioned b \<subseteq> K"

lemmas poll_batch_defs = poll_batch_def mentioned_def batch_ops

lemma poll_batch_mono: "poll_batch ns K b \<Longrightarrow> K \<subseteq> K' \<Longrightarrow> poll_batch ns K' b"
  by (auto simp: poll_batch_def)

lemma refresh_status_batch:
  "poll_batch ns K b \<Longrightarrow> name \<in> K \<Longrightarrow> poll_batch ns K (snd (refresh_status name vars (e, b)))"
  by (auto simp: refresh_status_def poll_batch_defs Let_def split: option.split)

lemma refresh_clients_batch:
  "poll_batch ns K b \<Longrightarrow> name \<in> K \<Longrightarrow> poll_batch ns K (snd (refresh_clients lookup name ips (e, b)))"
  by (auto simp: refresh_clients_def poll_batch_defs Let_def split: if_splits)

lemma state_sync_step_batch:
  assumes "poll_batch ns (keys devs) b" and "state_sync_step lookup now r (devs, b) = (devs', b')"
  shows "poll_batch ns (keys devs') b'"
proof -
  obtain name ans where r: "r = (name, ans)" by fastforce
  show ?thesis
  proof (cases "map_of devs name")
    case None
    then show ?thesis using assms r by (auto simp: state_sync_step_def split: sum.splits)
  next
    case (Some e)
    then have k: "name \<in> keys devs" by (force dest: map_of_SomeD)
    show ?thesis
    proof (cases ans)
      case (Inl err)
      then show ?thesis
        using assms Some r k by (simp add: state_sync_step_def poll_batch_defs) (clarsimp simp: dom_update subset_insertI2)
    next
      case (Inr x)
      obtain v c m where x: "x = (v, c, m)" by (cases x)
      obtain e1 b1 where 1: "refresh_status name (vl_variables v) (e, b) = (e1, b1)" by fastforce
      obtain e2 b2 where 2: "refresh_clients lookup name (cl_ips c) (e1, b1) = (e2, b2)" by fastforce
      have "poll_batch ns (keys devs) b2"
        using refresh_status_batch [OF assms(1) k, of "vl_variables v" e]
          refresh_clients_batch [of ns "keys devs" b1 name lookup "cl_ips c" e1] k 1 2 by simp
      then show ?thesis
        using assms(2) Some r Inr x 1 2 k
        by (simp add: state_sync_step_def poll_batch_def mentioned_def updated_device_def) (clarsimp simp: dom_update subset_insertI2)
    qed
  qed
qed

lemma state_sync_batch:
  assumes "foldl (\<lambda>s r. state_sync_step lookup now r s) (devs, b) rs = (devs', b')" and "poll_batch ns (keys devs) b"
  shows "poll_batch ns (keys devs') b'"
  using assms
proof (induction rs arbitrary: devs b)
  case (Cons r rs)
  obtain devs1 b1 where 1: "state_sync_step lookup now r (devs, b) = (devs1, b1)" by fastforce
  show ?case
    using Cons 1 state_sync_step_batch [OF Cons.prems(2) 1] by simp
qed simp

lemma poll_batch_tells:
  assumes "poll_batch ns K b"
  shows "tells ns (batch_events b) (K, st) (K, st)"
  using batch_tells [of b K st] assms by (simp add: poll_batch_def)

section \<open>The services of a daemon\<close>

text \<open>What a listener should know of a daemon.\<close>

definition knowledge :: "daemon_state \<Rightarrow> known" where
  "knowledge st = (names_of st, ds_status st)"

text \<open>Events of a step: in the daemon's namespace, and exact.\<close>

definition reported :: "string \<Rightarrow> services \<Rightarrow> services \<Rightarrow> system_event list \<Rightarrow> bool" where
  "reported ns s s' evs \<longleftrightarrow> sv_events s' = sv_events s @ evs \<and> (\<forall>e\<in>set evs. event_namespace e = ns)
     \<and> tells ns evs (knowledge (sv_state s)) (knowledge (sv_state s'))"

lemma reported_nothing: "sv_events s' = sv_events s \<Longrightarrow> knowledge (sv_state s') = knowledge (sv_state s) \<Longrightarrow> reported ns s s' []"
  by (simp add: reported_def)

lemma reported_batch:
  assumes "sv_events s' = snd (batch_send log_send b (sv_events s))" and "eb_namespace b = ns"
    and "tells ns (batch_events b) (knowledge (sv_state s)) (knowledge (sv_state s'))"
  shows "reported ns s s' (batch_events b)"
  using assms batch_namespace by (auto simp: reported_def log_batch)

lemma round_reported:
  assumes "device_apply log_send ns now (diff_upsd it lookup order now a st0) (sv_state s) (sv_events s) = Some (r, st', evs)"
    and "names_of st0 = names_of (sv_state s)"
  shows "\<exists>es. reported ns s (s\<lparr>sv_round := None, sv_state := st', sv_events := evs\<rparr>) es"
proof (cases "diff_upsd it lookup order now a st0")
  case (Inr patch)
  then obtain b where b: "apply_patch ns now patch (sv_state s) = (st', b)" "evs = snd (batch_send log_send b (sv_events s))"
    using assms(1) by (auto simp: device_apply_def split: prod.splits)
  show ?thesis
    using patch_tells [OF Inr assms(2) b(1)] b(2) by (intro exI [of _ "batch_events b"] reported_batch) (auto simp: knowledge_def)
next
  case (Inl e)
  then obtain b where b: "apply_failure ns now (sv_state s) = (st', b)" "evs = snd (batch_send log_send b (sv_events s))"
    using assms(1) by (auto simp: device_apply_def split: option.splits prod.splits)
  show ?thesis
    using failure_tells [OF b(1)] b(2) by (intro exI [of _ "batch_events b"] reported_batch) (auto simp: knowledge_def)
qed

lemma partial_reported:
  assumes "status_sync log_send ns now a st0 (sv_state s) (sv_events s) = Some (st', evs)"
  shows "\<exists>es. reported ns s (s\<lparr>sv_poll := None, sv_state := st', sv_events := evs\<rparr>) es"
proof (cases "snapshot_active_device_names st0 = []")
  case True
  then show ?thesis using assms by (intro exI [of _ "[]"] reported_nothing) (auto simp: status_sync_def)
next
  case False
  obtain devs cs where f: "foldl (\<lambda>s r. status_sync_step now r s) (ds_devices (sv_state s), []) (status_responses a (snapshot_active_device_names st0)) = (devs, cs)"
    by fastforce
  have st': "st' = (sv_state s)\<lparr>ds_devices := devs\<rparr>" and evs: "evs = (if cs = [] then sv_events s else sv_events s @ [DeviceStatusChange cs ns])"
    using assms False f by (auto simp: status_sync_def status_sync_apply_def Let_def split: if_splits)
  have "names_of st' = names_of (sv_state s)"
    using status_sync_same [OF assms] by (elim exE conjE) (simp add: names_of_def same_table_keys)
  then have "knowledge st' = knowledge (sv_state s)" by (simp add: knowledge_def st')
  moreover have "sc_name ` set cs \<subseteq> names_of st'"
    using status_sync_names [OF f] by (simp add: st' names_of_def)
  ultimately have "reported ns s (s\<lparr>sv_poll := None, sv_state := st', sv_events := evs\<rparr>) (if cs = [] then [] else [DeviceStatusChange cs ns])"
    by (auto simp: reported_def evs knowledge_def)
  then show ?thesis by blast
qed

lemma full_reported:
  assumes "state_sync lookup log_send ns now a st0 (sv_state s) (sv_events s) = Some (st', evs)"
  shows "\<exists>es. reported ns s (s\<lparr>sv_poll := None, sv_state := st', sv_events := evs\<rparr>) es"
proof (cases "snapshot_active_device_names st0 = []")
  case True
  then show ?thesis using assms by (intro exI [of _ "[]"] reported_nothing) (auto simp: state_sync_def)
next
  case False
  obtain devs b where f: "foldl (\<lambda>s r. state_sync_step lookup now r s) (ds_devices (sv_state s), event_batch_new ns)
      (full_responses a (snapshot_active_device_names st0)) = (devs, b)"
    by fastforce
  have st': "st' = (sv_state s)\<lparr>ds_devices := devs\<rparr>" and evs: "evs = snd (batch_send log_send b (sv_events s))"
    using assms False f by (auto simp: state_sync_def state_sync_apply_def Let_def split: if_splits)
  have "names_of st' = names_of (sv_state s)"
    using state_sync_same [OF assms] by (elim exE conjE) (simp add: names_of_def same_table_keys)
  then have k: "knowledge st' = knowledge (sv_state s)" by (simp add: knowledge_def st')
  have p: "poll_batch ns (names_of st') b"
    using state_sync_batch [OF f, of ns] by (simp add: st' names_of_def poll_batch_defs)
  then show ?thesis
    using poll_batch_tells [OF p, of "ds_status st'"] k
    by (intro exI [of _ "batch_events b"] reported_batch) (auto simp: evs poll_batch_def knowledge_def)
qed

lemma service_step_reported:
  assumes "service_step it lookup order ns s s'" and "services_ok s"
  shows "\<exists>evs. reported ns s s' evs"
  using assms(1)
proof cases
  case (round_apply now a st0 r st' evs)
  then show ?thesis using round_reported [OF round_apply(3)] assms(2) by (simp add: services_ok_def)
next
  case (poll_partial st0 now a st' evs)
  then show ?thesis using partial_reported [OF poll_partial(3)] by simp
next
  case (poll_full st0 now a st' evs)
  then show ?thesis using full_reported [OF poll_full(3)] by simp
qed (auto intro!: exI [of _ "[]"] reported_nothing)

interpretation daemon_log: faithful_log "service_step it lookup order ns" services_new services_ok sv_events
  "\<lambda>s. knowledge (sv_state s)" ns for it lookup order ns
proof unfold_locales
  show "services_ok services_new" by (rule reachable_ok) simp
  show "sv_events services_new = []" "knowledge (sv_state services_new) = nothing_known"
    by (simp_all add: services_new_def knowledge_def nothing_known_def names_of_def daemon_state_new_def)
  show "service_step it lookup order ns s s' \<Longrightarrow> services_ok s \<Longrightarrow> services_ok s'" for s s'
    by (rule services_ok_step)
  show "service_step it lookup order ns s s' \<Longrightarrow> services_ok s \<Longrightarrow>
      \<exists>evs. sv_events s' = sv_events s @ evs \<and> tells ns evs (knowledge (sv_state s)) (knowledge (sv_state s'))" for s s'
    using service_step_reported [of it lookup order ns s s'] by (auto simp: reported_def)
qed

end
