(* ===== verification/Serde.thy ===== *)
theory Serde
  imports Http_Read Event_Api
begin

text \<open>
  What the crates hand to serde and take from it: the \<open>Serialize\<close> implementations as values of serde's
  data model, and the visitors as functions on the calls of a deserializer. The formats themselves
  (\<open>serde_json\<close>, \<open>toml\<close>) are outside; what a round trip needs of one is the predicate \<open>self_describing\<close>.
  Also the conversions and comparisons of \<open>Value\<close> and of names that the visitors use, and the text of
  addresses (\<open>Display\<close> of std). Rejections carry no text. The text of a time is chrono's, an argument.
\<close>

section \<open>The data model\<close>

datatype ser =
    S_F64 f64
  | S_I64 int
  | S_U64 nat
  | S_Str string
  | S_Null
  | S_Some ser
  | S_Unit_Variant string
  | S_Seq "ser list"
  | S_Map "(ser \<times> ser) list"
  | S_Struct string "(string \<times> ser) list"

datatype visit =
    Visit_F64 f64
  | Visit_I64 int
  | Visit_U64 "64 word"
  | Visit_U32 "32 word"
  | Visit_U8 "8 word"
  | Visit_Str string
  | Visit_Borrowed_Str string
  | Visit_String string
  | Visit_Seq "visit list"
  | Visit_Map "(visit \<times> visit) list"
  | Visit_Other

text \<open>Visitors without \<open>visit_borrowed_str\<close> or \<open>visit_string\<close> get the text by \<open>visit_str\<close>, which is serde's
  default for both.\<close>

fun visit_text :: "visit \<Rightarrow> string option" where
  "visit_text (Visit_Str v) = Some v"
| "visit_text (Visit_Borrowed_Str v) = Some v"
| "visit_text (Visit_String v) = Some v"
| "visit_text _ = None"

definition ok_option :: "'e + 'a \<Rightarrow> 'a option" where
  "ok_option r = (case r of Inl _ \<Rightarrow> None | Inr v \<Rightarrow> Some v)"

section \<open>Names\<close>

fun cmd_try_from :: "cow \<Rightarrow> cmd_parse_error + cmd_name" where
  "cmd_try_from (Borrowed v) = cmd_name_new v"
| "cmd_try_from (Owned v) = bind_res (is_cmd_name v) (\<lambda>_. Inr (CmdName v))"

definition cmd_eq_str :: "cmd_name \<Rightarrow> string \<Rightarrow> bool" where
  "cmd_eq_str n other = (cmd_str n = other)"

definition cmd_name_serialize :: "cmd_name \<Rightarrow> ser" where
  "cmd_name_serialize n = S_Str (cmd_str n)"

fun cmd_name_visit :: "visit \<Rightarrow> cmd_name option" where
  "cmd_name_visit (Visit_Borrowed_Str v) = ok_option (cmd_name_new v)"
| "cmd_name_visit (Visit_String v) = ok_option (cmd_try_from (Owned v))"
| "cmd_name_visit (Visit_Str v) = ok_option (cmd_name_new v)"
| "cmd_name_visit _ = None"

fun ups_try_from :: "cow \<Rightarrow> ups_name_parse_error + ups_name" where
  "ups_try_from (Borrowed v) = ups_name_new v"
| "ups_try_from (Owned v) = bind_res (is_ups_name v) (\<lambda>_. Inr (UpsName v))"

definition ups_eq_str :: "ups_name \<Rightarrow> string \<Rightarrow> bool" where
  "ups_eq_str n other = (ups_str n = other)"

definition ups_name_serialize :: "ups_name \<Rightarrow> ser" where
  "ups_name_serialize n = S_Str (ups_str n)"

fun ups_name_visit :: "visit \<Rightarrow> ups_name option" where
  "ups_name_visit (Visit_Str v) = ok_option (ups_name_new v)"
| "ups_name_visit (Visit_Borrowed_Str v) = ok_option (ups_name_new v)"
| "ups_name_visit (Visit_String v) = ok_option (ups_try_from (Owned v))"
| "ups_name_visit _ = None"

fun var_try_from :: "cow \<Rightarrow> var_name_parse_error + var_name" where
  "var_try_from (Borrowed v) = var_name_new v"
| "var_try_from (Owned v) =
     (case standard_try_from v of
        Some name \<Rightarrow> Inr (Standard name)
      | None \<Rightarrow> bind_res (is_var_name v) (\<lambda>_. Inr (Custom v)))"

fun var_eq_str :: "var_name \<Rightarrow> string \<Rightarrow> bool" where
  "var_eq_str (Standard name) other = (standard_as_str name = other)"
| "var_eq_str (Custom boxed_name) other = (boxed_name = other)"

fun var_name_serialize :: "var_name \<Rightarrow> ser" where
  "var_name_serialize (Standard name) = S_Str (standard_as_str name)"
| "var_name_serialize (Custom name) = S_Str name"

fun var_name_visit :: "visit \<Rightarrow> var_name option" where
  "var_name_visit (Visit_Borrowed_Str v) = ok_option (var_name_new v)"
| "var_name_visit (Visit_String v) = ok_option (var_try_from (Owned v))"
| "var_name_visit (Visit_Str v) = ok_option (var_name_new v)"
| "var_name_visit _ = None"

section \<open>Values\<close>

definition value_from_f64 :: "f64 \<Rightarrow> nut_value" where
  "value_from_f64 v = V_Float v"

definition value_from_int :: "int \<Rightarrow> nut_value" where
  "value_from_int v = V_Int v"

fun value_from_cow :: "cow \<Rightarrow> nut_value" where
  "value_from_cow (Borrowed v) = V_String v"
| "value_from_cow (Owned v) = V_String v"

fun value_fmt :: "nut_value \<Rightarrow> string" where
  "value_fmt (V_Float v) = show_f64_2 v"
| "value_fmt (V_Int v) = show_int v"
| "value_fmt (V_String v) = v"

fun value_eq_i64 :: "nut_value \<Rightarrow> int \<Rightarrow> bool" where
  "value_eq_i64 (V_Float _) other = False"
| "value_eq_i64 (V_Int val) other = (val = other)"
| "value_eq_i64 (V_String _) other = False"

fun value_eq_f64 :: "nut_value \<Rightarrow> f64 \<Rightarrow> bool" where
  "value_eq_f64 (V_Float val) other = f64_eq val other"
| "value_eq_f64 (V_Int _) other = False"
| "value_eq_f64 (V_String _) other = False"

fun value_eq_str :: "nut_value \<Rightarrow> string \<Rightarrow> bool" where
  "value_eq_str (V_Float _) other = False"
| "value_eq_str (V_Int _) other = False"
| "value_eq_str (V_String inner) other = (inner = other)"

fun value_serialize :: "nut_value \<Rightarrow> ser" where
  "value_serialize (V_Float val) = S_F64 val"
| "value_serialize (V_Int val) = S_I64 val"
| "value_serialize (V_String val) = S_Str val"

fun value_visit :: "visit \<Rightarrow> nut_value option" where
  "value_visit (Visit_Borrowed_Str v) = Some (V_String v)"
| "value_visit (Visit_String v) = Some (V_String v)"
| "value_visit (Visit_Str v) = Some (V_String v)"
| "value_visit (Visit_F64 v) = Some (value_from_f64 v)"
| "value_visit (Visit_I64 v) = Some (value_from_int v)"
| "value_visit (Visit_U64 v) = Some (value_from_u64 v)"
| "value_visit (Visit_U32 v) = Some (value_from_int (uint v))"
| "value_visit (Visit_U8 v) = Some (value_from_int (uint v))"
| "value_visit _ = None"

section \<open>Variables\<close>

text \<open>\<open>UpsVariables\<close> in the iteration order \<open>it\<close> of its hash map; reading inserts entry by entry, and the
  first rejected key or value ends it.\<close>

definition variables_serialize :: "(ups_variables \<Rightarrow> var_name list) \<Rightarrow> ups_variables \<Rightarrow> ser" where
  "variables_serialize it vars =
     S_Map (map (\<lambda>n. (var_name_serialize n, value_serialize (the (vars n)))) (it vars))"

fun variables_entries :: "(visit \<times> visit) list \<Rightarrow> ups_variables \<Rightarrow> ups_variables option" where
  "variables_entries [] vars = Some vars"
| "variables_entries ((k, v) # entries) vars =
     (case var_name_visit k of None \<Rightarrow> None | Some name \<Rightarrow>
     (case value_visit v of None \<Rightarrow> None | Some val \<Rightarrow> variables_entries entries (fst (uv_insert vars name val))))"

fun variables_visit :: "visit \<Rightarrow> ups_variables option" where
  "variables_visit (Visit_Map entries) = variables_entries entries Map.empty"
| "variables_visit _ = None"

section \<open>Statuses and events\<close>

definition status_serialize :: "ups_status \<Rightarrow> ser" where
  "status_serialize s = S_Str (status_fmt s)"

fun status_visit :: "visit \<Rightarrow> ups_status option" where
  "status_visit (Visit_Borrowed_Str v) = Some (status_new v)"
| "status_visit (Visit_String v) = Some (status_new v)"
| "status_visit (Visit_Str v) = Some (status_new v)"
| "status_visit _ = None"

definition event_serialize :: "ups_event \<Rightarrow> ser" where
  "event_serialize e = S_Str (event_as_str e)"

definition events_serialize :: "(ups_event set \<Rightarrow> ups_event list) \<Rightarrow> ups_event set \<Rightarrow> ser" where
  "events_serialize order events = S_Seq (map event_serialize (order events))"

definition protocol_error_serialize :: "protocol_error \<Rightarrow> ser" where
  "protocol_error_serialize e = S_Str (protocol_error_as_str e)"

section \<open>Permissions, user names and passwords\<close>

text \<open>The elements of a sequence are read as \<open>String\<close>; numbers are cut to eight bits, and there is no
  \<open>visit_i64\<close>.\<close>

fun permissions_visit :: "visit \<Rightarrow> permissions option" where
  "permissions_visit (Visit_Seq elements) =
     (if list_all (\<lambda>v. visit_text v \<noteq> None) elements
      then permissions_visit_seq 0 (map (the \<circ> visit_text) elements) else None)"
| "permissions_visit (Visit_U8 v) = Some v"
| "permissions_visit (Visit_U64 v) = Some (permissions_visit_u64 v)"
| "permissions_visit (Visit_U32 v) = Some (ucast v)"
| "permissions_visit (Visit_Str v) = permissions_from_str v"
| "permissions_visit (Visit_Borrowed_Str v) = permissions_from_str v"
| "permissions_visit (Visit_String v) = permissions_from_str v"
| "permissions_visit _ = None"

definition username_visit :: "visit \<Rightarrow> string option" where
  "username_visit v = Option.bind (visit_text v) username_new"

fun password_visit :: "visit \<Rightarrow> string option" where
  "password_visit (Visit_Str v) = password_visit_str v"
| "password_visit (Visit_Borrowed_Str v) = password_visit_str v"
| "password_visit (Visit_String v) = password_from_str v"
| "password_visit _ = None"

definition tls_mode_serialize :: "tls_mode \<Rightarrow> ser" where
  "tls_mode_serialize m = S_Str (tls_mode_as_str m)"

definition tls_mode_visit :: "visit \<Rightarrow> tls_mode option" where
  "tls_mode_visit v = Option.bind (visit_text v) (\<lambda>s. ok_option (tls_mode_from_str s))"

definition uri_path_visit :: "visit \<Rightarrow> string option" where
  "uri_path_visit v = Option.bind (visit_text v) (\<lambda>s. ok_option (uri_path_new s))"

section \<open>Addresses\<close>

text \<open>\<open>Display\<close> of std: IPv4 addresses mapped into IPv6 keep their dots, and otherwise the first longest run
  of at least two zero groups is written as a double colon.\<close>

definition hex_char :: "nat \<Rightarrow> char" where
  "hex_char n = ''0123456789abcdef'' ! n"

fun show_hex :: "nat \<Rightarrow> string" where
  "show_hex n = (if n < 16 then [hex_char n] else show_hex (n div 16) @ [hex_char (n mod 16)])"

declare show_hex.simps [simp del]

fun show_groups :: "16 word list \<Rightarrow> string" where
  "show_groups [] = []"
| "show_groups [g] = show_hex (unat g)"
| "show_groups (g # gs) = show_hex (unat g) @ CHR '':'' # show_groups gs"

text \<open>The scan of the groups with the longest and the current run, as start and length.\<close>

fun zero_run :: "nat \<Rightarrow> 16 word list \<Rightarrow> nat \<times> nat \<Rightarrow> nat \<times> nat \<Rightarrow> nat \<times> nat" where
  "zero_run i [] longest current = longest"
| "zero_run i (g # gs) longest (start, len) =
     (if g = 0 then
        let current = (if len = 0 then i else start, Suc len) in
        zero_run (Suc i) gs (if snd longest < snd current then current else longest) current
      else zero_run (Suc i) gs longest (0, 0))"

definition show_v6 :: "16 word list \<Rightarrow> string" where
  "show_v6 gs =
     (if take 6 gs = [0, 0, 0, 0, 0, 0xffff] \<and> length gs = 8 then
        ''::ffff:'' @ show_v4 [ucast (drop_bit 8 (gs ! 6)), ucast (gs ! 6), ucast (drop_bit 8 (gs ! 7)), ucast (gs ! 7)]
      else (case zero_run 0 gs (0, 0) (0, 0) of
              (start, len) \<Rightarrow>
                if 1 < len then show_groups (take start gs) @ ''::'' @ show_groups (drop (start + len) gs)
                else show_groups gs))"

fun ip_fmt :: "ip_addr \<Rightarrow> string" where
  "ip_fmt (V4 octets) = show_v4 octets"
| "ip_fmt (V6 groups) = show_v6 groups"

lemma ip_fmt_examples:
  "ip_fmt (V6 [0, 0, 0, 0, 0, 0, 0, 1]) = ''::1''" "ip_fmt (V6 [0, 0, 0, 0, 0, 0, 0, 0]) = ''::''"
  "ip_fmt (V6 [0x2001, 0xdb8, 0, 0, 1, 0, 0, 1]) = ''2001:db8::1:0:0:1''"
  "ip_fmt (V6 [0, 0, 0, 0, 0, 0xffff, 0xc0a8, 0x0102]) = ''::ffff:192.168.1.2''"
  "ip_fmt (V6 [1, 0, 3, 4, 5, 6, 7, 0xabcd]) = ''1:0:3:4:5:6:7:abcd''"
  by (simp_all add: show_v6_def hex_char_def Let_def show_hex.simps) code_simp

definition get_listen_addr :: "http_server_config \<Rightarrow> string" where
  "get_listen_addr c = ip_fmt (hc_listen c) @ CHR '':'' # show_nat (hc_port c)"

section \<open>Devices and daemons\<close>

definition opt_ser :: "('a \<Rightarrow> ser) \<Rightarrow> 'a option \<Rightarrow> ser" where
  "opt_ser f v = (case v of Some x \<Rightarrow> S_Some (f x) | None \<Rightarrow> S_Null)"

fun connection_status_serialize :: "connection_status \<Rightarrow> ser" where
  "connection_status_serialize Dead = S_Unit_Variant ''Dead''"
| "connection_status_serialize Online = S_Unit_Variant ''Online''"
| "connection_status_serialize NotReady = S_Unit_Variant ''NotReady''"

fun var_detail_serialize :: "var_detail \<Rightarrow> ser" where
  "var_detail_serialize (VD_String max_len) = S_Struct ''VarDetail'' [(''type'', S_Str ''string''), (''max_len'', S_U64 max_len)]"
| "var_detail_serialize VD_Number = S_Struct ''VarDetail'' [(''type'', S_Str ''number'')]"
| "var_detail_serialize (VD_Enum options) =
     S_Struct ''VarDetail'' [(''type'', S_Str ''enum''), (''options'', S_Seq (map value_serialize options))]"
| "var_detail_serialize (VD_Range lo hi) =
     S_Struct ''VarDetail'' [(''type'', S_Str ''range''), (''min'', value_serialize lo), (''max'', value_serialize hi)]"

definition client_info_serialize :: "client_info \<Rightarrow> ser" where
  "client_info_serialize c = S_Struct ''ClientInfo'' [(''addr'', S_Str (ip_fmt (ci_addr c))), (''name'', opt_ser S_Str (ci_name c))]"

record ser_env =
  se_time :: "time \<Rightarrow> string"
  se_variables :: "ups_variables \<Rightarrow> var_name list"
  se_rw_variables :: "(var_name \<rightharpoonup> var_detail) \<Rightarrow> var_name list"
  se_events :: "ups_event set \<Rightarrow> ups_event list"

definition device_entry_serialize :: "ser_env \<Rightarrow> device_entry \<Rightarrow> ser" where
  "device_entry_serialize env e =
     S_Struct ''DeviceEntry''
       [(''attached'', S_Seq (map client_info_serialize (de_attached e))),
        (''commands'', S_Seq (map cmd_name_serialize (de_commands e))),
        (''desc'', S_Str (de_desc e)),
        (''last_modified'', S_Str (se_time env (de_last_modified e))),
        (''name'', ups_name_serialize (de_name e)),
        (''rw_variables'', S_Map (map (\<lambda>n. (var_name_serialize n, var_detail_serialize (the (de_rw_variables e n))))
            (se_rw_variables env (de_rw_variables e)))),
        (''status'', status_serialize (de_status e)),
        (''variables'', variables_serialize (se_variables env) (de_variables e))]"

definition upsd_entry_serialize :: "ser_env \<Rightarrow> upsd_entry \<Rightarrow> ser" where
  "upsd_entry_serialize env u =
     S_Struct ''UpsdEntry''
       [(''address'', S_Str (ue_address u)),
        (''device_count'', S_U64 (ue_device_count u)),
        (''last_sync_time'', opt_ser (S_Str \<circ> se_time env) (ue_last_sync_time u)),
        (''namespace'', S_Str (ue_namespace u)),
        (''poll_freq'', S_U64 (ue_poll_freq u)),
        (''poll_interval'', S_U64 (ue_poll_interval u)),
        (''port'', S_U64 (ue_port u)),
        (''protocol_version'', opt_ser S_Str (ue_protocol_version u)),
        (''status'', connection_status_serialize (ue_status u)),
        (''tls_mode'', tls_mode_serialize (ue_tls_mode u)),
        (''version'', opt_ser S_Str (ue_version u))]"

definition problem_serialize :: "string \<Rightarrow> string option \<Rightarrow> nat \<Rightarrow> ser" where
  "problem_serialize title detail status =
     S_Struct ''ProblemDetailsResponse'' [(''title'', S_Str title), (''detail'', opt_ser S_Str detail), (''status'', S_U64 status)]"

section \<open>Event messages\<close>

definition handshake_error_serialize :: "handshake_error \<Rightarrow> ser" where
  "handshake_error_serialize e = S_Str (handshake_error_fmt e)"

text \<open>An enumeration with the tag \<open>type\<close> is a structure whose first field names the variant.\<close>

definition tagged :: "string \<Rightarrow> (string \<times> ser) list \<Rightarrow> ser" where
  "tagged variant members = S_Struct ''NutEventMessage'' ((''type'', S_Str variant) # members)"

definition device_fields :: "ups_name \<Rightarrow> string \<Rightarrow> (string \<times> ser) list" where
  "device_fields name namespace = [(''name'', ups_name_serialize name), (''namespace'', S_Str namespace)]"

fun event_message_serialize :: "(ups_event set \<Rightarrow> ups_event list) \<Rightarrow> event_message \<Rightarrow> ser" where
  "event_message_serialize order (M_DeviceConnected name namespace timestamp) =
     tagged ''DeviceConnected'' (device_fields name namespace @ [(''timestamp'', S_I64 timestamp)])"
| "event_message_serialize order (M_DeviceRemoved name namespace timestamp) =
     tagged ''DeviceRemoved'' (device_fields name namespace @ [(''timestamp'', S_I64 timestamp)])"
| "event_message_serialize order (M_DeviceUpdate name namespace timestamp) =
     tagged ''DeviceUpdate'' (device_fields name namespace @ [(''timestamp'', S_I64 timestamp)])"
| "event_message_serialize order (M_DeviceStatus name namespace new_status old_status events timestamp) =
     tagged ''DeviceStatus'' (device_fields name namespace @
       [(''status_new'', status_serialize new_status), (''status_old'', status_serialize old_status),
        (''events'', events_serialize order events), (''timestamp'', S_I64 timestamp)])"
| "event_message_serialize order (M_DaemonStatus namespace status timestamp) =
     tagged ''DaemonStatus''
       [(''namespace'', S_Str namespace), (''status'', connection_status_serialize status), (''timestamp'', S_I64 timestamp)]"
| "event_message_serialize order (M_ClientConnect client_ip name namespace timestamp) =
     tagged ''ClientConnect'' ((''client_ip'', S_Str (ip_fmt client_ip)) # device_fields name namespace @ [(''timestamp'', S_I64 timestamp)])"
| "event_message_serialize order (M_ClientDisconnect client_ip name namespace timestamp) =
     tagged ''ClientDisconnect'' ((''client_ip'', S_Str (ip_fmt client_ip)) # device_fields name namespace @ [(''timestamp'', S_I64 timestamp)])"
| "event_message_serialize order (M_HandshakeError message) = tagged ''HandshakeError'' [(''message'', handshake_error_serialize message)]"
| "event_message_serialize order M_SessionEnded = tagged ''SessionEnded'' []"
| "event_message_serialize order M_WaitingForAuth = tagged ''WaitingForAuth'' []"
| "event_message_serialize order M_AuthOk = tagged ''AuthOk'' []"

section \<open>Round trips\<close>

text \<open>What a format like JSON documents: texts come back as texts, an integer as unsigned when it is not
  negative and as signed otherwise, a finite float as some float, a map entry by entry.\<close>

definition self_describing :: "(ser \<Rightarrow> visit) \<Rightarrow> bool" where
  "self_describing reads \<longleftrightarrow>
     (\<forall>s. reads (S_Str s) \<in> {Visit_Str s, Visit_Borrowed_Str s, Visit_String s})
     \<and> (\<forall>i. 0 \<le> i \<and> i \<le> i64_max \<longrightarrow> reads (S_I64 i) = Visit_U64 (word_of_int i))
     \<and> (\<forall>i. i64_min \<le> i \<and> i < 0 \<longrightarrow> reads (S_I64 i) = Visit_I64 i)
     \<and> (\<forall>entries. reads (S_Map entries) = Visit_Map (map (map_prod reads reads) entries))"

text \<open>All ways to make a name agree.\<close>

lemma cmd_try_from_new: "cmd_try_from c = cmd_name_new (cow_str c)"
  by (cases c) (simp_all add: cmd_name_new_def)

lemma ups_try_from_new: "ups_try_from c = ups_name_new (cow_str c)"
  by (cases c) (simp_all add: ups_name_new_def)

lemma var_try_from_new: "var_try_from c = var_name_new (cow_str c)"
  by (cases c) (simp_all add: var_name_new_def)

lemma cmd_name_visit_text: "cmd_name_visit v = Option.bind (visit_text v) (ok_option \<circ> cmd_name_new)"
  by (cases v) (simp_all add: cmd_try_from_new)

lemma ups_name_visit_text: "ups_name_visit v = Option.bind (visit_text v) (ok_option \<circ> ups_name_new)"
  by (cases v) (simp_all add: ups_try_from_new)

lemma var_name_visit_text: "var_name_visit v = Option.bind (visit_text v) (ok_option \<circ> var_name_new)"
  by (cases v) (simp_all add: var_try_from_new)

lemma status_visit_text: "status_visit v = map_option status_new (visit_text v)"
  by (cases v) simp_all

lemma var_name_serialize_text: "var_name_serialize n = S_Str (var_as_str n)"
  by (cases n) simp_all

lemma reads_text: "self_describing reads \<Longrightarrow> visit_text (reads (S_Str s)) = Some s"
  unfolding self_describing_def by (metis empty_iff insert_iff visit_text.simps(1-3))

lemma value_visit_text: "visit_text v = Some s \<Longrightarrow> value_visit v = Some (V_String s)"
  by (cases v) simp_all

lemma sint_u64: "0 \<le> i \<Longrightarrow> i \<le> i64_max \<Longrightarrow> sint (word_of_int i :: 64 word) = i"
  by (simp add: signed_take_bit_int_eq_self sint_sbintrunc')

lemma value_reads:
  assumes "self_describing reads" "value_ok v" "\<And>f. v \<noteq> V_Float f"
  shows "value_visit (reads (value_serialize v)) = Some v"
proof (cases v)
  case (V_Int i)
  then show ?thesis
    using assms(1,2) by (cases "0 \<le> i") (simp_all add: self_describing_def value_from_u64_def value_from_int_def sint_u64)
next
  case (V_String s)
  then show ?thesis using reads_text [OF assms(1)] by (simp add: value_visit_text)
qed (use assms(3) in blast)

lemma variables_entries_read:
  assumes "self_describing reads"
    and "\<And>n. n \<in> set ns \<Longrightarrow> var_name_new (var_as_str n) = Inr n \<and> value_visit (reads (value_serialize (f n))) = Some (f n)"
  shows "variables_entries (map (map_prod reads reads) (map (\<lambda>n. (var_name_serialize n, value_serialize (f n))) ns)) vars
     = Some (\<lambda>n. if n \<in> set ns then Some (f n) else vars n)"
  using assms(2)
proof (induction ns arbitrary: vars)
  case (Cons n ns)
  have "var_name_visit (reads (var_name_serialize n)) = Some n"
    using Cons.prems [of n] reads_text [OF assms(1)]
    by (simp add: var_name_visit_text var_name_serialize_text ok_option_def)
  moreover have "variables_entries (map (map_prod reads reads) (map (\<lambda>n. (var_name_serialize n, value_serialize (f n))) ns)) (vars(n \<mapsto> f n))
      = Some (\<lambda>m. if m \<in> set ns then Some (f m) else (vars(n \<mapsto> f n)) m)"
    using Cons.IH Cons.prems by simp
  ultimately show ?case
    using Cons.prems [of n] by (auto simp: uv_insert_def fun_eq_iff)
qed simp

section \<open>Properties\<close>


text \<open>The calls \<open>serde_json\<close> makes for what it has written.\<close>

fun json_visit :: "ser \<Rightarrow> visit" where
  "json_visit (S_F64 f) = Visit_F64 f"
| "json_visit (S_I64 i) = (if 0 \<le> i then Visit_U64 (word_of_int i) else Visit_I64 i)"
| "json_visit (S_U64 n) = Visit_U64 (word_of_nat n)"
| "json_visit (S_Str s) = Visit_Str s"
| "json_visit (S_Some v) = json_visit v"
| "json_visit (S_Unit_Variant s) = Visit_Str s"
| "json_visit (S_Seq vs) = Visit_Seq (map json_visit vs)"
| "json_visit (S_Map entries) = Visit_Map (map (map_prod json_visit json_visit) entries)"
| "json_visit (S_Struct name members) = Visit_Map (map (\<lambda>(k, v). (Visit_Str k, json_visit v)) members)"
| "json_visit S_Null = Visit_Other"


text \<open>Numbers that are misread. An integer above the largest \<open>i64\<close> wraps to a negative value, and is then
  what a variable is set to; a number of permissions is cut to eight bits, and a format that delivers
  integers as \<open>i64\<close>, as \<open>toml\<close> does, is refused although the visitor announces numbers.\<close>

theorem numbers_misread:
  "value_visit (Visit_U64 18446744073709551615) = Some (V_Int (-1))
   \<and> permissions_visit (Visit_U64 257) = Some P_FSD \<and> permissions_visit (Visit_U64 256) = Some P_READONLY
   \<and> permissions_visit (Visit_I64 i) = None"
  by (simp add: value_from_u64_def permissions_visit_u64_def)

end
