(* ===== verification/Runner.thy ===== *)
theory Runner
  imports Services Serde
begin

text \<open>
  The server's life: \<open>background_service.rs\<close>, the loops of the background services in \<open>sync/\<close>, and
  \<open>start_server\<close> of \<open>main.rs\<close>. A loop is run over a schedule, the list of what its \<open>select!\<close> yields
  turn by turn; a round that the token cuts short has no effect on the state, because the tasks change
  it only after their last await, under the lock. \<open>interval\<close> of tokio panics for a zero period, as its
  documentation says. Signals, the socket and the certificate verifier are arguments; the time a
  service takes to stop is measured in seconds.
\<close>

section \<open>Turns of a loop\<close>

datatype 'i turn = Cancelled | Interrupted 'i | Completed 'i

text \<open>A loop is still running at the end of its schedule, or was stopped, or its task panicked.\<close>

datatype 's outcome = Running 's | Stopped 's | Panicked 's

fun outcome_state :: "'s outcome \<Rightarrow> 's" where
  "outcome_state (Running s) = s"
| "outcome_state (Stopped s) = s"
| "outcome_state (Panicked s) = s"

fun run_loop :: "('i \<Rightarrow> 's \<Rightarrow> 's option) \<Rightarrow> 'i turn list \<Rightarrow> 's \<Rightarrow> 's outcome" where
  "run_loop next [] s = Running s"
| "run_loop next (Cancelled # turns) s = Stopped s"
| "run_loop next (Interrupted i # turns) s = Stopped s"
| "run_loop next (Completed i # turns) s =
     (case next i s of None \<Rightarrow> Panicked s | Some s' \<Rightarrow> run_loop next turns s')"

text \<open>\<open>tokio::time::interval\<close>.\<close>

definition interval :: "nat \<Rightarrow> unit option" where
  "interval period = (if period = 0 then None else Some ())"

section \<open>The device service\<close>

text \<open>The state with the event channel; a turn has the clock and the answers of the daemon. The result
  of a round is only logged.\<close>

definition device_run ::
    "(ups_variables \<Rightarrow> var_name list) \<Rightarrow> (ip_addr \<Rightarrow> 'e + string)
       \<Rightarrow> (device_entry load_result list \<Rightarrow> device_entry load_result list) \<Rightarrow> ('c \<Rightarrow> system_event \<Rightarrow> bool \<times> 'c) \<Rightarrow> string
       \<Rightarrow> upsd_config \<Rightarrow> (time \<times> upsd) turn list \<Rightarrow> daemon_state \<times> 'c \<Rightarrow> (daemon_state \<times> 'c) outcome" where
  "device_run it lookup order emit ns config turns s =
     (case interval (uc_poll_freq config) of
        None \<Rightarrow> Panicked s
      | Some _ \<Rightarrow>
          run_loop (\<lambda>(now, a) (st, c). map_option snd (device_next it lookup order emit ns now a st c)) turns s)"

section \<open>The status service\<close>

text \<open>The timer's instant decides between the polls; the poll itself reads the table, asks and applies.\<close>

definition status_round ::
    "(ip_addr \<Rightarrow> 'e + string) \<Rightarrow> ('c \<Rightarrow> system_event \<Rightarrow> bool \<times> 'c) \<Rightarrow> string
       \<Rightarrow> time \<times> time \<times> upsd \<Rightarrow> ups_poll_interval \<times> daemon_state \<times> 'c \<Rightarrow> (ups_poll_interval \<times> daemon_state \<times> 'c) option" where
  "status_round lookup emit ns = (\<lambda>(instant, now, a) (p, st, c).
     case tick instant p of
       (Full, p') \<Rightarrow> map_option (Pair p') (state_sync lookup emit ns now a st st c)
     | (Partial, p') \<Rightarrow> map_option (Pair p') (status_sync emit ns now a st st c))"

definition status_run ::
    "(ip_addr \<Rightarrow> 'e + string) \<Rightarrow> ('c \<Rightarrow> system_event \<Rightarrow> bool \<times> 'c) \<Rightarrow> string
       \<Rightarrow> upsd_config \<Rightarrow> (time \<times> time \<times> upsd) turn list \<Rightarrow> daemon_state \<times> 'c
       \<Rightarrow> (ups_poll_interval \<times> daemon_state \<times> 'c) outcome" where
  "status_run lookup emit ns config turns s =
     (let poll_freq = uc_poll_freq config;
          poll_interval = effective_interval (uc_poll_interval config) (uc_poll_freq config);
          p = ups_poll_interval_new poll_freq in
      case interval poll_interval of
        None \<Rightarrow> Panicked (p, s)
      | Some _ \<Rightarrow> run_loop (status_round lookup emit ns) turns (p, s))"

section \<open>The description service\<close>

text \<open>What its receiver yields, with the daemons at that moment. The task is awaited in the arm of the
  \<open>select!\<close>, so nothing interrupts it.\<close>

datatype description_turn =
    Recv_Ok "string \<rightharpoonup> daemon_state \<times> upsd" system_event
  | Recv_Lagged nat
  | Recv_Closed
  | Recv_Cancelled

fun description_run ::
    "(ups_variables \<Rightarrow> var_name list) \<Rightarrow> ((string \<times> string) list list \<Rightarrow> (string \<times> string) list list)
       \<Rightarrow> description_turn list \<Rightarrow> (string \<rightharpoonup> string) \<Rightarrow> (string \<rightharpoonup> string) outcome" where
  "description_run it order [] shared = Running shared"
| "description_run it order (Recv_Ok servers event # turns) shared =
     (case description_event it order servers event shared of
        None \<Rightarrow> Panicked shared
      | Some shared' \<Rightarrow> description_run it order turns shared')"
| "description_run it order (Recv_Lagged lagged # turns) shared = description_run it order turns shared"
| "description_run it order (Recv_Closed # turns) shared = Stopped shared"
| "description_run it order (Recv_Cancelled # turns) shared = Stopped shared"

section \<open>The runner\<close>

datatype service =
    Description_Service
  | Broadcast_Service
  | Device_Service string
  | Status_Service string

record background_service_runner =
  br_wait_timeout :: "nat option"
  br_services :: "service list"

definition runner_new :: background_service_runner where
  "runner_new = \<lparr>br_wait_timeout = None, br_services = []\<rparr>"

definition with_max_timeout :: "nat \<Rightarrow> background_service_runner \<Rightarrow> background_service_runner" where
  "with_max_timeout timeout r = r\<lparr>br_wait_timeout := Some timeout\<rparr>"

definition add_service :: "service \<Rightarrow> background_service_runner \<Rightarrow> background_service_runner" where
  "add_service service r = r\<lparr>br_services := br_services r @ [service]\<rparr>"

record runner_handle =
  rh_wait_timeout :: nat
  rh_handles :: "service list"

definition runner_start :: "background_service_runner \<Rightarrow> runner_handle" where
  "runner_start r =
     \<lparr>rh_wait_timeout = (case br_wait_timeout r of Some t \<Rightarrow> t | None \<Rightarrow> 60), rh_handles = br_services r\<rparr>"

text \<open>\<open>stop\<close> with the time every service needs after the token is cancelled, \<open>None\<close> for one that never
  stops: the service that was aborted, if any, and the time that has passed.\<close>

definition in_time :: "nat \<Rightarrow> nat option \<Rightarrow> bool" where
  "in_time wait_timeout t = (case t of None \<Rightarrow> False | Some n \<Rightarrow> n \<le> wait_timeout)"

definition runner_handle_stop :: "runner_handle \<Rightarrow> (service \<Rightarrow> nat option) \<Rightarrow> nat option \<times> nat" where
  "runner_handle_stop h needs =
     (let ts = map needs (rh_handles h); w = rh_wait_timeout h in
      (runner_stop w ts, if list_all (in_time w) ts then foldl max 0 (map the ts) else w))"

section \<open>Certificates\<close>

text \<open>\<open>create_pool\<close> chooses who verifies the daemon's certificate, and \<open>skip_tls_verifier.rs\<close> accepts every one.
  The verifier of the platform is an argument.\<close>

datatype verifier = Platform_Verifier | Skip_Tls_Verifier

fun pool_verifier :: "tls_mode \<Rightarrow> verifier option" where
  "pool_verifier Disable = None"
| "pool_verifier Strict = Some Platform_Verifier"
| "pool_verifier SkipVerify = Some Skip_Tls_Verifier"

definition skip_verify_server_cert :: "'cert \<Rightarrow> string + unit" where
  "skip_verify_server_cert end_entity = Inr ()"

definition skip_verify_signature :: "'message \<Rightarrow> 'cert \<Rightarrow> string + unit" where
  "skip_verify_signature message cert = Inr ()"

fun verify_cert :: "('cert \<Rightarrow> string + unit) \<Rightarrow> verifier \<Rightarrow> 'cert \<Rightarrow> string + unit" where
  "verify_cert platform Platform_Verifier cert = platform cert"
| "verify_cert platform Skip_Tls_Verifier cert = skip_verify_server_cert cert"

section \<open>Start\<close>

record booted =
  bo_servers :: "(string \<times> upsd_state) list"
  bo_user_store :: "user_store option"
  bo_shared_desc :: "string \<rightharpoonup> string"
  bo_listen :: string
  bo_runner :: runner_handle

text \<open>The loop over the configured daemons. The namespaces are the keys of a table, so they are distinct.\<close>

fun create_upsd_servers ::
    "(unit \<Rightarrow> string + unit) \<Rightarrow> (string \<Rightarrow> string + unit) \<Rightarrow> (string \<times> upsd_config) list \<Rightarrow> (string \<times> upsd_state) list
       \<Rightarrow> string + (string \<times> upsd_state) list" where
  "create_upsd_servers platform_verifier server_name [] servers = Inr servers"
| "create_upsd_servers platform_verifier server_name ((name, upsd_cfg) # rest) servers =
     (case create_pool platform_verifier server_name upsd_cfg of
        Inl e \<Rightarrow> Inl e
      | Inr pool \<Rightarrow>
          create_upsd_servers platform_verifier server_name rest
            (AList.update name \<lparr>up_config = upsd_cfg, up_state = daemon_state_new, up_pool = build pool\<rparr> servers))"

definition create_services :: "(string \<times> upsd_state) list \<Rightarrow> background_service_runner" where
  "create_services servers =
     foldl (\<lambda>r (name, _). add_service (Status_Service name) (add_service (Device_Service name) r))
       (add_service Broadcast_Service (add_service Description_Service (with_max_timeout 10 runner_new))) servers"

text \<open>\<open>start_server\<close> up to the moment the HTTP server runs. \<open>None\<close> is a panic of the password hash.\<close>

definition start_server ::
    "(unit \<Rightarrow> string + unit) \<Rightarrow> (string \<Rightarrow> string + unit) \<Rightarrow> (server_config \<Rightarrow> (string + user_store option) option)
       \<Rightarrow> (unit \<Rightarrow> string + unit) \<Rightarrow> (string \<Rightarrow> string + unit) \<Rightarrow> server_config \<Rightarrow> (string + booted) option" where
  "start_server signals bind user_store platform_verifier server_name config =
     (let addr = get_listen_addr (sv_http_server config) in
      case signals () of Inl e \<Rightarrow> Some (Inl e) | Inr _ \<Rightarrow>
      (case bind addr of Inl e \<Rightarrow> Some (Inl e) | Inr _ \<Rightarrow>
      (case user_store config of None \<Rightarrow> None | Some (Inl e) \<Rightarrow> Some (Inl e) | Some (Inr auth_user_store) \<Rightarrow>
      (case create_upsd_servers platform_verifier server_name (sv_upsd config) [] of
         Inl e \<Rightarrow> Some (Inl e)
       | Inr upsd_servers \<Rightarrow>
           Some (Inr \<lparr>bo_servers = upsd_servers, bo_user_store = auth_user_store, bo_shared_desc = Map.empty,
             bo_listen = addr, bo_runner = runner_start (create_services upsd_servers)\<rparr>)))))"

section \<open>Shutdown\<close>

text \<open>Where a service is when the token is cancelled: waiting in its \<open>select!\<close>, at work for some more
  seconds (or forever), or ended, by a panic for instance.\<close>

datatype phase = Waiting | Working "nat option" | Ended

text \<open>The device and status services race their work against the token, serializing a message has no
  await; only the description service finishes its work first.\<close>

fun needs_to_stop :: "service \<Rightarrow> phase \<Rightarrow> nat option" where
  "needs_to_stop Description_Service (Working left) = left"
| "needs_to_stop service phase = Some 0"

text \<open>Who still holds a state after \<open>stop\<close>: services that did not end in time. The one that was aborted
  is dropped by the runtime at some later moment; \<open>dropped\<close> says whether that was soon enough.\<close>

definition lingering :: "bool \<Rightarrow> runner_handle \<Rightarrow> (service \<Rightarrow> nat option) \<Rightarrow> service list" where
  "lingering dropped h needs =
     map (\<lambda>i. rh_handles h ! i)
       (filter (\<lambda>i. \<not> in_time (rh_wait_timeout h) (needs (rh_handles h ! i))
                    \<and> \<not> (dropped \<and> fst (runner_handle_stop h needs) = Some i))
          [0..<length (rh_handles h)])"

text \<open>\<open>Arc::into_inner\<close> succeeds only without another reference: the description service has one to the
  server state, the others one to their daemon, and \<open>elsewhere\<close> says what tasks of open connections
  hold. Without the first no pool is closed.\<close>

definition close_pools ::
    "bool \<Rightarrow> (string \<Rightarrow> bool) \<Rightarrow> service list \<Rightarrow> (string \<times> upsd_state) list \<Rightarrow> (string \<times> upsd_state) list" where
  "close_pools state_elsewhere elsewhere left servers =
     (if state_elsewhere \<or> Description_Service \<in> set left then servers
      else map (\<lambda>(name, up).
             (name, if elsewhere name \<or> Device_Service name \<in> set left \<or> Status_Service name \<in> set left then up
                    else up\<lparr>up_pool := ip_close (up_pool up)\<rparr>)) servers)"

text \<open>The rest of \<open>start_server\<close> after the HTTP server has ended; an error of the server returns at once.\<close>

definition shutdown ::
    "string + unit \<Rightarrow> (service \<Rightarrow> phase) \<Rightarrow> bool \<Rightarrow> bool \<Rightarrow> (string \<Rightarrow> bool) \<Rightarrow> booted
       \<Rightarrow> (string + nat option) \<times> nat \<times> (string \<times> upsd_state) list" where
  "shutdown served phases dropped state_elsewhere elsewhere b =
     (case served of
        Inl e \<Rightarrow> (Inl e, 0, bo_servers b)
      | Inr _ \<Rightarrow>
          let needs = (\<lambda>s. needs_to_stop s (phases s)); (aborted, elapsed) = runner_handle_stop (bo_runner b) needs in
          (Inr aborted, elapsed,
           close_pools state_elsewhere elsewhere (lingering dropped (bo_runner b) needs) (bo_servers b)))"

section \<open>The process\<close>

text \<open>The texts of configuration errors; \<open>debug\<close> is \<open>{:?}\<close> of an \<open>OsString\<close>, and the text of std for an
  address that cannot be parsed is fixed.\<close>

fun env_config_error_fmt :: "(string \<Rightarrow> string) \<Rightarrow> env_config_error \<Rightarrow> string" where
  "env_config_error_fmt debug (EnvIOError inner) = ''env config: '' @ inner"
| "env_config_error_fmt debug (NonUnicodeVar variable) = ''env config: non-unicode variable received, '' @ debug variable"
| "env_config_error_fmt debug InvalidNumericFormat = ''env config: invalid numeric value''"
| "env_config_error_fmt debug InvalidLogLevelFormat = ''env config: invalid log level''"
| "env_config_error_fmt debug InvalidAddrFormat = ''env config: invalid IP address syntax''"
| "env_config_error_fmt debug InvalidUriPath = ''env config: invalid uri path format''"
| "env_config_error_fmt debug InvalidTlsMode = ''env config: invalid tls mode option''"

fun toml_config_error_fmt :: "toml_config_error \<Rightarrow> string" where
  "toml_config_error_fmt (TomlIOError inner) = ''toml config file: '' @ inner"
| "toml_config_error_fmt (TomlParseError inner) = ''toml config file: '' @ inner"
| "toml_config_error_fmt TomlInvalidVersion = ''toml config file: unknown version''"

fun config_error_fmt :: "(string \<Rightarrow> string) \<Rightarrow> config_error \<Rightarrow> string" where
  "config_error_fmt debug (FileError e) = toml_config_error_fmt e"
| "config_error_fmt debug (EnvironmentError e) = env_config_error_fmt debug e"
| "config_error_fmt debug (ArgumentsError e) = e"

text \<open>\<open>nut_webgui\<close>: clap prints its own errors and exits with its code; every other error is returned with
  its text. \<open>run\<close> is \<open>start_server\<close> to its end, and \<open>None\<close> a panic.\<close>

datatype ending = By_Clap string | Returned "string + unit"

definition nut_webgui ::
    "(string \<Rightarrow> string) \<Rightarrow> (level_filter \<Rightarrow> string + unit) \<Rightarrow> (nat option \<Rightarrow> string + unit) \<Rightarrow> (server_config \<Rightarrow> (string + unit) option)
       \<Rightarrow> config_error + server_config \<Rightarrow> ending option" where
  "nut_webgui debug modify runtime run configs =
     (case configs of
        Inl (ArgumentsError e) \<Rightarrow> Some (By_Clap e)
      | Inl e \<Rightarrow> Some (Returned (Inl (config_error_fmt debug e)))
      | Inr config \<Rightarrow>
          (case (if sv_log_level config \<noteq> INFO then modify (sv_log_level config) else Inr ()) of
             Inl e \<Rightarrow> Some (Returned (Inl e))
           | Inr _ \<Rightarrow>
               (case runtime (hc_worker_count (sv_http_server config)) of
                  Inl e \<Rightarrow> Some (Returned (Inl e))
                | Inr _ \<Rightarrow> map_option Returned (run config))))"

text \<open>\<open>main\<close>: the exit code and the line that is logged.\<close>

datatype exit_code = EXIT_SUCCESS | EXIT_FAILURE | EXIT_BY_CLAP

definition main_exit :: "ending \<Rightarrow> exit_code \<times> string option" where
  "main_exit e =
     (case e of
        By_Clap _ \<Rightarrow> (EXIT_BY_CLAP, None)
      | Returned (Inr _) \<Rightarrow> (EXIT_SUCCESS, None)
      | Returned (Inl err) \<Rightarrow> (EXIT_FAILURE, Some err))"

section \<open>Laws of the loops\<close>

lemma run_loop_append:
  "run_loop next (turns @ rest) s =
     (case run_loop next turns s of Running s' \<Rightarrow> run_loop next rest s' | r \<Rightarrow> r)"
  by (induction "next" turns s rule: run_loop.induct) (auto split: option.split)

text \<open>An invariant of the rounds is one of the loop, whatever ends it.\<close>

lemma run_loop_invariant:
  assumes "\<And>i s s'. next i s = Some s' \<Longrightarrow> P s \<Longrightarrow> P s'"
  shows "P s \<Longrightarrow> P (outcome_state (run_loop next turns s))"
  using assms by (induction "next" turns s rule: run_loop.induct) (auto split: option.split)

lemma interval_Some: "interval period = Some x \<longleftrightarrow> 0 < period"
  by (simp add: interval_def)

lemma device_next_total:
  "diff_upsd it lookup order now a st \<noteq> Inl None \<Longrightarrow>
     \<exists>r st' c'. device_next it lookup order emit ns now a st c = Some (r, st', c')"
  by (simp add: device_next_def device_apply_def split: sum.split option.split prod.split)

lemma device_next_daemon_ok:
  "device_next it lookup order emit ns now a st c = Some (r, st', c') \<Longrightarrow> daemon_ok st \<Longrightarrow> daemon_ok st'"
  using daemon_ok_patch daemon_ok_failure
  by (auto simp: device_next_def device_apply_def split: sum.splits option.splits prod.splits) (metis fst_conv)+

lemma device_run_daemon_ok:
  assumes "daemon_ok (fst s)"
  shows "daemon_ok (fst (outcome_state (device_run it lookup order emit ns config turns s)))"
proof -
  have "daemon_ok (fst (outcome_state (run_loop
          (\<lambda>(now, a) (st, c). map_option snd (device_next it lookup order emit ns now a st c)) turns s)))"
    by (rule run_loop_invariant [where P = "\<lambda>s. daemon_ok (fst s)"])
      (auto simp: assms dest: device_next_daemon_ok)
  with assms show ?thesis by (simp add: device_run_def split: option.split)
qed

text \<open>A completed round of a running device service.\<close>

lemma device_run_snoc:
  assumes "device_run it lookup order emit ns config turns s = Running (st, c)"
  shows "device_run it lookup order emit ns config (turns @ [Completed (now, a)]) s =
    (case device_next it lookup order emit ns now a st c of Some (r, s') \<Rightarrow> Running s' | None \<Rightarrow> Panicked (st, c))"
  using assms
  by (auto simp: device_run_def run_loop_append split: option.splits outcome.splits)

section \<open>Laws of the timer\<close>

text \<open>The instants at which the status service makes a full poll.\<close>

fun full_instants :: "ups_poll_interval \<Rightarrow> time list \<Rightarrow> time list" where
  "full_instants p [] = []"
| "full_instants p (t # ts) =
     (case tick t p of (Full, p') \<Rightarrow> t # full_instants p' ts | (Partial, p') \<Rightarrow> full_instants p' ts)"

fun last_full :: "ups_poll_interval \<Rightarrow> time list \<Rightarrow> ups_poll_interval" where
  "last_full p [] = p"
| "last_full p (t # ts) = last_full (snd (tick t p)) ts"

abbreviation synced :: "time \<Rightarrow> nat \<Rightarrow> ups_poll_interval" where
  "synced l F \<equiv> \<lparr>pi_last_full_sync = Some l, pi_full_sync_period = F\<rparr>"

lemma tick_synced:
  "tick t (synced l F) = (if F \<le> t - l then (Full, synced t F) else (Partial, synced l F))"
  by (simp add: tick_def)

lemma tick_new: "tick t (ups_poll_interval_new F) = (Full, synced t F)"
  by (simp add: tick_def ups_poll_interval_new_def)

lemma last_full_synced: "last_full (synced l F) ts = synced (last (l # full_instants (synced l F) ts)) F"
  by (induction ts arbitrary: l) (auto simp: tick_synced)

text \<open>Ticks that come in order and never more than a gap apart, the first one close to the last full poll.\<close>

abbreviation ticks_within :: "nat \<Rightarrow> time list \<Rightarrow> bool" where
  "ticks_within gap \<equiv> successively (\<lambda>s t. s \<le> t \<and> t \<le> s + gap)"

lemma full_instants_synced:
  assumes "0 < F" "l \<le> m" "m < l + F" "ticks_within gap (m # ts)"
  shows "successively (\<lambda>s t. s + F \<le> t \<and> t < s + F + gap) (l # full_instants (synced l F) ts)
    \<and> last (m # ts) < last (l # full_instants (synced l F) ts) + F"
  using assms
proof (induction ts arbitrary: l m)
  case (Cons t ts)
  have t: "m \<le> t" "t \<le> m + gap" "ticks_within gap (t # ts)" using Cons.prems(4) by auto
  show ?case
  proof (cases "F \<le> t - l")
    case True
    then show ?thesis using Cons.IH [of t t] Cons.prems t by (simp add: tick_synced)
  next
    case False
    then show ?thesis using Cons.IH [of l t] Cons.prems t by (simp add: tick_synced)
  qed
qed simp

lemma status_rounds_timer:
  "run_loop (status_round lookup emit ns) (map Completed ts) (p, s) = Running (p', s')
   \<Longrightarrow> p' = last_full p (map fst ts)"
proof (induction ts arbitrary: p s)
  case (Cons i ts)
  obtain instant now a where i: "i = (instant, now, a)" by (cases i)
  obtain st c where s: "s = (st, c)" by (cases s)
  obtain t p1 where t: "tick instant p = (t, p1)" by fastforce
  show ?case using Cons.prems Cons.IH [of p1]
    by (cases t) (auto simp: i s t status_round_def split: option.splits)
qed simp

section \<open>Laws of start and shutdown\<close>

lemma create_upsd_servers_exact:
  assumes "create_upsd_servers pv sn cfgs servers = Inr servers'" "distinct (map fst servers @ map fst cfgs)"
  shows "servers' = servers @ map (\<lambda>(name, cfg). (name, \<lparr>up_config = cfg, up_state = daemon_state_new, up_pool = ip_new (uc_max_conn cfg)\<rparr>)) cfgs"
  using assms
proof (induction pv sn cfgs servers arbitrary: servers' rule: create_upsd_servers.induct)
  case (2 pv sn name cfg rest servers)
  obtain pool where pool: "create_pool pv sn cfg = Inr pool" using "2.prems"(1) by (auto split: sum.splits)
  then have "build pool = ip_new (uc_max_conn cfg)"
    by (auto simp: create_pool_def build_def with_limit_def with_timeout_def with_tls_def bind_res_eq_Inr Let_def
        split: option.splits)
  moreover have "AList.update name v servers = servers @ [(name, v)]" for v
    using "2.prems"(2) by (induction servers) auto
  ultimately show ?case using "2.IH" [OF pool] "2.prems" by (simp add: pool)
qed simp

lemma create_services_exact:
  "br_services (foldl (\<lambda>r (name, _). add_service (Status_Service name) (add_service (Device_Service name) r)) r servers)
     = br_services r @ concat (map (\<lambda>name. [Device_Service name, Status_Service name]) (map fst servers))
   \<and> br_wait_timeout (foldl (\<lambda>r (name, _). add_service (Status_Service name) (add_service (Device_Service name) r)) r servers)
     = br_wait_timeout r"
  by (induction servers arbitrary: r) (auto simp: add_service_def)

definition expected_services :: "string list \<Rightarrow> service list" where
  "expected_services names =
     Description_Service # Broadcast_Service # concat (map (\<lambda>name. [Device_Service name, Status_Service name]) names)"

lemma runner_of_services:
  "runner_start (create_services servers) = \<lparr>rh_wait_timeout = 10, rh_handles = expected_services (map fst servers)\<rparr>"
  using create_services_exact [of _ servers]
  by (simp add: runner_start_def create_services_def expected_services_def runner_new_def with_max_timeout_def add_service_def)

lemma start_server_started:
  assumes "start_server signals bind user_store pv sn config = Some (Inr b)"
  shows "create_upsd_servers pv sn (sv_upsd config) [] = Inr (bo_servers b)"
    and "bo_runner b = \<lparr>rh_wait_timeout = 10, rh_handles = expected_services (map fst (bo_servers b))\<rparr>"
    and "signals () = Inr () \<and> bind (bo_listen b) = Inr () \<and> user_store config = Some (Inr (bo_user_store b))"
    and "bo_shared_desc b = Map.empty \<and> bo_listen b = get_listen_addr (sv_http_server config)"
  using assms by (auto simp: start_server_def Let_def runner_of_services split: sum.splits option.splits)

lemma others_stop_at_once: "needs_to_stop s p = Some 0" if "s \<noteq> Description_Service"
  using that by (cases s; cases p) auto

lemma foldl_max_zero: "\<forall>x\<in>set xs. x = 0 \<Longrightarrow> foldl max n xs = (n::nat)"
  by (induction xs arbitrary: n) auto

text \<open>Only the first service, the one for descriptions, can be late.\<close>

lemma stop_expected:
  assumes h: "h = \<lparr>rh_wait_timeout = w, rh_handles = expected_services names\<rparr>"
    and needs: "needs = (\<lambda>s. needs_to_stop s (phases s))"
  shows "runner_handle_stop h needs =
      (case needs Description_Service of
         Some n \<Rightarrow> if n \<le> w then (None, n) else (Some 0, w)
       | None \<Rightarrow> (Some 0, w))"
    and "lingering dropped h needs =
      (if in_time w (needs Description_Service) \<or> dropped then [] else [Description_Service])"
proof -
  define others where "others = Broadcast_Service # concat (map (\<lambda>name. [Device_Service name, Status_Service name]) names)"
  have hs: "rh_handles h = Description_Service # others" "rh_wait_timeout h = w"
    by (simp_all add: h expected_services_def others_def)
  have zero: "\<forall>s\<in>set others. needs s = Some 0" by (auto simp: needs others_def intro!: others_stop_at_once)
  have ts: "map needs others = map (\<lambda>_. Some 0) others" using zero by (simp only: map_eq_conv)
  have none: "runner_stop w (map (\<lambda>_. Some 0) xs) = None" for xs :: "service list" by (induction xs) auto
  have all: "list_all (in_time w) (map (\<lambda>_. Some 0) xs)" for xs :: "service list" by (induction xs) (auto simp: in_time_def)
  have mx: "foldl max n (map the (map (\<lambda>_. Some 0) xs)) = (n::nat)" for n and xs :: "service list"
    by (rule foldl_max_zero) auto
  show stop: "runner_handle_stop h needs =
      (case needs Description_Service of Some n \<Rightarrow> if n \<le> w then (None, n) else (Some 0, w) | None \<Rightarrow> (Some 0, w))"
    using none [of others] all [of others] mx [of _ others]
    by (simp add: runner_handle_stop_def hs ts in_time_def Let_def del: map_map split: option.split)
  have idx: "filter (\<lambda>i. \<not> in_time w (needs ((Description_Service # others) ! i)) \<and> Q i) [0..<length (Description_Service # others)]
     = (if in_time w (needs Description_Service) \<or> \<not> Q 0 then [] else [0])" for Q
  proof -
    have "in_time w (needs (others ! i))" if "i < length others" for i
      using zero nth_mem [OF that] by (simp add: in_time_def)
    then have "filter (\<lambda>i. \<not> in_time w (needs ((Description_Service # others) ! i)) \<and> Q i) (map Suc [0..<length others]) = []"
      by (auto simp: filter_empty_conv)
    then show ?thesis by (simp add: upt_conv_Cons map_Suc_upt del: upt_Suc)
  qed
  show "lingering dropped h needs = (if in_time w (needs Description_Service) \<or> dropped then [] else [Description_Service])"
    unfolding lingering_def stop hs idx by (auto simp: in_time_def split: option.splits)
qed

section \<open>Properties\<close>

text \<open>C13: The device service never gives up and never lags behind. Whatever happened before, failed
  rounds included, a running service that completes a round goes on running, with a consistent state
  stamped with the time of that round: online exactly when the round could read the daemon, and
  otherwise dead and without devices. Only a panic of the client ends it.\<close>

theorem device_service_tracks:
  assumes "device_run it lookup order emit ns config turns s = Running (st, c)" "daemon_ok (fst s)"
    and "diff_upsd it lookup order now a st \<noteq> Inl None"
  shows "\<exists>st' c'. device_run it lookup order emit ns config (turns @ [Completed (now, a)]) s = Running (st', c')
    \<and> daemon_ok st' \<and> ds_last_device_sync st' = Some now
    \<and> (ds_status st' = Online \<longleftrightarrow> is_ok (diff_upsd it lookup order now a st))
    \<and> (ds_status st' \<noteq> Online \<longrightarrow> ds_status st' = Dead \<and> ds_devices st' = [])"
proof -
  obtain r st' c' where n: "device_next it lookup order emit ns now a st c = Some (r, st', c')"
    using device_next_total [OF assms(3), of emit ns c] by blast
  then have "device_run it lookup order emit ns config (turns @ [Completed (now, a)]) s = Running (st', c')"
    using device_run_snoc [OF assms(1)] by simp
  moreover have "daemon_ok st'"
    using device_run_daemon_ok [OF assms(2), of it lookup order emit ns config turns] assms(1)
    by (auto intro: device_next_daemon_ok [OF n])
  ultimately show ?thesis using n
    by (auto simp: device_next_def device_apply_def apply_patch_def apply_failure_def Let_def
        split: sum.splits option.splits prod.splits if_splits)
qed

lemma device_run_failed_round:
  "device_run (\<lambda>_. []) (\<lambda>ip. Inl ()) rev log_send ''ns'' upsd_default [Completed (1, unreachable)] (daemon_state_new, [])
     = Running (daemon_state_new\<lparr>ds_status := Dead, ds_last_device_sync := Some 1\<rparr>, [DaemonStatusUpdate Dead ''ns''])"
  by (simp add: device_run_def interval_def upsd_default_def device_next_def diff_upsd_def unreachable_def sync_err_def
      device_apply_def apply_failure_def daemon_state_new_def batch_send_def event_batch_new_def set_upsd_status_def send_when_def Let_def)

theorem device_service_tracks_witness:
  "\<exists>st' c'. device_run (\<lambda>_. []) (\<lambda>ip. Inl ()) rev log_send ''ns'' upsd_default
       ([Completed (1, unreachable)] @ [Completed (5, one_device)]) (daemon_state_new, []) = Running (st', c')
     \<and> ds_status st' = Online \<and> ds_last_device_sync st' = Some 5"
proof -
  let ?st = "daemon_state_new\<lparr>ds_status := Dead, ds_last_device_sync := Some 1\<rparr>"
  have d: "diff_upsd (\<lambda>_. []) (\<lambda>ip. Inl ()) rev 5 one_device ?st \<noteq> Inl None"
    "is_ok (diff_upsd (\<lambda>_. []) (\<lambda>ip. Inl ()) rev 5 one_device ?st)"
    by (simp_all add: diff_upsd_def one_device_def sync_err_def daemon_state_new_def load_device_entry_def
        map_load_err_def Let_def deleted_devices_def table_simps)
  have "daemon_ok (fst (daemon_state_new, []::system_event list))" by (simp add: daemon_ok_def daemon_state_new_def table_ok_def)
  from device_service_tracks [OF device_run_failed_round this d(1)] d(2) show ?thesis by blast
qed

text \<open>C24: How stale readings can be. While the timer ticks at most \<open>gap\<close> apart, the status service makes
  its first full poll at its first tick, any two successive full polls are at least the configured
  \<open>poll_freq\<close> and less than \<open>poll_freq + gap\<close> apart, and at every tick the last full poll is younger
  than \<open>poll_freq\<close>.\<close>

theorem full_poll_period:
  assumes "status_run lookup emit ns config (map Completed turns) s = Running (p, s')" "turns \<noteq> []"
    and "ticks_within gap (map fst turns)"
  shows "let fulls = full_instants (ups_poll_interval_new (uc_poll_freq config)) (map fst turns) in
    fulls \<noteq> [] \<and> hd fulls = fst (hd turns)
    \<and> successively (\<lambda>s t. s + uc_poll_freq config \<le> t \<and> t < s + uc_poll_freq config + gap) fulls
    \<and> pi_last_full_sync p = Some (last fulls) \<and> fst (last turns) < last fulls + uc_poll_freq config"
proof -
  let ?F = "uc_poll_freq config"
  obtain i more_turns where turns: "turns = i # more_turns" using assms(2) by (cases turns) auto
  have F: "0 < ?F" and r: "run_loop (status_round lookup emit ns) (map Completed turns) (ups_poll_interval_new ?F, s) = Running (p, s')"
    using assms(1) by (auto simp: status_run_def Let_def interval_def effective_interval_def split: if_splits option.splits)
  have "p = last_full (synced (fst i) ?F) (map fst more_turns)"
    using status_rounds_timer [OF r] by (simp add: turns tick_new)
  moreover have "fst (last turns) = last (fst i # map fst more_turns)" by (simp add: turns last_map)
  ultimately show ?thesis
    using full_instants_synced [OF F order_refl, of "fst i" gap "map fst more_turns"] F assms(3)
    by (simp add: Let_def turns tick_new last_full_synced)
qed

theorem full_poll_period_witness:
  "full_instants (ups_poll_interval_new 30) [0, 12, 24, 36, 48, 60, 72] = [0, 36, 72]
   \<and> (\<exists>p s'. status_run (\<lambda>ip. Inl ()) log_send ''ns'' upsd_default (map Completed [(0, 0, unreachable), (20, 20, unreachable), (40, 40, unreachable)])
        (daemon_state_new, []) = Running (p, s') \<and> pi_last_full_sync p = Some 40)"
proof -
  let ?turns = "[(0, 0, unreachable), (20, 20, unreachable), (40, 40, unreachable)]"
  obtain p s' where r: "status_run (\<lambda>ip. Inl ()) log_send ''ns'' upsd_default (map Completed ?turns) (daemon_state_new, []) = Running (p, s')"
    by (simp add: status_run_def upsd_default_def effective_interval_def interval_def status_round_def tick_def
        ups_poll_interval_new_def state_sync_def status_sync_def snapshot_active_device_names_def daemon_state_new_def)
  show ?thesis
    using full_poll_period [OF r, of 20] r
    by (auto simp: tick_def ups_poll_interval_new_def upsd_default_def Let_def)
qed

text \<open>C33: What is started. The server starts only when the signal handlers, the socket, the user store and
  every pool could be made; then there is exactly one fresh daemon state per configured daemon, with an
  empty pool of the configured size, and the services are the two global ones and one device and one
  status service per daemon, each once, with ten seconds to stop.\<close>

theorem start_server_exact:
  assumes "start_server signals bind user_store pv sn config = Some (Inr b)" "distinct (map fst (sv_upsd config))"
  shows "signals () = Inr () \<and> bind (get_listen_addr (sv_http_server config)) = Inr ()
    \<and> user_store config = Some (Inr (bo_user_store b))
    \<and> bo_servers b = map (\<lambda>(name, cfg). (name, \<lparr>up_config = cfg, up_state = daemon_state_new, up_pool = ip_new (uc_max_conn cfg)\<rparr>)) (sv_upsd config)
    \<and> rh_wait_timeout (bo_runner b) = 10
    \<and> rh_handles (bo_runner b) = expected_services (map fst (sv_upsd config))
    \<and> distinct (rh_handles (bo_runner b))"
proof -
  note started = start_server_started [OF assms(1)]
  have servers: "bo_servers b = map (\<lambda>(name, cfg). (name, \<lparr>up_config = cfg, up_state = daemon_state_new, up_pool = ip_new (uc_max_conn cfg)\<rparr>)) (sv_upsd config)"
    using create_upsd_servers_exact [OF started(1)] assms(2) by simp
  then have names: "map fst (bo_servers b) = map fst (sv_upsd config)" by (simp add: case_prod_unfold comp_def)
  have "distinct (expected_services names)" if "distinct names" for names
    using that by (induction names) (auto simp: expected_services_def)
  moreover have handles: "rh_handles (bo_runner b) = expected_services (map fst (sv_upsd config))"
    by (simp only: started(2) names runner_handle.select_convs)
  ultimately have "distinct (rh_handles (bo_runner b))" using assms(2) by metis
  then show ?thesis using started(2-4) servers handles by simp
qed

definition demo_start :: "server_config \<Rightarrow> (string + booted) option" where
  "demo_start = start_server (\<lambda>_. Inr ()) (\<lambda>_. Inr ()) (\<lambda>_. Some (Inr None)) (\<lambda>_. Inr ()) (\<lambda>_. Inr ())"

definition demo_config :: server_config where
  "demo_config = (server_default [7])\<lparr>sv_upsd := [(''a'', upsd_default), (''b'', upsd_default)]\<rparr>"

lemma demo_starts: "\<exists>b. demo_start demo_config = Some (Inr b)"
  by (simp add: demo_start_def start_server_def demo_config_def create_pool_def upsd_default_def bind_res_def)

theorem start_server_exact_witness:
  "\<exists>b. demo_start demo_config = Some (Inr b)
     \<and> rh_handles (bo_runner b) = [Description_Service, Broadcast_Service, Device_Service ''a'', Status_Service ''a'',
         Device_Service ''b'', Status_Service ''b'']"
proof -
  obtain b where b: "demo_start demo_config = Some (Inr b)" using demo_starts by blast
  from start_server_exact [OF b [unfolded demo_start_def]] b show ?thesis
    by (simp add: demo_config_def expected_services_def)
qed



text \<open>Certificates go unchecked only where the configuration says so. A pool is made for TLS exactly when its
  mode has a verifier; a certificate the platform refuses is accepted only in the mode that skips the
  verification, and no mode is that one by default.\<close>

theorem unverified_only_on_skip:
  assumes "create_pool platform_verifier server_name u = Inr b"
  shows "ca_tls (pb_allocator b) = (pool_verifier (uc_tls_mode u) \<noteq> None)
    \<and> (\<forall>v platform cert. pool_verifier (uc_tls_mode u) = Some v \<and> verify_cert platform v cert = Inr () \<and> platform cert \<noteq> Inr ()
         \<longrightarrow> uc_tls_mode u = SkipVerify)
    \<and> uc_tls_mode upsd_default \<noteq> SkipVerify"
  using assms
  by (cases "uc_tls_mode u")
    (auto simp: create_pool_def bind_res_eq_Inr with_limit_def with_timeout_def with_tls_def builder_new_def upsd_default_def Let_def)

text \<open>A period of zero is accepted by the configuration and kills the services of the daemon: tokio's
  timer panics for it, before the first round.\<close>

definition zero_toml :: "string \<Rightarrow> string + toml_root" where
  "zero_toml _ = Inr \<lparr>tr_version = Some (TomlString ''1''), tr_args = Inr (toml_args_default\<lparr>
     ta_upsd := Some [(''rack'', \<lparr>se_address = Some ''10.0.0.2'', se_password = None, se_poll_freq = Some 0, se_poll_interval = None,
       se_port = None, se_username = None, se_max_connection = None, se_tls_mode = None\<rparr>)]\<rparr>)\<rparr>"

lemma zero_loads:
  "\<exists>c u. load_configs (\<lambda>_. None) zero_toml demo_os [7] (Inr demo_cli) = Inr c
     \<and> map_of (sv_upsd c) ''rack'' = Some u \<and> uc_poll_freq u = 0"
proof -
  obtain c where c: "load_configs (\<lambda>_. None) zero_toml demo_os [7] (Inr demo_cli) = Inr c"
    by (simp add: load_configs_def zero_toml_def demo_cli_def demo_os_def toml_load_def)
  then obtain env toml where l: "loaded (\<lambda>_. None) zero_toml demo_os demo_cli env toml"
    and layers: "c = fallback_apply_layer (cli_apply_layer demo_cli (env_apply_layer env (toml_apply_layer toml (server_default [7]))))"
    by (rule load_configs_loaded)
  have "map_of (sv_upsd (env_apply_layer env (toml_apply_layer toml (server_default [7])))) = env_daemons env (toml_daemons toml)"
    using env_daemons_applied toml_daemons_applied by simp
  moreover have "\<exists>u. env_daemons env (toml_daemons toml) ''rack'' = Some u \<and> uc_poll_freq u = 0"
    using l by (auto simp: loaded_def zero_toml_def demo_cli_def demo_os_def toml_load_def toml_args_default_def env_args_default_def
        env_daemons_def toml_daemons_def env_key_def DEFAULT_UPSD_KEY_def section_config_def override_inner_def Let_def)
  ultimately obtain u where u: "uc_poll_freq u = 0"
      "map_of (sv_upsd (env_apply_layer env (toml_apply_layer toml (server_default [7])))) ''rack'' = Some u"
    by auto
  then have "sv_upsd (env_apply_layer env (toml_apply_layer toml (server_default [7]))) \<noteq> []" by auto
  with u have "\<exists>u. map_of (sv_upsd c) ''rack'' = Some u \<and> uc_poll_freq u = 0"
    unfolding layers fallback_apply_layer_def by (auto simp: cli_apply_layer_def Let_def split: option.splits)
  with c show ?thesis by blast
qed

theorem zero_period_panics:
  "(uc_poll_freq config = 0 \<longrightarrow> device_run it lookup order emit ns config turns s = Panicked s)
   \<and> (uc_poll_freq config = 0 \<or> uc_poll_interval config = 0 \<longrightarrow>
        status_run lookup' emit ns config turns' s = Panicked (ups_poll_interval_new (uc_poll_freq config), s))
   \<and> (\<exists>c u. load_configs (\<lambda>_. None) zero_toml demo_os [7] (Inr demo_cli) = Inr c
        \<and> map_of (sv_upsd c) ''rack'' = Some u \<and> uc_poll_freq u = 0)"
  using zero_loads by (simp add: device_run_def status_run_def interval_def effective_interval_def Let_def)

end
