(* ===== verification/System_Run.thy ===== *)
theory System_Run
  imports Event_Log Routes Runner
begin

text \<open>
  The running server: everything \<open>main.rs\<close> starts, at work together. Its state is that of the HTTP server with
  the table of daemons, the rounds and polls that the background services of every daemon have under way,
  and the events that were broadcast. A step is a step of one daemon's services, a request to any
  endpoint, or the use of connections by a service, which takes clients from the pool of its daemon and gives them back.
  Requests only read the daemons, each under the lock, so a request is one step; what they do to a pool and
  to the outside is theirs alone.
\<close>

section \<open>Requests leave the daemons alone\<close>

text \<open>What the services own of a daemon, and its configuration.\<close>

definition daemons :: "'w server \<Rightarrow> (string \<times> upsd_config \<times> daemon_state) list" where
  "daemons s = map (\<lambda>(ns, up). (ns, up_config up, up_state up)) (sr_servers s)"

lemma update_same:
  "map_of xs k = Some v \<Longrightarrow> f v' = f v \<Longrightarrow> map (\<lambda>(k, v). (k, f v)) (AList.update k v' xs) = map (\<lambda>(k, v). (k, f v)) xs"
  by (induction xs) auto

lemma take_client_daemons:
  assumes "map_of (sr_servers s) ns = Some upsd" "take_client init ns upsd s = Some (r, s')"
  shows "daemons s' = daemons s"
  using assms update_same [of "sr_servers s" ns upsd "\<lambda>up. (up_config up, up_state up)"]
  by (auto simp: take_client_def daemons_def)

lemma drop_client_daemons [simp]: "daemons (drop_client c s) = daemons s"
  by (simp add: drop_client_def daemons_def)

lemma json_operation_daemons:
  assumes "map_of (sr_servers s) ns = Some upsd" "json_operation init ns upsd op s = (a, s')"
  shows "daemons s' = daemons s"
  using assms(2) take_client_daemons [OF assms(1), of init]
  by (auto simp: json_operation_def request_auth_client_def split: prod.splits option.splits sum.splits fault.splits)

lemma web_operation_daemons:
  assumes "map_of (sr_servers s) ns = Some upsd" "web_operation init ns upsd ro shown failed op s = (a, s')"
  shows "daemons s' = daemons s"
  using assms(2) take_client_daemons [OF assms(1), of init]
  by (auto simp: web_operation_def split: prod.splits option.splits sum.splits fault.splits)

lemma extract_upsd_Inr: "extract_upsd s ns = Inr upsd \<longleftrightarrow> map_of (sr_servers s) ns = Some upsd"
  by (simp add: extract_upsd_def split: option.split)

text \<open>A handler that keeps the daemons.\<close>

definition keeps_daemons :: "'w server handler \<Rightarrow> bool" where
  "keeps_daemons h \<longleftrightarrow> (\<forall>req s. daemons (snd (h req s)) = daemons s)"

lemma keeps_daemonsD: "keeps_daemons h \<Longrightarrow> h req s = (a, s') \<Longrightarrow> daemons s' = daemons s"
  unfolding keeps_daemons_def by (metis snd_conv)

lemma write_handlers_keep:
  "keeps_daemons (json_rw_patch init paths body)" "keeps_daemons (json_instcmd_post init paths cmd)"
  "keeps_daemons (json_fsd_post init paths)" "keeps_daemons (web_rw_patch init base ns ups name text)"
  "keeps_daemons (web_instcmd_post init base ns ups c)" "keeps_daemons (web_fsd_post init base ns ups)"
proof -
  have json: "daemons (snd (json_operation init ns upsd op s)) = daemons s" if "map_of (sr_servers s) ns = Some upsd" for ns upsd op s
    using json_operation_daemons [OF that] by (metis prod.collapse)
  have web: "daemons (snd (web_operation init ns upsd ro shown failed op s)) = daemons s"
    if "map_of (sr_servers s) ns = Some upsd" for ns upsd ro shown failed op s
    using web_operation_daemons [OF that] by (metis prod.collapse)
  show "keeps_daemons (json_rw_patch init paths body)" "keeps_daemons (json_instcmd_post init paths cmd)"
    "keeps_daemons (json_fsd_post init paths)"
    by (auto simp: keeps_daemons_def json_rw_patch_def json_instcmd_post_def json_fsd_post_def respond_def json extract_upsd_Inr
        split: sum.splits)
  show "keeps_daemons (web_rw_patch init base ns ups name text)"
    "keeps_daemons (web_instcmd_post init base ns ups c)" "keeps_daemons (web_fsd_post init base ns ups)"
    by (auto simp: keeps_daemons_def web_rw_patch_def web_instcmd_post_def web_fsd_post_def respond_def web
        split: option.splits validation_result.splits)
qed

lemma content_length_keeps: "keeps_daemons h \<Longrightarrow> keeps_daemons (validate_empty_content_length h)"
  by (auto simp: keeps_daemons_def validate_empty_content_length_def respond_def split: option.splits)

lemma serve_daemons:
  assumes "serve site e req s = (a, s')"
  shows "daemons s' = daemons s"
proof (cases "required e")
  case None
  then show ?thesis using effect_only_privileged [OF assms] by simp
next
  case (Some p)
  have data: "daemons s' = daemons s"
    if "data_layers (si_env site) (si_store site) (Inr (Some ns)) q h (arriving req) s = (a, s')" "keeps_daemons h" for q ns h
    using that by (cases rule: data_layers_passed) (auto dest: keeps_daemonsD)
  have web: "daemons s' = daemons s"
    if "web_layers (si_env site) (si_base site) (si_store site) q h (arriving req) s = (a, s')" "keeps_daemons h" for q h
    using that by (cases rule: web_layers_passed) (auto dest: keeps_daemonsD)
  show ?thesis
    using assms Some
    by (cases e) (auto simp: serve_def write_routes intro: data web write_handlers_keep content_length_keeps)
qed

section \<open>The server at work\<close>

record 'w running =
  rn_server :: "'w server"
  rn_rounds :: "string \<Rightarrow> (time \<times> upsd \<times> daemon_state) option"
  rn_polls :: "string \<Rightarrow> (ups_poll_type \<times> daemon_state) option"
  rn_events :: "system_event list"

definition running_new :: "(string \<times> upsd_state) list \<Rightarrow> 'w \<Rightarrow> 'w running" where
  "running_new servers w =
     \<lparr>rn_server = \<lparr>sr_servers = servers, sr_world = w, sr_used = []\<rparr>, rn_rounds = (\<lambda>_. None), rn_polls = (\<lambda>_. None), rn_events = []\<rparr>"

definition services_of :: "string \<Rightarrow> upsd_state \<Rightarrow> 'w running \<Rightarrow> services" where
  "services_of ns up r =
     \<lparr>sv_state = up_state up, sv_round = rn_rounds r ns, sv_poll = rn_polls r ns, sv_events = rn_events r\<rparr>"

definition put_daemon :: "string \<Rightarrow> upsd_state \<Rightarrow> 'w server \<Rightarrow> 'w server" where
  "put_daemon ns up s = s\<lparr>sr_servers := AList.update ns up (sr_servers s)\<rparr>"

definition with_services :: "string \<Rightarrow> upsd_state \<Rightarrow> services \<Rightarrow> 'w running \<Rightarrow> 'w running" where
  "with_services ns up v r =
     r\<lparr>rn_server := put_daemon ns (up\<lparr>up_state := sv_state v\<rparr>) (rn_server r),
       rn_rounds := (rn_rounds r)(ns := sv_round v), rn_polls := (rn_polls r)(ns := sv_poll v), rn_events := sv_events v\<rparr>"

inductive server_step ::
    "'w site \<Rightarrow> (ups_variables \<Rightarrow> var_name list) \<Rightarrow> (ip_addr \<Rightarrow> unit + string)
       \<Rightarrow> (device_entry load_result list \<Rightarrow> device_entry load_result list) \<Rightarrow> 'w running \<Rightarrow> 'w running \<Rightarrow> bool"
  for site it lookup order where
  service: "map_of (sr_servers (rn_server r)) ns = Some up \<Longrightarrow>
     service_step it lookup order ns (services_of ns up r) v \<Longrightarrow>
     server_step site it lookup order r (with_services ns up v r)"
| request: "serve site e req (rn_server r) = (a, s') \<Longrightarrow>
     server_step site it lookup order r (r\<lparr>rn_server := s'\<rparr>)"
| connections: "map_of (sr_servers (rn_server r)) ns = Some up \<Longrightarrow>
     server_step site it lookup order r
       (r\<lparr>rn_server := put_daemon ns (up\<lparr>up_pool := pool\<rparr>) ((rn_server r)\<lparr>sr_world := w\<rparr>)\<rparr>)"

text \<open>The daemons as the services and the requests see them.\<close>

definition daemon_at :: "'w running \<Rightarrow> string \<Rightarrow> (upsd_config \<times> daemon_state) option" where
  "daemon_at r = map_of (daemons (rn_server r))"

lemma daemon_at_servers:
  "daemon_at r ns = map_option (\<lambda>up. (up_config up, up_state up)) (map_of (sr_servers (rn_server r)) ns)"
  by (simp add: daemon_at_def daemons_def map_of_map)

lemma daemon_at_request: "serve site e req (rn_server r) = (a, s') \<Longrightarrow> daemon_at (r\<lparr>rn_server := s'\<rparr>) = daemon_at r"
  by (drule serve_daemons) (simp add: daemon_at_def)

lemma daemon_at_put:
  assumes "map_of (sr_servers s) ns = Some up"
  shows "daemon_at (r\<lparr>rn_server := put_daemon ns up' s\<rparr>) n = (if n = ns then Some (up_config up', up_state up') else daemon_at (r\<lparr>rn_server := s\<rparr>) n)"
  by (simp add: daemon_at_servers put_daemon_def update_conv)

definition server_view :: "string \<Rightarrow> 'w running \<Rightarrow> known" where
  "server_view ns r = (case daemon_at r ns of Some (_, st) \<Rightarrow> knowledge st | None \<Rightarrow> nothing_known)"

text \<open>The invariant: the services of every daemon are in a consistent state, and the configuration stays.\<close>

definition daemon_fine :: "daemon_state \<Rightarrow> (time \<times> upsd \<times> daemon_state) option \<Rightarrow> bool" where
  "daemon_fine st pending \<longleftrightarrow> services_ok \<lparr>sv_state = st, sv_round = pending, sv_poll = None, sv_events = []\<rparr>"

lemma services_ok_fine: "services_ok s \<longleftrightarrow> daemon_fine (sv_state s) (sv_round s)"
  by (simp add: services_ok_def daemon_fine_def split: option.split)

definition server_ok :: "(string \<rightharpoonup> upsd_config) \<Rightarrow> 'w running \<Rightarrow> bool" where
  "server_ok configs r \<longleftrightarrow>
     (\<forall>ns. map_option fst (daemon_at r ns) = configs ns)
     \<and> (\<forall>ns cfg st. daemon_at r ns = Some (cfg, st) \<longrightarrow> daemon_fine st (rn_rounds r ns))"

text \<open>The three kinds of steps, seen from a daemon: nothing of it changes, or its services make a step.\<close>

lemma server_step_cases:
  assumes "server_step site it lookup order r r'"
  obtains (quiet) "daemon_at r' = daemon_at r" "rn_rounds r' = rn_rounds r" "rn_events r' = rn_events r"
  | (served) ns cfg s v where "daemon_at r ns = Some (cfg, sv_state s)" "sv_round s = rn_rounds r ns" "sv_events s = rn_events r"
      "service_step it lookup order ns s v"
      "daemon_at r' = (daemon_at r)(ns \<mapsto> (cfg, sv_state v))" "rn_rounds r' = (rn_rounds r)(ns := sv_round v)" "rn_events r' = sv_events v"
  using assms
proof cases
  case (service ns up v)
  have "daemon_at r' = (daemon_at r)(ns \<mapsto> (up_config up, sv_state v))"
    using service(2) by (auto simp: service(1) with_services_def daemon_at_servers put_daemon_def update_conv fun_eq_iff)
  moreover have "daemon_at r ns = Some (up_config up, up_state up)" using service(2) by (simp add: daemon_at_servers)
  ultimately show ?thesis
    using service(3) by (intro that(2) [of ns "up_config up" "services_of ns up r" v]) (auto simp: services_of_def service(1) with_services_def)
next
  case (request e req a s')
  then show ?thesis by (intro that(1)) (simp_all add: daemon_at_request)
next
  case (connections ns up pool w)
  have "daemon_at r' = daemon_at r"
    using connections(2) by (auto simp: connections(1) daemon_at_servers put_daemon_def update_conv fun_eq_iff)
  then show ?thesis by (intro that(1)) (simp_all add: connections(1))
qed

lemma server_step_ok:
  assumes "server_step site it lookup order r r'" and "server_ok configs r"
  shows "server_ok configs r'"
  using assms(1)
proof (cases rule: server_step_cases)
  case quiet
  then show ?thesis using assms(2) by (simp add: server_ok_def)
next
  case (served ns cfg s v)
  then have "services_ok v"
    using services_ok_step [of it lookup order ns s v] assms(2) by (auto simp: services_ok_fine server_ok_def)
  moreover have "configs ns = Some cfg" using assms(2) served(1) by (metis server_ok_def option.map(2) fst_conv)
  ultimately show ?thesis
    using assms(2) served by (auto simp: server_ok_def services_ok_fine)
qed

lemma server_step_tells:
  assumes "server_step site it lookup order r r'" and "server_ok configs r"
  shows "\<exists>evs. rn_events r' = rn_events r @ evs \<and> tells ns evs (server_view ns r) (server_view ns r')"
  using assms(1)
proof (cases rule: server_step_cases)
  case quiet
  then show ?thesis by (intro exI [of _ "[]"]) (simp add: server_view_def)
next
  case (served n cfg s v)
  then have "services_ok s" using assms(2) by (simp add: services_ok_fine server_ok_def)
  with served(4) obtain evs where evs: "reported n s v evs" using service_step_reported by blast
  show ?thesis
  proof (cases "n = ns")
    case True
    then show ?thesis using evs served by (intro exI [of _ evs]) (auto simp: reported_def server_view_def)
  next
    case False
    then have "tells ns evs k k" for k using evs by (intro tells_other) (auto simp: reported_def)
    then show ?thesis using evs served False by (intro exI [of _ evs]) (auto simp: reported_def server_view_def)
  qed
qed

text \<open>A server starts with fresh daemons.\<close>

definition fresh_servers :: "(string \<times> upsd_config) list \<Rightarrow> (string \<times> upsd_state) list" where
  "fresh_servers = map (\<lambda>(name, cfg). (name, \<lparr>up_config = cfg, up_state = daemon_state_new, up_pool = ip_new (uc_max_conn cfg)\<rparr>))"

lemma daemon_at_new: "daemon_at (running_new (fresh_servers cfgs) w) ns = map_option (\<lambda>cfg. (cfg, daemon_state_new)) (map_of cfgs ns)"
  by (simp add: daemon_at_servers running_new_def fresh_servers_def map_of_map) (cases "map_of cfgs ns"; simp)

interpretation server_log: faithful_log "server_step site it lookup order" "running_new (fresh_servers cfgs) w"
  "server_ok (map_of cfgs)" rn_events "server_view ns" ns for site it lookup order cfgs w ns
proof unfold_locales
  have "services_ok services_new" by (rule reachable_ok) simp
  moreover have "rn_rounds (running_new (fresh_servers cfgs) w) = (\<lambda>_. None)" by (simp add: running_new_def)
  ultimately show "server_ok (map_of cfgs) (running_new (fresh_servers cfgs) w)"
    by (auto simp: server_ok_def daemon_at_new option.map_comp comp_def services_ok_fine services_new_def option.map_ident)
  show "rn_events (running_new (fresh_servers cfgs) w) = []" by (simp add: running_new_def)
  show "server_view ns (running_new (fresh_servers cfgs) w) = nothing_known"
    by (simp add: server_view_def daemon_at_new knowledge_def nothing_known_def names_of_def daemon_state_new_def split: option.split)
qed (rule server_step_ok server_step_tells; assumption)+

section \<open>From start to any later moment\<close>

lemma started_fresh:
  assumes "start_server signals bind user_store pv sn config = Some (Inr b)" "distinct (map fst (sv_upsd config))"
  shows "bo_servers b = fresh_servers (sv_upsd config)"
  using create_upsd_servers_exact [OF start_server_started(1) [OF assms(1)]] assms(2) by (simp add: fresh_servers_def)

lemma tells_unique: "tells ns es k k1 \<Longrightarrow> tells ns es k k2 \<Longrightarrow> k1 = k2"
  by (induction ns es k k1 rule: tells.induct) (simp_all split: if_splits)

lemma daemon_fine_ok: "daemon_fine st pending \<Longrightarrow> daemon_ok st"
  by (simp add: daemon_fine_def services_ok_def)

lemma server_ok_daemon: "server_ok configs r \<Longrightarrow> map_of (sr_servers (rn_server r)) ns = Some up \<Longrightarrow> daemon_ok (up_state up)"
  unfolding server_ok_def by (metis daemon_at_servers daemon_fine_ok option.map(2))

lemma running_facts:
  assumes "start_server signals bind user_store pv sn config = Some (Inr b)" "distinct (map fst (sv_upsd config))"
    and "(server_step site it lookup order)\<^sup>*\<^sup>* (running_new (bo_servers b) w) r"
  shows "server_ok (map_of (sv_upsd config)) r" and "tells ns (rn_events r) nothing_known (server_view ns r)"
  using server_log.reachable_tells [OF assms(3) [unfolded started_fresh [OF assms(1,2)]]] by auto

section \<open>Properties\<close>



section \<open>The loops of the services\<close>

text \<open>Between two turns a daemon's services have nothing under way.\<close>

definition idle :: "daemon_state \<times> system_event list \<Rightarrow> services" where
  "idle s = \<lparr>sv_state = fst s, sv_round = None, sv_poll = None, sv_events = snd s\<rparr>"

lemma device_round_steps:
  assumes "device_next it lookup order log_send ns now a st evs = Some (r, st', evs')"
  shows "(service_step it lookup order ns)\<^sup>*\<^sup>* (idle (st, evs)) (idle (st', evs'))"
proof -
  let ?s = "(idle (st, evs))\<lparr>sv_round := Some (now, a, st)\<rparr>"
  have "service_step it lookup order ns (idle (st, evs)) ?s"
    using round_begin [of "idle (st, evs)"] by (simp add: idle_def)
  moreover have "service_step it lookup order ns ?s (?s\<lparr>sv_round := None, sv_state := st', sv_events := evs'\<rparr>)"
    using assms by (intro round_apply [where now = now and a = a and r = r]) (simp_all add: idle_def device_next_def)
  ultimately show ?thesis by (simp add: idle_def)
qed

lemma poll_steps:
  "state_sync lookup log_send ns now a st st evs = Some (st', evs') \<Longrightarrow> (service_step it lookup order ns)\<^sup>*\<^sup>* (idle (st, evs)) (idle (st', evs'))"
  "status_sync log_send ns now a st st evs = Some (st', evs') \<Longrightarrow> (service_step it lookup order ns)\<^sup>*\<^sup>* (idle (st, evs)) (idle (st', evs'))"
proof -
  let ?s = "\<lambda>t. (idle (st, evs))\<lparr>sv_poll := Some (t, st)\<rparr>"
  have start: "service_step it lookup order ns (idle (st, evs)) (?s t)" for t
    using poll_begin [of "idle (st, evs)"] by (simp add: idle_def)
  show "(service_step it lookup order ns)\<^sup>*\<^sup>* (idle (st, evs)) (idle (st', evs'))"
    if "state_sync lookup log_send ns now a st st evs = Some (st', evs')"
  proof -
    have "service_step it lookup order ns (?s Full) ((?s Full)\<lparr>sv_poll := None, sv_state := st', sv_events := evs'\<rparr>)"
      using that by (intro poll_full) (simp_all add: idle_def)
    then show ?thesis using start [of Full] by (simp add: idle_def)
  qed
  show "(service_step it lookup order ns)\<^sup>*\<^sup>* (idle (st, evs)) (idle (st', evs'))"
    if "status_sync log_send ns now a st st evs = Some (st', evs')"
  proof -
    have "service_step it lookup order ns (?s Partial) ((?s Partial)\<lparr>sv_poll := None, sv_state := st', sv_events := evs'\<rparr>)"
      using that by (intro poll_partial) (simp_all add: idle_def)
    then show ?thesis using start [of Partial] by (simp add: idle_def)
  qed
qed

text \<open>One round of a loop refines steps, hence the whole loop does.\<close>

lemma run_loop_refines:
  assumes "\<And>i s s'. next i s = Some s' \<Longrightarrow> R\<^sup>*\<^sup>* (f s) (f s')"
  shows "R\<^sup>*\<^sup>* (f s) (f (outcome_state (run_loop next turns s)))"
  using run_loop_invariant [of "next" "\<lambda>s'. R\<^sup>*\<^sup>* (f s) (f s')"] assms by (meson rtranclp.rtrancl_refl rtranclp_trans)


section \<open>A run\<close>

text \<open>A server with two daemons; the device service of the first finishes a round.\<close>

definition open_site :: "unit site" where
  "open_site = demo_site\<lparr>si_pages := (si_pages demo_site)\<lparr>pe_users := None\<rparr>\<rparr>"

definition first_round :: "daemon_state \<times> system_event list" where
  "first_round = (case device_apply log_send ''a'' 5 (diff_upsd (\<lambda>_. []) (\<lambda>_. Inl ()) rev 5 one_device daemon_state_new) daemon_state_new [] of
     Some (_, st, evs) \<Rightarrow> (st, evs) | None \<Rightarrow> (daemon_state_new, []))"

lemma first_round:
  "device_apply log_send ''a'' 5 (diff_upsd (\<lambda>_. []) (\<lambda>_. Inl () :: unit + string) rev 5 one_device daemon_state_new) daemon_state_new []
     = Some (Inr (), first_round)"
  "snd first_round = [DeviceAddition [UpsName ''a''] ''a'', DaemonStatusUpdate Online ''a'']"
  by (simp_all add: first_round_def diff_upsd_def one_device_def sync_err_def daemon_state_new_def load_device_entry_def
      map_load_err_def Let_def device_apply_def apply_patch_def deleted_devices_def table_simps log_batch batch_events_def batch_ops)

definition first_up :: upsd_state where
  "first_up = \<lparr>up_config = upsd_default, up_state = daemon_state_new, up_pool = ip_new (uc_max_conn upsd_default)\<rparr>"

definition demo_running :: "unit running" where
  "demo_running = (running_new (fresh_servers (sv_upsd demo_config)) ())
     \<lparr>rn_server := put_daemon ''a'' (first_up\<lparr>up_state := fst first_round\<rparr>)
        (rn_server (running_new (fresh_servers (sv_upsd demo_config)) ())), rn_events := snd first_round\<rparr>"

lemma demo_running_reached:
  "(server_step open_site (\<lambda>_. []) (\<lambda>_. Inl ()) rev)\<^sup>*\<^sup>* (running_new (fresh_servers (sv_upsd demo_config)) ()) demo_running"
proof -
  let ?r0 = "running_new (fresh_servers (sv_upsd demo_config)) () :: unit running"
  let ?s0 = "services_of ''a'' first_up ?r0"
  let ?v1 = "?s0\<lparr>sv_round := Some (5, one_device, sv_state ?s0)\<rparr>"
  let ?r1 = "with_services ''a'' first_up ?v1 ?r0"
  have up0: "map_of (sr_servers (rn_server ?r0)) ''a'' = Some first_up"
    by (simp add: running_new_def fresh_servers_def demo_config_def first_up_def)
  have 1: "server_step open_site (\<lambda>_. []) (\<lambda>_. Inl ()) rev ?r0 ?r1"
    using up0 by (rule service) (rule round_begin, simp add: services_of_def running_new_def)
  have up1: "map_of (sr_servers (rn_server ?r1)) ''a'' = Some first_up"
    by (simp add: with_services_def put_daemon_def update_conv services_of_def first_up_def)
  let ?s1 = "services_of ''a'' first_up ?r1"
  have "sv_state ?s1 = daemon_state_new" "sv_events ?s1 = []" "sv_round ?s1 = Some (5, one_device, daemon_state_new)"
    by (simp_all add: services_of_def with_services_def first_up_def running_new_def)
  then have "service_step (\<lambda>_. []) (\<lambda>_. Inl ()) rev ''a'' ?s1 (?s1\<lparr>sv_round := None, sv_state := fst first_round, sv_events := snd first_round\<rparr>)"
    using first_round(1) by (intro round_apply [where r = "Inr ()"]) simp_all
  from service [OF up1 this, of open_site]
  have 2: "server_step open_site (\<lambda>_. []) (\<lambda>_. Inl ()) rev ?r1
     (with_services ''a'' first_up (?s1\<lparr>sv_round := None, sv_state := fst first_round, sv_events := snd first_round\<rparr>) ?r1)" .
  have "with_services ''a'' first_up (?s1\<lparr>sv_round := None, sv_state := fst first_round, sv_events := snd first_round\<rparr>) ?r1 = demo_running"
    by (simp add: demo_running_def with_services_def services_of_def running_new_def put_daemon_def fun_eq_iff first_up_def
        fresh_servers_def demo_config_def)
  with 1 2 show ?thesis by (metis converse_rtranclp_into_rtranclp rtranclp.rtrancl_refl)
qed



end
