(* ===== verification/Spec2Isabelle.thy ===== *)
theory Spec2Isabelle
  imports Response_Laws Unit_Text Client_Build Client_Api Permission_Ops Sockets System_Run
begin

text \<open>
  A verification library for \<open>nut_webgui\<close>: a web interface for UPS devices that are managed by NUT
  daemons (upsd). Sources are named relative to \<open>src/nut_webgui_upsmc/src\<close> (the client library, written
  \<open>upsmc\<close> below) and \<open>src/nut_webgui/src\<close> (the server, \<open>webgui\<close>).

  \<^bold>\<open>How the program works.\<close> The client library speaks the line protocol of NUT: commands are serialized
  with escaping, answers are tokenized, parsed and turned into values. Connections are shared by a
  pool. The server keeps, for every configured daemon, a state with its devices. Three background
  services per daemon keep it up to date: one for the set of devices, one for statuses and variables,
  one for descriptions. What they change they announce on an event channel, which a fourth service
  serializes for web sockets. HTTP requests read the state or, through authentication layers, send
  commands over the pool: set a variable, run an instant command, force a shutdown. Start-up merges
  command line, environment and configuration file.

  \<^bold>\<open>Theories and sources.\<close>
  \<^item> \<open>Prelude\<close>: results of fallible code (\<open>'e + 'a\<close>), bytes and UTF-8 texts with slices that may panic,
    trimming and splitting, decimal numbers. \<open>Float64\<close>, \<open>Std_Net\<close>: what the sources use of \<open>f64\<close> (parsing,
    rounding, printing, comparison, exactly on rationals) and of \<open>IpAddr\<close> (the parser of std).
  \<^item> \<open>Errors\<close> (\<open>upsmc/error.rs\<close>), \<open>Escape\<close> (\<open>internal/escape.rs\<close>), \<open>Lexer\<close> (\<open>internal/lexer.rs\<close>), \<open>Standard_Names\<close>,
    \<open>Names\<close> (\<open>var_name.rs\<close>, \<open>ups_name.rs\<close>, \<open>cmd_name.rs\<close>, \<open>var_type.rs\<close>), \<open>Value\<close> (\<open>value.rs\<close>), \<open>Parser\<close>
    (\<open>internal/parser_utils.rs\<close>: the macro \<open>parse_line!\<close> as an interpreter), \<open>Response\<close> and \<open>Response_Laws\<close>
    (\<open>response/*.rs\<close>), \<open>Command\<close> (\<open>command.rs\<close>).
  \<^item> \<open>Client\<close> (\<open>client/client_base.rs\<close>, \<open>client_auth.rs\<close>, \<open>client_tls.rs\<close>), \<open>Item_Pool\<close> (\<open>internal/item_pool.rs\<close>),
    \<open>Client_Pool\<close> (\<open>client/client_pool.rs\<close>), \<open>Pool_Refinement\<close> (the calls of a single task as runs of the pool's transition
    system), \<open>Client_Api\<close> (\<open>client.rs\<close>: the traits of the plain, the logged-in and the pooled client).
  \<^item> \<open>Flags\<close>, \<open>Status\<close> (\<open>ups_status.rs\<close>, \<open>ups_event.rs\<close>), \<open>Daemon_State\<close> (\<open>webgui/state.rs\<close>, \<open>event.rs\<close>, \<open>event/*\<close>,
    \<open>sync/reverse_dns.rs\<close>), \<open>Device_Sync\<close>, \<open>Status_Sync\<close>, \<open>Services\<close> (\<open>sync/sync_device.rs\<close>, \<open>sync_status.rs\<close>,
    \<open>sync_desc.rs\<close> and their interleaving).
  \<^item> \<open>Sockets\<close> (the addresses in memory that \<open>sync/reverse_dns.rs\<close> hands to libc), \<open>Event_Log\<close> (what a listener of the
    event channel knows), \<open>System_Run\<close> (the running server: all services of all daemons and all requests, interleaved).
  \<^item> \<open>Tokens\<close>, \<open>Permission_Ops\<close>, \<open>Users\<close> (\<open>auth/*.rs\<close>), \<open>Http_Auth\<close> (the middleware of \<open>http/json_api\<close> and \<open>http/hypermedia\<close>, login and
    API keys), \<open>Config\<close> (\<open>config.rs\<close>, \<open>config/*\<close>, parts of \<open>main.rs\<close>), \<open>Http_Api\<close> and \<open>Http_Api_Laws\<close> (the
    routes that write, the probes, how \<open>http.rs\<close> stacks the layers), \<open>Event_Api\<close> (\<open>http/event_api\<close>, stopping
    of \<open>background_service.rs\<close>), \<open>Device_View\<close> and \<open>Unit_Text\<close> (readings, their texts and explanations on the web pages, notifications), \<open>Ordered_Map\<close>
    (orders, \<open>BTreeMap\<close>, sorting), \<open>Topology\<close> (\<open>http/hypermedia/route/topology.rs\<close>), \<open>Http_Read\<close> (the routes and pages
    that only read), \<open>Routes\<close> (\<open>http.rs\<close>: every endpoint with the layers around it; static files), \<open>Serde\<close> (every
    \<open>Serialize\<close> implementation and visitor, as values of serde's data model), \<open>Runner\<close>
    (\<open>background_service.rs\<close>, the loops of the services, start and shutdown in \<open>main.rs\<close>).
  \<^item> \<open>Client_Build\<close> (\<open>src/nut_webgui_client\<close>: the build script, in the state monad, and the statics it feeds).

  \<^bold>\<open>State and effects.\<close> A connection (\<open>Client\<close>) is a record of the texts its reads will deliver, what was
  written, and a read budget \<open>nc_timeout\<close> for the time limit of a request: a read that waits for ever
  or the exhausted budget is the timeout. The default of 60 is the default of 60 seconds; the
  theorems assume only that the budget exceeds the number of lines of the answer. The pool is modelled
  twice: as functions that a single task runs, where \<open>None\<close> means that the task waits, and as a
  transition system over permits, guards and items for every interleaving and cancellation. The
  synchronization services are functions on the daemon's state, and \<open>Services\<close> interleaves them as a
  step relation. HTTP handlers pass the state of the server through their layers; an answer is a
  response, a request that waits, or an unwound panic. A web socket is what was sent and how many
  more operations succeed; what arrives at it is a schedule, and so is what the \<open>select!\<close> of a service's
  loop yields: the theorems hold for every schedule, so no fuel is needed. The search for the shortest text of a float has
  fuel for all powers of ten a float can need, and is shown to succeed. A \<open>BTreeMap\<close> is the list of its entries in
  key order and a \<open>HashMap\<close> an association list or a map, whose iteration order is then arbitrary.
  Panics are values (\<open>Panic\<close>, \<open>None\<close> of a slice), so that their absence is proved and not assumed.
  Numbers have their width where it matters: status and permission words, token times, ports.

  \<^bold>\<open>Interfaces.\<close> Locales state what components rely on, each interpreted on the model: \<open>text_name\<close> (three
  kinds of names), \<open>flags\<close> (statuses and permissions), \<open>list_response\<close> (seven list responses),
  \<open>item_allocator\<close> (the pool's allocator), \<open>binary_token\<close> (tokens and sessions), \<open>config_layer\<close> and \<open>two_layers\<close>
  (four layers of configuration), \<open>auth_operation\<close> (the three commands that need a login), \<open>comparator\<close>
  (the orders of keys and of sorted lists), \<open>faithful_log\<close> (a system whose events tell its state: the services of a
  daemon and the running server), \<open>read_client\<close> (requests that send at most one command: the plain and the
  logged-in client).

  \<^bold>\<open>What is shown.\<close> For the protocol: serialization is injective on tokens and never panics, texts survive
  escaping and tokenizing, every response is read back, foreign rows are errors, a device list works
  end to end. For the pool: permits are conserved and bound the items, pooled calls never wait on
  themselves, every call is a run of the transition system, and requests for data never act on a device. For the services: a device round refines a per-device specification, polls are exact,
  events replay to the state and reach the web sockets, and the loops
  refine the interleaving. For the running server, over every interleaving of services and requests from a fresh start: the
  invariants hold, the events tell a listener exactly the known devices and the status of every daemon,
  and the JSON API answers in agreement with them. For access: no
  handler is reached, no command written and no event text sent without a signed, active token with
  the permission, keys never exceed their issuer, and written values are allowed ones; over all endpoints, nothing
  changes without the permission of the endpoint and an anonymous request sees only the public ones.
  For the life of the server: what is started, that services outlive failed rounds, how old readings
  can get, and that shutdown ends within its ten seconds. For the build script: a build that cargo accepts embeds
  exactly the bundled files under their digests. For the rest:
  precedence and well-formedness of configurations, round trips of tokens, values and everything that is serialized, the
  equivalence of the escape routine with its reference, exact and guarded reads, and closedness of the
  topology graph.

  \<^bold>\<open>Parameters.\<close> Code outside the repository is an argument of the definitions that use it: opening
  sockets and the TLS handshake (\<open>connect\<close>, \<open>handshake\<close>), the keyed hash, scrypt, base64, the random
  source, the clock, libc's resolver, the environment, toml, clap, JSON serialization, rendering and
  the iteration order of hash maps. Hypotheses
  about them (a hash of 32 bytes, base64 that decodes what it encodes) are named where they are used
  and shown to be satisfiable by the witnesses.

  \<^bold>\<open>Not modelled.\<close> The texts that \<open>serde_json\<close> and askama make of the modelled values, and the templates; explanatory texts
  of problem details;
  logging; the tokio runtime, signals and sockets behind \<open>main.rs\<close>; CORS, compression, body
  limits and timeouts of tower, and the \<open>Layer\<close> and \<open>Service\<close> plumbing of the middleware, whose \<open>call\<close> is modelled; the
  file \<open>http/json_api/route/namespace_list.rs\<close>, which no module includes; unit tests; the TypeScript client.
\<close>

section \<open>Across the protocol stack\<close>

text \<open>The lines of a rendered device list, as \<open>read_line\<close> delivers them.\<close>

definition ups_list_lines :: "ups_device list \<Rightarrow> string list" where
  "ups_list_lines ds =
     line [Word ''BEGIN'', Word ''LIST'', Word ''UPS'']
     # map (\<lambda>d. line [Word ''UPS'', Word (ups_str (dev_ups_name d)), Quote (dev_desc d)]) ds
     @ [line [Word ''END'', Word ''LIST'', Word ''UPS'']]"

lemma concat_ups_list_lines:
  "concat (ups_list_lines ds) = list_block ''UPS'' []
     (map (\<lambda>d. [Word (ups_str (dev_ups_name d)), Quote (dev_desc d)]) ds)"
  by (simp add: ups_list_lines_def list_block_def comp_def)

text \<open>C1: The device list, end to end. A peer that answers \<open>LIST UPS\<close> with a well-formed list of
  devices is understood: the request writes exactly \<open>LIST UPS\<close>, returns exactly these devices in
  order, whatever quotes, backslashes or other characters their descriptions hold, and leaves the
  connection at the next response.\<close>

theorem list_ups_end_to_end:
  assumes "list_all (\<lambda>d. ups_ok (dev_ups_name d) \<and> text_ok (dev_desc d)) ds"
    and "inbox c = ups_list_lines ds @ next_responses" and "write_error c = None"
    and "length ds + 1 < nc_timeout c"
  shows "list_ups c = (Inr ds, c\<lparr>inbox := next_responses, outbox := outbox c @ ''LIST UPS'' @ [LF]\<rparr>)"
proof -
  let ?b = "line [Word ''BEGIN'', Word ''LIST'', Word ''UPS'']"
  let ?rows = "map (\<lambda>d. line [Word ''UPS'', Word (ups_str (dev_ups_name d)), Quote (dev_desc d)]) ds"
  let ?e = "line [Word ''END'', Word ''LIST'', Word ''UPS'']"
  have "send_raw (''LIST UPS'' @ [LF]) c =
      (Inr (?b @ concat ?rows @ ?e), c\<lparr>inbox := next_responses, outbox := outbox c @ ''LIST UPS'' @ [LF]\<rparr>)"
    using assms(2-4)
    by (intro send_raw_list) (simp_all add: ups_list_lines_def line_def list_all_iff)
  moreover have "?b @ concat ?rows @ ?e = concat (ups_list_lines ds)"
    by (simp add: ups_list_lines_def)
  moreover have "deserialize_ups_list (lexer_new (concat (ups_list_lines ds))) = Inr ds"
    using ups_list_read [OF assms(1)] by (simp add: concat_ups_list_lines)
  moreover have "concat (ups_list_lines ds) \<noteq> []"
    by (simp add: ups_list_lines_def line_def)
  ultimately show ?thesis
    by (simp add: list_ups_def send_def)
qed

theorem list_ups_end_to_end_witness:
  "fst (list_ups (nc_new (ups_list_lines [\<lparr>dev_ups_name = UpsName ''a'', dev_desc = ''x''\<rparr>]) Idle))
   = Inr [\<lparr>dev_ups_name = UpsName ''a'', dev_desc = ''x''\<rparr>]"
  using list_ups_end_to_end [of "[\<lparr>dev_ups_name = UpsName ''a'', dev_desc = ''x''\<rparr>]"
      "nc_new (ups_list_lines [\<lparr>dev_ups_name = UpsName ''a'', dev_desc = ''x''\<rparr>]) Idle" "[]"]
  by (simp add: nc_new_def ups_ok_def text_ok_def is_word_def is_ascii_whitespace_def is_cont_def)

section \<open>From the daemon to the browser\<close>

text \<open>The messages of a system event, in order.\<close>

fun event_messages :: "int \<Rightarrow> system_event \<Rightarrow> event_message list" where
  "event_messages t (DeviceAddition devices ns) = map (\<lambda>n. M_DeviceConnected n ns t) devices"
| "event_messages t (DeviceRemoval devices ns) = map (\<lambda>n. M_DeviceRemoved n ns t) devices"
| "event_messages t (DeviceUpdate devices ns) = map (\<lambda>n. M_DeviceUpdate n ns t) devices"
| "event_messages t (DeviceStatusChange changes ns) =
     map (\<lambda>c. M_DeviceStatus (sc_name c) ns (sc_new c) (sc_old c) (events_new (sc_old c) (sc_new c)) t) changes"
| "event_messages t (DaemonStatusUpdate status ns) = [M_DaemonStatus ns status t]"
| "event_messages t (ClientConnection devices ns) =
     concat (map (\<lambda>d. map (\<lambda>ip. M_ClientConnect ip (dc_name d) ns t) (dc_clients d)) devices)"
| "event_messages t (ClientDisconnection devices ns) =
     concat (map (\<lambda>d. map (\<lambda>ip. M_ClientDisconnect ip (dc_name d) ns t) (dc_clients d)) devices)"

lemma push_messages_total: "\<forall>m. to_json m = Inr (f m) \<Longrightarrow> push_messages to_json ms data = Inr (data @ map f ms)"
  by (induction ms arbitrary: data) simp_all

lemma event_payload_total:
  assumes "\<forall>m. to_json m = Inr (f m)"
  shows "event_payload to_json t e = Inr (map f (event_messages t e))"
  by (cases e) (simp_all add: assms push_messages_total [OF assms] process_device_addition_def process_device_removal_def
      process_device_update_def process_device_status_update_def process_daemon_state_def process_client_connect_def
      process_client_disconnect_def)

lemma broadcast_total:
  assumes "\<forall>m. to_json m = Inr (f m)" "0 < receivers"
  shows "broadcast_run to_json (map (Bus_Ok receivers t) evs) = map (\<lambda>e. map f (event_messages t e)) evs"
  using assms(2) event_payload_total [OF assms(1)] by (induction evs) (simp_all add: serialize_next_def)

lemma feed_all_total: "sk_left s = None \<Longrightarrow> feed_all ms s = (None, s\<lparr>sk_out := sk_out s @ ms\<rparr>)"
  by (induction ms arbitrary: s) (simp_all add: sink_feed_def sink_op_def)

lemma connection_total:
  assumes "case session of Some v \<Rightarrow> \<not> is_expired now v | None \<Rightarrow> True"
  shows "sk_left s = None \<Longrightarrow> sk_out (connection to_json session cancelled (map (Payload now) payloads) s) = sk_out s @ concat payloads"
proof (induction payloads arbitrary: s)
  case (Cons payload payloads)
  have "send_payload session now payload s = (Inr (), s\<lparr>sk_out := sk_out s @ payload\<rparr>)"
    using assms Cons.prems by (simp add: send_payload_def feed_all_total sink_flush_def sink_op_def split: option.splits)
  then show ?case using Cons.IH [of "s\<lparr>sk_out := sk_out s @ payload\<rparr>"] Cons.prems by simp
qed simp

lemma status_sync_changes:
  assumes "status_sync log_send ns now a st0 st [] = Some (st', evs)"
  shows "\<exists>changes. evs = (if changes = [] then [] else [DeviceStatusChange changes ns])
    \<and> replay (statuses (ds_devices st)) changes = Some (statuses (ds_devices st'))"
proof (cases "snapshot_active_device_names st0 = []")
  case True
  then show ?thesis using assms by (intro exI [of _ "[]"]) (simp add: status_sync_def)
next
  case False
  obtain st1 changes where applied: "status_sync_apply now (status_responses a (snapshot_active_device_names st0)) st = (st1, changes)"
    by fastforce
  then have "replay (statuses (ds_devices st)) changes = Some (statuses (ds_devices st1))"
    using status_sync_log [of "statuses (ds_devices st)" "[]" "ds_devices st" now]
    by (auto simp: status_sync_apply_def split: prod.splits)
  then show ?thesis
    using assms False applied by (intro exI [of _ changes]) (auto simp: status_sync_def Let_def split: if_splits)
qed

text \<open>C12: A status change reaches the browser. When a poll of the daemon changes statuses, the texts that an
  open web socket gets for it, with a session that has not expired, are exactly one message per change
  with the events of that change, in the order in which they happened; replaying them turns the
  statuses before the poll into those after it. When nothing changed, nothing is sent.\<close>

theorem status_change_reaches_browser:
  assumes "status_sync log_send ns now a st0 st [] = Some (st', evs)"
    and "\<forall>m. to_json m = Inr (f m)" "0 < receivers" "sk_left s = None"
    and "case session of Some v \<Rightarrow> \<not> is_expired clock v | None \<Rightarrow> True"
  shows "\<exists>changes. replay (statuses (ds_devices st)) changes = Some (statuses (ds_devices st'))
    \<and> sk_out (connection to_json session False
        (map (Payload clock) (broadcast_run to_json (map (Bus_Ok receivers t) evs))) s)
      = sk_out s @ map (\<lambda>c. f (M_DeviceStatus (sc_name c) ns (sc_new c) (sc_old c) (events_new (sc_old c) (sc_new c)) t)) changes"
proof -
  obtain changes where c: "evs = (if changes = [] then [] else [DeviceStatusChange changes ns])"
    "replay (statuses (ds_devices st)) changes = Some (statuses (ds_devices st'))"
    using status_sync_changes [OF assms(1)] by blast
  have "sk_out (connection to_json session False (map (Payload clock) (broadcast_run to_json (map (Bus_Ok receivers t) evs))) s)
      = sk_out s @ concat (map (\<lambda>e. map f (event_messages t e)) evs)"
    using connection_total [OF assms(5,4)] broadcast_total [OF assms(2,3)] by metis
  with c show ?thesis by (intro exI [of _ changes]) (simp add: comp_def)
qed

theorem status_change_reaches_browser_witness:
  "\<exists>st' evs changes.
     status_sync log_send ''ns'' 9 (unreachable\<lparr>q_get_var := (\<lambda>u v. Inr \<lparr>uv_value = V_String ''OL'', uv_name = v, uv_ups_name = u\<rparr>)\<rparr>)
       (daemon_state_new\<lparr>ds_devices := [(UpsName ''a'', (nocomm_entry 1 (UpsName ''a''))\<lparr>de_status := 0\<rparr>)]\<rparr>)
       (daemon_state_new\<lparr>ds_devices := [(UpsName ''a'', (nocomm_entry 1 (UpsName ''a''))\<lparr>de_status := 0\<rparr>)]\<rparr>) [] = Some (st', evs)
     \<and> replay [UpsName ''a'' \<mapsto> 0] changes = Some (statuses (ds_devices st'))
     \<and> length (sk_out (connection (\<lambda>m. Inr ''x'') None False (map (Payload 0) (broadcast_run (\<lambda>m. Inr ''x'') (map (Bus_Ok 1 5) evs)))
          \<lparr>sk_out = [], sk_left = None\<rparr>)) = length changes"
proof -
  let ?a = "unreachable\<lparr>q_get_var := (\<lambda>u v. Inr \<lparr>uv_value = V_String ''OL'', uv_name = v, uv_ups_name = u\<rparr>)\<rparr>"
  let ?st = "daemon_state_new\<lparr>ds_devices := [(UpsName ''a'', (nocomm_entry 1 (UpsName ''a''))\<lparr>de_status := 0\<rparr>)]\<rparr>"
  obtain st' evs where r: "status_sync log_send ''ns'' 9 ?a ?st ?st [] = Some (st', evs)"
    by (cases "status_sync log_send ''ns'' 9 ?a ?st ?st []")
      (auto simp: status_sync_def status_responses_def Let_def split: if_splits prod.splits)
  have st: "statuses (ds_devices ?st) = [UpsName ''a'' \<mapsto> 0]" by (simp add: statuses_def fun_eq_iff)
  show ?thesis
    using status_change_reaches_browser [OF r, where to_json = "\<lambda>m. Inr ''x''" and f = "\<lambda>m. ''x''" and receivers = 1
        and s = "\<lparr>sk_out = [], sk_left = None\<rparr>" and session = None and clock = 0 and t = 5] r
    unfolding st by fastforce
qed

end
